(* ===== verification/Prelude.thy ===== *)
theory Prelude
  imports Main "HOL-Library.List_Lexorder" "HOL-Library.Char_ord" "HOL-Library.Multiset"
begin

text \<open>
  What every component shares.

  \<^item> Python exceptions as values (\<open>pyexc\<close>, one constructor per exception class the
    sources raise or let through; \<open>ClientError\<close> with its error code and message,
    \<open>OSError\<close> with the class within that family) and the result type \<open>'a res\<close>: \<open>Inl\<close> is a raise,
    \<open>Inr\<close> a normal return.
  \<^item> Sequencing of raising computations (\<open>bindR\<close>, \<open>mapR\<close>) and of raising
    computations over a mutable object (\<open>bindS\<close>, \<open>mapS\<close>, \<open>iterS\<close>), with the
    congruence rules the function package needs for recursion under them and the
    elimination rules the proofs use.
  \<^item> Python dicts as association lists in insertion order (\<open>dict_set\<close>,
    \<open>dict_get\<close>), the interface \<open>ordered_dict\<close> they provide and its
    interpretation.
  \<^item> Generic lemmas on sorting that the generators share.
\<close>

named_theorems res_simps \<open>rewriting of raising computations\<close>
named_theorems res_elims \<open>elimination of a successful or failed sequence\<close>
named_theorems dict_simps \<open>rewriting of ordered dictionaries\<close>

section \<open>Exceptions and results\<close>

text \<open>\<open>sys.exit\<close> with a number or with a message (which is printed and gives status 1).\<close>

datatype exit_status =
    ExitCode int
  | ExitMessage string

datatype pyexc =
    TypeError string
  | NameError string
  | RuntimeError string
  | NotImplementedError string
  | ImportError string
  | KeyError string
  | AttributeError string
  | IndexError string
  | LlvmliteError string
  | ValueError string
  | ClientError string string
  | OSError string
  | JSONDecodeError string
  | OtherError string
  | SystemExit exit_status

type_synonym 'a res = "pyexc + 'a"

definition bindR :: "'a res \<Rightarrow> ('a \<Rightarrow> 'b res) \<Rightarrow> 'b res" where
  "bindR m f = (case m of Inl e \<Rightarrow> Inl e | Inr a \<Rightarrow> f a)"

lemma bindR_simps [simp, res_simps]:
  "bindR (Inl e) f = Inl e"
  "bindR (Inr a) f = f a"
  by (simp_all add: bindR_def)

lemma bindR_Inr_iff [res_simps]:
  "bindR m f = Inr b \<longleftrightarrow> (\<exists>a. m = Inr a \<and> f a = Inr b)"
  by (cases m) auto

lemma bindR_InrE [res_elims, elim!]:
  assumes "bindR m f = Inr b"
  obtains a where "m = Inr a" "f a = Inr b"
  using assms by (auto simp: bindR_Inr_iff)

lemma bindR_cong [fundef_cong]:
  "m = m' \<Longrightarrow> (\<And>a. m' = Inr a \<Longrightarrow> f a = f' a) \<Longrightarrow> bindR m f = bindR m' f'"
  by (cases m') auto

lemma bindR_assoc: "bindR (bindR m f) g = bindR m (\<lambda>a. bindR (f a) g)"
  by (cases m) auto

definition succeeds :: "'a res \<Rightarrow> bool" where
  "succeeds r = (case r of Inl _ \<Rightarrow> False | Inr _ \<Rightarrow> True)"

lemma succeeds_iff: "succeeds r \<longleftrightarrow> (\<exists>a. r = Inr a)"
  by (auto simp: succeeds_def split: sum.splits)

text \<open>A comprehension or a loop that collects results and stops at the first raise.\<close>

fun mapR :: "('a \<Rightarrow> 'b res) \<Rightarrow> 'a list \<Rightarrow> 'b list res" where
  "mapR f [] = Inr []"
| "mapR f (x # xs) = bindR (f x) (\<lambda>y. bindR (mapR f xs) (\<lambda>ys. Inr (y # ys)))"

lemma mapR_Inr_iff: "mapR f xs = Inr ys \<longleftrightarrow> list_all2 (\<lambda>x y. f x = Inr y) xs ys"
  by (induction xs arbitrary: ys) (auto simp: bindR_Inr_iff list_all2_Cons1)

lemma mapR_total: "(\<And>x. x \<in> set xs \<Longrightarrow> f x = Inr (g x)) \<Longrightarrow> mapR f xs = Inr (map g xs)"
  by (induction xs) auto

lemma mapR_length: "mapR f xs = Inr ys \<Longrightarrow> length ys = length xs"
  by (auto simp: mapR_Inr_iff dest: list_all2_lengthD)

section \<open>Raising computations over a state\<close>

type_synonym ('s, 'a) sm = "'s \<Rightarrow> ('a \<times> 's) res"

definition retS :: "'a \<Rightarrow> ('s, 'a) sm" where
  "retS a s = Inr (a, s)"

definition raiseS :: "pyexc \<Rightarrow> ('s, 'a) sm" where
  "raiseS e s = Inl e"

definition bindS :: "('s, 'a) sm \<Rightarrow> ('a \<Rightarrow> ('s, 'b) sm) \<Rightarrow> ('s, 'b) sm" where
  "bindS m f s = (case m s of Inl e \<Rightarrow> Inl e | Inr (a, s') \<Rightarrow> f a s')"

definition getS :: "('s \<Rightarrow> 'a) \<Rightarrow> ('s, 'a) sm" where
  "getS f s = Inr (f s, s)"

definition modS :: "('s \<Rightarrow> 's) \<Rightarrow> ('s, unit) sm" where
  "modS f s = Inr ((), f s)"

definition liftS :: "'a res \<Rightarrow> ('s, 'a) sm" where
  "liftS r s = (case r of Inl e \<Rightarrow> Inl e | Inr a \<Rightarrow> Inr (a, s))"

lemma retS_iff [simp, res_simps]: "retS a s = Inr (b, s') \<longleftrightarrow> b = a \<and> s' = s"
  by (auto simp: retS_def)

lemma raiseS_iff [simp, res_simps]: "raiseS e s = Inr r \<longleftrightarrow> False"
  by (simp add: raiseS_def)

lemma getS_iff [simp, res_simps]: "getS f s = Inr (b, s') \<longleftrightarrow> b = f s \<and> s' = s"
  by (auto simp: getS_def)

lemma modS_iff [simp, res_simps]: "modS f s = Inr (b, s') \<longleftrightarrow> s' = f s"
  by (auto simp: modS_def)

lemma liftS_iff [simp, res_simps]: "liftS r s = Inr (b, s') \<longleftrightarrow> r = Inr b \<and> s' = s"
  by (auto simp: liftS_def split: sum.splits)

lemma bindS_Inr_iff [res_simps]:
  "bindS m f s = Inr (b, s'') \<longleftrightarrow> (\<exists>a s'. m s = Inr (a, s') \<and> f a s' = Inr (b, s''))"
  by (auto simp: bindS_def split: sum.splits)

lemma bindS_InrE [res_elims, elim!]:
  assumes "bindS m f s = Inr (b, s'')"
  obtains a s' where "m s = Inr (a, s')" "f a s' = Inr (b, s'')"
  using assms by (auto simp: bindS_Inr_iff)

lemma bindS_step [res_simps]: "m s = Inr (a, s') \<Longrightarrow> bindS m f s = f a s'"
  by (simp add: bindS_def)

lemma bindS_fail [res_simps]: "m s = Inl e \<Longrightarrow> bindS m f s = Inl e"
  by (simp add: bindS_def)

lemma bindS_run [simp]:
  "bindS (retS a) f s = f a s"
  "bindS (getS g) f s = f (g s) s"
  "bindS (modS h) f' s = f' () (h s)"
  "bindS (raiseS e) f s = Inl e"
  by (simp_all add: bindS_def retS_def getS_def modS_def raiseS_def)

text \<open>A loop over a list that threads the state and collects the results, and one run for its
  effect only. The congruence rules let a visitor recurse into the elements of a list.\<close>

primrec mapS :: "('a \<Rightarrow> ('s, 'b) sm) \<Rightarrow> 'a list \<Rightarrow> ('s, 'b list) sm" where
  "mapS f [] = retS []"
| "mapS f (x # xs) = bindS (f x) (\<lambda>y. bindS (mapS f xs) (\<lambda>ys. retS (y # ys)))"

primrec iterS :: "('a \<Rightarrow> ('s, unit) sm) \<Rightarrow> 'a list \<Rightarrow> ('s, unit) sm" where
  "iterS f [] = retS ()"
| "iterS f (x # xs) = bindS (f x) (\<lambda>_. iterS f xs)"

lemma mapS_cong [fundef_cong]:
  assumes "xs = ys" and "\<And>x. x \<in> set ys \<Longrightarrow> f x = g x"
  shows "mapS f xs = mapS g ys"
  unfolding assms(1) using assms(2) by (induction ys) simp_all

lemma iterS_cong [fundef_cong]:
  assumes "xs = ys" and "\<And>x. x \<in> set ys \<Longrightarrow> f x = g x"
  shows "iterS f xs = iterS g ys"
  unfolding assms(1) using assms(2) by (induction ys) simp_all

text \<open>Every successful run of a sequence is linked by a reflexive, transitive relation that
  links every successful run of its parts: the lemma behind all frame arguments.\<close>

lemma iterS_rel:
  assumes "\<And>x s s'. x \<in> set xs \<Longrightarrow> f x s = Inr ((), s') \<Longrightarrow> R s s'"
    and "\<And>s. R s s" and "\<And>s t u. R s t \<Longrightarrow> R t u \<Longrightarrow> R s u"
    and "iterS f xs s = Inr ((), s')"
  shows "R s s'"
  using assms(1,4)
proof (induction xs arbitrary: s)
  case Nil
  then show ?case by (simp add: assms(2))
next
  case (Cons x xs)
  from Cons.prems(2) obtain t where t: "f x s = Inr ((), t)" "iterS f xs t = Inr ((), s')"
    by auto
  have "R s t" by (rule Cons.prems(1) [OF _ t(1)]) simp
  moreover have "R t s'" by (rule Cons.IH [OF _ t(2)]) (rule Cons.prems(1), simp_all)
  ultimately show ?case by (rule assms(3))
qed

lemma mapS_rel:
  assumes "\<And>x b s s'. x \<in> set xs \<Longrightarrow> f x s = Inr (b, s') \<Longrightarrow> R s s'"
    and "\<And>s. R s s" and "\<And>s t u. R s t \<Longrightarrow> R t u \<Longrightarrow> R s u"
    and "mapS f xs s = Inr (bs, s')"
  shows "R s s'"
  using assms(1,4)
proof (induction xs arbitrary: s bs)
  case Nil
  then show ?case by (simp add: assms(2))
next
  case (Cons x xs)
  from Cons.prems(2) obtain b t bs' where
    t: "f x s = Inr (b, t)" "mapS f xs t = Inr (bs', s')" by auto
  have "R s t" by (rule Cons.prems(1) [OF _ t(1)]) simp
  moreover have "R t s'" by (rule Cons.IH [OF _ t(2)]) (rule Cons.prems(1), simp_all)
  ultimately show ?case by (rule assms(3))
qed

lemma mapS_length: "mapS f xs s = Inr (ys, s') \<Longrightarrow> length ys = length xs"
proof (induction xs arbitrary: s ys)
  case (Cons x xs)
  then show ?case by (auto dest: Cons.IH)
qed simp

text \<open>The same as a locale: a preorder on states, and the computations whose successful runs it
  links. The rules follow the shape of a computation.\<close>

locale frame =
  fixes R :: "'s \<Rightarrow> 's \<Rightarrow> bool"
  assumes R_refl: "R s s"
    and R_trans: "R s t \<Longrightarrow> R t u \<Longrightarrow> R s u"
begin

definition within :: "('s, 'a) sm \<Rightarrow> bool" where
  "within m \<longleftrightarrow> (\<forall>s a s'. m s = Inr (a, s') \<longrightarrow> R s s')"

lemma withinI: "(\<And>s a s'. m s = Inr (a, s') \<Longrightarrow> R s s') \<Longrightarrow> within m"
  by (simp add: within_def)

lemma withinD: "within m \<Longrightarrow> m s = Inr (a, s') \<Longrightarrow> R s s'"
  by (simp add: within_def)

lemma within_ret [intro!]: "within (retS a)"
  by (auto simp: within_def R_refl)

lemma within_raise [intro!]: "within (raiseS e)"
  by (auto simp: within_def)

lemma within_get [intro!]: "within (getS f)"
  by (auto simp: within_def R_refl)

lemma within_lift [intro!]: "within (liftS r)"
  by (auto simp: within_def R_refl)

lemma within_mod [intro]: "(\<And>s. R s (f s)) \<Longrightarrow> within (modS f)"
  by (auto simp: within_def)

lemma within_bind [intro!]:
  assumes "within m" and "\<And>a. within (f a)"
  shows "within (bindS m f)"
proof (rule withinI)
  fix s b u
  assume "bindS m f s = Inr (b, u)"
  then obtain a t where t: "m s = Inr (a, t)" "f a t = Inr (b, u)" by auto
  show "R s u"
    by (rule R_trans [OF withinD [OF assms(1) t(1)] withinD [OF assms(2) t(2)]])
qed

lemma within_map [intro]:
  assumes "\<And>x. x \<in> set xs \<Longrightarrow> within (f x)"
  shows "within (mapS f xs)"
  by (rule withinI, rule mapS_rel [of xs f R])
    (auto intro: R_refl R_trans withinD [OF assms])

lemma within_iter [intro]:
  assumes "\<And>x. x \<in> set xs \<Longrightarrow> within (f x)"
  shows "within (iterS f xs)"
  by (rule withinI, rule iterS_rel [of xs f R])
    (auto intro: R_refl R_trans withinD [OF assms])

lemma within_if [intro!]: "(c \<Longrightarrow> within m) \<Longrightarrow> (\<not> c \<Longrightarrow> within n) \<Longrightarrow> within (if c then m else n)"
  by simp

lemma within_case_prod [intro!]:
  "(\<And>a b. p = (a, b) \<Longrightarrow> within (f a b)) \<Longrightarrow> within (case p of (a, b) \<Rightarrow> f a b)"
  by (cases p) simp

lemma within_case_option [intro!]:
  "(x = None \<Longrightarrow> within m) \<Longrightarrow> (\<And>y. x = Some y \<Longrightarrow> within (f y)) \<Longrightarrow> within (case_option m f x)"
  by (cases x) simp_all

end

text \<open>Partial correctness triples, for arguments that follow a computation forwards.\<close>

definition hoare :: "('s \<Rightarrow> bool) \<Rightarrow> ('s, 'a) sm \<Rightarrow> ('a \<Rightarrow> 's \<Rightarrow> bool) \<Rightarrow> bool" where
  "hoare P m Q \<longleftrightarrow> (\<forall>s a s'. P s \<longrightarrow> m s = Inr (a, s') \<longrightarrow> Q a s')"

lemma hoareI: "(\<And>s a s'. P s \<Longrightarrow> m s = Inr (a, s') \<Longrightarrow> Q a s') \<Longrightarrow> hoare P m Q"
  by (simp add: hoare_def)

lemma hoareD: "hoare P m Q \<Longrightarrow> P s \<Longrightarrow> m s = Inr (a, s') \<Longrightarrow> Q a s'"
  by (simp add: hoare_def)

lemma hoare_bind:
  assumes "hoare P m Q" and "\<And>a. hoare (Q a) (f a) R"
  shows "hoare P (bindS m f) R"
proof (rule hoareI)
  fix s b u
  assume P: "P s" and run: "bindS m f s = Inr (b, u)"
  obtain a t where t: "m s = Inr (a, t)" "f a t = Inr (b, u)" using run by auto
  show "R b u" by (rule hoareD [OF assms(2) hoareD [OF assms(1) P t(1)] t(2)])
qed

lemma hoare_ret: "hoare (Q a) (retS a) Q"
  by (auto simp: hoare_def)

lemma bindS_ret: "bindS (retS a) f = f a"
  by (simp add: fun_eq_iff)

lemma hoare_ret_bind: "hoare P (f a) Q \<Longrightarrow> hoare P (bindS (retS a) f) Q"
  by (simp add: hoare_def)

lemma bindS_assoc: "bindS (bindS m f) g = bindS m (\<lambda>a. bindS (f a) g)"
  by (auto simp: bindS_def split: sum.split)

lemma iterS_append: "iterS f (xs @ ys) = bindS (iterS f xs) (\<lambda>_. iterS f ys)"
  by (induction xs) (simp_all add: bindS_assoc bindS_ret)

lemma hoare_weaken: "hoare P m Q \<Longrightarrow> (\<And>a s. Q a s \<Longrightarrow> Q' a s) \<Longrightarrow> hoare P m Q'"
  by (auto simp: hoare_def)

lemma hoare_ex: "(\<And>x. hoare (P x) m Q) \<Longrightarrow> hoare (\<lambda>s. \<exists>x. P x s) m Q"
  by (auto simp: hoare_def)

lemma hoare_fact: "(p \<Longrightarrow> hoare P m Q) \<Longrightarrow> hoare (\<lambda>s. p \<and> P s) m Q"
  by (auto simp: hoare_def)

lemma hoare_iter: "(\<And>x. x \<in> set xs \<Longrightarrow> hoare P (f x) (\<lambda>_. P)) \<Longrightarrow> hoare P (iterS f xs) (\<lambda>_. P)"
  by (induction xs) (auto intro: hoare_bind simp: hoare_def [of P "retS ()"])

section \<open>Python dictionaries in insertion order\<close>

type_synonym ('k, 'v) dict = "('k \<times> 'v) list"

abbreviation dict_get :: "('k, 'v) dict \<Rightarrow> 'k \<Rightarrow> 'v option" where
  "dict_get \<equiv> map_of"

abbreviation dict_keys :: "('k, 'v) dict \<Rightarrow> 'k list" where
  "dict_keys d \<equiv> map fst d"

text \<open>\<open>d[k] = v\<close> keeps the position of a key that is present and appends a new one.\<close>

fun dict_set :: "'k \<Rightarrow> 'v \<Rightarrow> ('k, 'v) dict \<Rightarrow> ('k, 'v) dict" where
  "dict_set k v [] = [(k, v)]"
| "dict_set k v ((k', v') # d) = (if k' = k then (k, v) # d else (k', v') # dict_set k v d)"

lemma dict_get_set [simp, dict_simps]:
  "dict_get (dict_set k v d) k' = (if k' = k then Some v else dict_get d k')"
  by (induction d) auto

lemma dict_set_fresh [dict_simps]: "k \<notin> set (dict_keys d) \<Longrightarrow> dict_set k v d = d @ [(k, v)]"
  by (induction d) auto

lemma dict_keys_set [dict_simps]:
  "dict_keys (dict_set k v d) = (if k \<in> set (dict_keys d) then dict_keys d else dict_keys d @ [k])"
proof (induction d)
  case (Cons kv d)
  then show ?case by (cases "fst kv = k") (cases kv, force)+
qed simp

lemma set_dict_keys_set [simp]: "set (dict_keys (dict_set k v d)) = insert k (set (dict_keys d))"
proof -
  have "set (dict_keys (dict_set k v d)) =
      set (if k \<in> set (dict_keys d) then dict_keys d else dict_keys d @ [k])"
    by (simp only: dict_keys_set)
  then show ?thesis by (simp add: insert_absorb split: if_splits)
qed

lemma dict_keys_get: "k \<in> set (dict_keys d) \<longleftrightarrow> dict_get d k \<noteq> None"
  by (induction d) auto

lemma distinct_dict_set [simp]: "distinct (dict_keys d) \<Longrightarrow> distinct (dict_keys (dict_set k v d))"
  by (simp add: dict_keys_set)

lemma set_dict_set: "kv \<in> set (dict_set k v d) \<Longrightarrow> kv = (k, v) \<or> kv \<in> set d"
  by (induction d) (auto split: if_splits)

lemma dict_get_None [dict_simps]: "dict_get d k = None \<longleftrightarrow> k \<notin> set (dict_keys d)"
  by (simp add: map_of_eq_None_iff)

text \<open>The contract the clients use: reading back what was written, keys in the order of their
  first insertion, no key twice.\<close>

locale ordered_dict =
  fixes empty :: 'd
    and get :: "'d \<Rightarrow> 'k \<Rightarrow> 'v option"
    and put :: "'k \<Rightarrow> 'v \<Rightarrow> 'd \<Rightarrow> 'd"
    and keys :: "'d \<Rightarrow> 'k list"
    and ok :: "'d \<Rightarrow> bool"
  assumes ok_empty: "ok empty"
    and keys_empty: "keys empty = []"
    and get_keys: "ok d \<Longrightarrow> get d k \<noteq> None \<longleftrightarrow> k \<in> set (keys d)"
    and ok_put: "ok d \<Longrightarrow> ok (put k v d)"
    and get_put: "ok d \<Longrightarrow> get (put k v d) k' = (if k' = k then Some v else get d k')"
    and keys_put: "ok d \<Longrightarrow> keys (put k v d) = (if k \<in> set (keys d) then keys d else keys d @ [k])"
    and keys_distinct: "ok d \<Longrightarrow> distinct (keys d)"
begin

definition build :: "('k \<times> 'v) list \<Rightarrow> 'd" where
  "build kvs = fold (\<lambda>(k, v). put k v) kvs empty"

lemma fold_put:
  assumes "ok d"
  shows "ok (fold (\<lambda>(k, v). put k v) kvs d)"
    and "get (fold (\<lambda>(k, v). put k v) kvs d) k =
          (case map_of (rev kvs) k of None \<Rightarrow> get d k | Some v \<Rightarrow> Some v)"
    and "set (keys (fold (\<lambda>(k, v). put k v) kvs d)) = set (keys d) \<union> fst ` set kvs"
proof -
  have "ok (fold (\<lambda>(k, v). put k v) kvs d)
      \<and> get (fold (\<lambda>(k, v). put k v) kvs d) k =
          (case map_of (rev kvs) k of None \<Rightarrow> get d k | Some v \<Rightarrow> Some v)
      \<and> set (keys (fold (\<lambda>(k, v). put k v) kvs d)) = set (keys d) \<union> fst ` set kvs"
    using assms
  proof (induction kvs arbitrary: d)
    case Nil
    then show ?case by simp
  next
    case (Cons kv kvs)
    obtain k' v where kv: "kv = (k', v)" by force
    from Cons.IH [of "put k' v d"] Cons.prems show ?case
      by (auto simp: kv ok_put get_put keys_put map_add_def split: option.splits if_splits)
  qed
  then show "ok (fold (\<lambda>(k, v). put k v) kvs d)"
    and "get (fold (\<lambda>(k, v). put k v) kvs d) k =
          (case map_of (rev kvs) k of None \<Rightarrow> get d k | Some v \<Rightarrow> Some v)"
    and "set (keys (fold (\<lambda>(k, v). put k v) kvs d)) = set (keys d) \<union> fst ` set kvs"
    by blast+
qed

lemma build_ok: "ok (build kvs)"
  unfolding build_def by (rule fold_put(1) [OF ok_empty])

lemma build_keys: "set (keys (build kvs)) = fst ` set kvs"
  unfolding build_def by (simp add: fold_put(3) [OF ok_empty] keys_empty)

lemma get_build: "get (build kvs) k = map_of (rev kvs) k"
proof -
  have "get empty k = None" using get_keys [OF ok_empty, of k] by (simp add: keys_empty)
  then show ?thesis
    unfolding build_def by (simp add: fold_put(2) [OF ok_empty] split: option.splits)
qed

end

interpretation pydict: ordered_dict "[]" dict_get dict_set dict_keys "\<lambda>d. distinct (dict_keys d)"
proof unfold_locales
  show "distinct (dict_keys d) \<Longrightarrow> dict_get d k \<noteq> None \<longleftrightarrow> k \<in> set (dict_keys d)" for d k
    using dict_get_None [of d k] by simp
qed (auto simp: dict_keys_set dict_set_fresh)

section \<open>Decimal numerals\<close>

text \<open>\<open>str(n)\<close> for a natural number.\<close>

fun nat_str :: "nat \<Rightarrow> string" where
  "nat_str n =
     (if n < 10 then [char_of (48 + n)] else nat_str (n div 10) @ [char_of (48 + n mod 10)])"

declare nat_str.simps [simp del]

lemma nat_str_nonempty: "nat_str n \<noteq> []"
  by (subst nat_str.simps) simp

lemma digit_char_inj:
  assumes "a < 10" "b < 10" "(char_of (48 + a) :: char) = char_of (48 + b)"
  shows "a = (b :: nat)"
proof -
  have "of_char (char_of (48 + a) :: char) = (48 + a :: nat)" if "a < 10" for a :: nat
    using that by (simp add: of_char_of)
  with assms have "48 + a = 48 + b" by metis
  then show ?thesis by simp
qed

lemma nat_str_inj: "nat_str m = nat_str n \<Longrightarrow> m = n"
proof (induction m arbitrary: n rule: less_induct)
  case (less m)
  show ?case
  proof (cases "m < 10 \<or> n < 10")
    case True
    then show ?thesis
      using less.prems nat_str_nonempty [of "m div 10"] nat_str_nonempty [of "n div 10"]
      by (subst (asm) nat_str.simps [of m], subst (asm) nat_str.simps [of n])
        (auto split: if_splits dest: digit_char_inj)
  next
    case False
    with less.prems have "nat_str (m div 10) = nat_str (n div 10)"
      "(char_of (48 + m mod 10) :: char) = char_of (48 + n mod 10)"
      by (simp_all add: nat_str.simps [of m] nat_str.simps [of n])
    with False have "m div 10 = n div 10" "m mod 10 = n mod 10"
      using less.IH [of "m div 10"] digit_char_inj [of "m mod 10" "n mod 10"] by simp_all
    then show ?thesis by (metis div_mult_mod_eq)
  qed
qed

section \<open>Sorting\<close>

text \<open>\<open>sorted(xs)\<close> on a collection without duplicates: the strictly increasing
  enumeration of its elements.\<close>

lemma sort_distinct_unique:
  fixes xs ys :: "'a::linorder list"
  assumes "set xs = set ys" "distinct xs" "distinct ys"
  shows "sort xs = sort ys"
  by (rule sorted_distinct_set_unique) (simp_all add: assms)

text \<open>\<open>sorted(d.items())\<close> compares the keys, which are distinct: the keys come out sorted.\<close>

lemma map_sort_key: "map f (sort_key f xs) = sort (map f xs)"
  by (rule properties_for_sort [symmetric]) simp_all

end
