(* ===== verification/Json.thy ===== *)
theory Json
  imports Prelude
begin

text \<open>
  JSON documents as the Python objects \<open>json.load\<close> returns, and the operations of Python's
  \<open>dict\<close>, \<open>list\<close> and \<open>str\<close> that \<open>scripts/parse_models.py\<close> applies to
  them, each with the exception it raises on an object of another class. Numbers are integers
  (the service models hold no others where the parser looks). A \<open>string\<close> is the UTF-8
  encoding of a Python \<open>str\<close>: encoding keeps equality, concatenation and the order of
  code points, which is all the parser uses.
\<close>

datatype json =
    JNull
  | JBool bool
  | JInt int
  | JStr string
  | JList "json list"
  | JObj "(string, json) dict"

text \<open>\<open>j[k]\<close> for a string \<open>k\<close>.\<close>

definition jget :: "json \<Rightarrow> string \<Rightarrow> json res" where
  "jget j k =
     (case j of
        JObj d \<Rightarrow> (case dict_get d k of None \<Rightarrow> Inl (KeyError k) | Some v \<Rightarrow> Inr v)
      | _ \<Rightarrow> Inl (TypeError ''object is not subscriptable by a string''))"

text \<open>\<open>j.get(k, d)\<close>.\<close>

definition jget_or :: "json \<Rightarrow> string \<Rightarrow> json \<Rightarrow> json res" where
  "jget_or j k v0 =
     (case j of
        JObj d \<Rightarrow> Inr (case dict_get d k of None \<Rightarrow> v0 | Some v \<Rightarrow> v)
      | _ \<Rightarrow> Inl (AttributeError ''get''))"

text \<open>\<open>needle in s\<close> on strings.\<close>

fun starts_with :: "string \<Rightarrow> string \<Rightarrow> bool" where
  "starts_with [] s = True"
| "starts_with (p # ps) [] = False"
| "starts_with (p # ps) (c # s) = (p = c \<and> starts_with ps s)"

fun str_contains :: "string \<Rightarrow> string \<Rightarrow> bool" where
  "str_contains needle [] = (needle = [])"
| "str_contains needle (c # s) = (starts_with needle (c # s) \<or> str_contains needle s)"

text \<open>\<open>k in j\<close> for a string \<open>k\<close>.\<close>

definition jin :: "string \<Rightarrow> json \<Rightarrow> bool res" where
  "jin k j =
     (case j of
        JObj d \<Rightarrow> Inr (k \<in> set (dict_keys d))
      | JList xs \<Rightarrow> Inr (JStr k \<in> set xs)
      | JStr s \<Rightarrow> Inr (str_contains k s)
      | _ \<Rightarrow> Inl (TypeError ''argument is not iterable''))"

text \<open>\<open>j.items()\<close>, \<open>j.values()\<close>, \<open>for x in j\<close> and truth.\<close>

definition jitems :: "json \<Rightarrow> (string, json) dict res" where
  "jitems j = (case j of JObj d \<Rightarrow> Inr d | _ \<Rightarrow> Inl (AttributeError ''items''))"

definition jvalues :: "json \<Rightarrow> json list res" where
  "jvalues j = (case j of JObj d \<Rightarrow> Inr (map snd d) | _ \<Rightarrow> Inl (AttributeError ''values''))"

definition jiter :: "json \<Rightarrow> json list res" where
  "jiter j =
     (case j of
        JList xs \<Rightarrow> Inr xs
      | JObj d \<Rightarrow> Inr (map JStr (dict_keys d))
      | JStr s \<Rightarrow> Inr (map (\<lambda>c. JStr [c]) s)
      | _ \<Rightarrow> Inl (TypeError ''object is not iterable''))"

definition jtruthy :: "json \<Rightarrow> bool" where
  "jtruthy j =
     (case j of
        JNull \<Rightarrow> False | JBool b \<Rightarrow> b | JInt i \<Rightarrow> i \<noteq> 0 | JStr s \<Rightarrow> s \<noteq> []
      | JList xs \<Rightarrow> xs \<noteq> [] | JObj d \<Rightarrow> d \<noteq> [])"

text \<open>\<open>j[0]\<close>.\<close>

definition jfirst :: "json \<Rightarrow> json res" where
  "jfirst j =
     (case j of
        JList [] \<Rightarrow> Inl (IndexError ''list index out of range'')
      | JList (x # _) \<Rightarrow> Inr x
      | JStr [] \<Rightarrow> Inl (IndexError ''string index out of range'')
      | JStr (c # _) \<Rightarrow> Inr (JStr [c])
      | JObj _ \<Rightarrow> Inl (KeyError ''0'')
      | _ \<Rightarrow> Inl (TypeError ''object is not subscriptable''))"

text \<open>Lists and dicts cannot be members of a set or keys of a dict.\<close>

definition jhashable :: "json \<Rightarrow> bool" where
  "jhashable j = (case j of JList _ \<Rightarrow> False | JObj _ \<Rightarrow> False | _ \<Rightarrow> True)"

text \<open>\<open>str(j)\<close>, which an f-string and \<open>str.format\<close> apply to what they interpolate.\<close>

definition int_str :: "int \<Rightarrow> string" where
  "int_str i = (if i < 0 then CHR ''-'' # nat_str (nat (- i)) else nat_str (nat i))"

definition hex_digit :: "nat \<Rightarrow> char" where
  "hex_digit n = (if n < 10 then char_of (48 + n) else char_of (87 + n))"

definition repr_char :: "char \<Rightarrow> char \<Rightarrow> string" where
  "repr_char q c =
     (let n = (of_char c :: nat) in
      if c = CHR 0x5C then [CHR 0x5C, CHR 0x5C]
      else if c = q then [CHR 0x5C, q]
      else if n = 9 then [CHR 0x5C, CHR ''t'']
      else if n = 10 then [CHR 0x5C, CHR ''n'']
      else if n = 13 then [CHR 0x5C, CHR ''r'']
      else if n < 32 \<or> n = 127
        then [CHR 0x5C, CHR ''x'', hex_digit (n div 16), hex_digit (n mod 16)]
      else [c])"

definition repr_str :: "string \<Rightarrow> string" where
  "repr_str s =
     (let q = (if CHR 0x27 \<in> set s \<and> CHR 0x22 \<notin> set s then CHR 0x22 else CHR 0x27)
      in [q] @ concat (map (repr_char q) s) @ [q])"

text \<open>\<open>sep.join(xs)\<close>.\<close>

fun str_join :: "string \<Rightarrow> string list \<Rightarrow> string" where
  "str_join sep [] = []"
| "str_join sep [x] = x"
| "str_join sep (x # y # ys) = x @ sep @ str_join sep (y # ys)"

fun py_repr :: "json \<Rightarrow> string" where
  "py_repr JNull = ''None''"
| "py_repr (JBool b) = (if b then ''True'' else ''False'')"
| "py_repr (JInt i) = int_str i"
| "py_repr (JStr s) = repr_str s"
| "py_repr (JList xs) = ''['' @ str_join '', '' (map py_repr xs) @ '']''"
| "py_repr (JObj d) =
     ''{'' @ str_join '', '' (map (\<lambda>(k, v). repr_str k @ '': '' @ py_repr v) d) @ ''}''"

definition py_str :: "json \<Rightarrow> string" where
  "py_str j = (case j of JStr s \<Rightarrow> s | _ \<Rightarrow> py_repr j)"

section \<open>Facts about the operations\<close>

lemma jget_JObj [simp]:
  "jget (JObj d) k = (case dict_get d k of None \<Rightarrow> Inl (KeyError k) | Some v \<Rightarrow> Inr v)"
  by (simp add: jget_def)

lemma jget_InrD: "jget j k = Inr v \<Longrightarrow> \<exists>d. j = JObj d \<and> dict_get d k = Some v"
  by (auto simp: jget_def split: json.splits option.splits)

lemma jin_JObj [simp]: "jin k (JObj d) = Inr (k \<in> set (dict_keys d))"
  by (simp add: jin_def)

lemma jitems_Inr_iff [simp]: "jitems j = Inr d \<longleftrightarrow> j = JObj d"
  by (auto simp: jitems_def split: json.splits)

lemma jvalues_Inr_iff [simp]: "jvalues j = Inr vs \<longleftrightarrow> (\<exists>d. j = JObj d \<and> vs = map snd d)"
  by (auto simp: jvalues_def split: json.splits)

lemma jget_or_Inr_iff:
  "jget_or j k v0 = Inr v \<longleftrightarrow>
     (\<exists>d. j = JObj d \<and> v = (case dict_get d k of None \<Rightarrow> v0 | Some w \<Rightarrow> w))"
  by (auto simp: jget_or_def split: json.splits)

lemma py_str_JStr [simp]: "py_str (JStr s) = s"
  by (simp add: py_str_def)

lemma str_contains_append: "str_contains p (s @ p @ t)"
proof (induction s)
  case Nil
  have "starts_with p (p @ t)" by (induction p) auto
  then show ?case by (cases "p @ t") auto
next
  case (Cons c s)
  then show ?case by simp
qed

end
