(* ===== verification/ModelParser.thy ===== *)
theory ModelParser
  imports Json
begin

text \<open>
  The botocore model parser of \<open>scripts/parse_models.py\<close>, up to the parsed structure:
  the scalar type table, the reachability walk over the shapes, type resolution and
  \<open>BotocoreModelParser\<close>. A \<open>service-2.json\<close> document is a \<open>json\<close> value, so
  that every missing key and every object of the wrong class is a branch.
\<close>

section \<open>Type tables\<close>

definition scalar_type_map :: "(string, string) dict" where
  "scalar_type_map =
     [(''string'', ''str''), (''integer'', ''int''), (''long'', ''int''),
      (''boolean'', ''int''), (''blob'', ''str''), (''timestamp'', ''int'')]"

definition compound_types :: "string list" where
  "compound_types = [''structure'', ''list'', ''map'']"

definition botocore_scalar_to_pie :: "json \<Rightarrow> string \<Rightarrow> string res" where
  "botocore_scalar_to_pie botocore_type shape_name =
     (case botocore_type of
        JStr t \<Rightarrow>
          (if t \<in> set compound_types
           then Inl (TypeError (''compound type on shape '' @ shape_name))
           else case dict_get scalar_type_map t of
                  None \<Rightarrow> Inl (TypeError (''Unknown botocore type on shape '' @ shape_name))
                | Some p \<Rightarrow> Inr p)
      | _ \<Rightarrow> Inl (TypeError (''Unknown botocore type on shape '' @ shape_name)))"

section \<open>Reachability\<close>

text \<open>A shape reference used as a key: lists and dicts are unhashable, and no other object than
  a string is a key of the shapes.\<close>

definition shape_key :: "json \<Rightarrow> string res" where
  "shape_key j =
     (case j of
        JStr n \<Rightarrow> Inr n
      | _ \<Rightarrow> if jhashable j then Inl (RuntimeError ''Shape referenced but not defined'')
            else Inl (TypeError ''unhashable type''))"

definition lookup_shape :: "json \<Rightarrow> string \<Rightarrow> json res" where
  "lookup_shape shapes n =
     (case shapes of
        JObj d \<Rightarrow> (case dict_get d n of
            None \<Rightarrow> Inl (RuntimeError (''Shape referenced but not defined: '' @ n))
          | Some s \<Rightarrow> Inr s)
      | _ \<Rightarrow> Inl (TypeError ''shapes is not a dict''))"

text \<open>The references of a shape in the order \<open>_walk\<close> follows them. Each is evaluated when
  the walk gets there, so the list holds the outcomes, failures included.\<close>

definition shape_refs :: "json \<Rightarrow> json res list" where
  "shape_refs shape =
     (case jget shape ''type'' of
        Inl e \<Rightarrow> [Inl e]
      | Inr t \<Rightarrow>
          if t = JStr ''structure'' then
            (case bindR (jget_or shape ''members'' (JObj [])) jvalues of
               Inl e \<Rightarrow> [Inl e]
             | Inr ms \<Rightarrow> map (\<lambda>m. jget m ''shape'') ms)
          else if t = JStr ''list'' then [bindR (jget shape ''member'') (\<lambda>m. jget m ''shape'')]
          else if t = JStr ''map'' then
            [bindR (jget shape ''key'') (\<lambda>m. jget m ''shape''),
             bindR (jget shape ''value'') (\<lambda>m. jget m ''shape'')]
          else [])"

definition shape_names :: "json \<Rightarrow> string set" where
  "shape_names shapes = (case shapes of JObj d \<Rightarrow> set (dict_keys d) | _ \<Rightarrow> {})"

lemma finite_shape_names [simp]: "finite (shape_names shapes)"
  by (auto simp: shape_names_def split: json.splits)

lemma lookup_shape_names: "lookup_shape shapes n = Inr s \<Longrightarrow> n \<in> shape_names shapes"
  by (auto simp: lookup_shape_def shape_names_def split: json.splits option.splits
      dest!: map_of_SomeD intro: rev_image_eqI)

text \<open>\<open>_walk\<close>, run over the references still to follow: \<open>R\<close> is the set
  \<open>reachable\<close> the closure mutates, latest addition first.\<close>

function (sequential) walk_all :: "json \<Rightarrow> json res list \<Rightarrow> string list \<Rightarrow> string list res" where
  "walk_all shapes [] R = Inr R"
| "walk_all shapes (Inl e # rs) R = Inl e"
| "walk_all shapes (Inr j # rs) R =
     (case shape_key j of
        Inl e \<Rightarrow> Inl e
      | Inr n \<Rightarrow>
          if n \<in> set R then walk_all shapes rs R
          else
            (case lookup_shape shapes n of
               Inl e \<Rightarrow> Inl e
             | Inr shape \<Rightarrow>
                 (case walk_all shapes (shape_refs shape) (n # R) of
                    Inl e \<Rightarrow> Inl e
                  | Inr R' \<Rightarrow> walk_all shapes rs R')))"
  by pat_completeness auto

lemma walk_all_grows:
  "walk_all_dom (shapes, rs, R) \<Longrightarrow> walk_all shapes rs R = Inr R' \<Longrightarrow> set R \<subseteq> set R'"
proof (induction shapes rs R arbitrary: R' rule: walk_all.pinduct)
  case (3 shapes j rs R)
  show ?case
  proof (cases "shape_key j")
    case (Inr n)
    note key = Inr
    show ?thesis
    proof (cases "n \<in> set R")
      case True
      with "3.prems" key have "walk_all shapes rs R = Inr R'"
        by (simp add: walk_all.psimps(3) [OF "3.hyps"])
      with "3.IH"(1) key True show ?thesis by simp
    next
      case False
      with "3.prems" key obtain shape R1 where run: "lookup_shape shapes n = Inr shape"
        "walk_all shapes (shape_refs shape) (n # R) = Inr R1" "walk_all shapes rs R1 = Inr R'"
        by (auto simp: walk_all.psimps(3) [OF "3.hyps"] split: sum.splits)
      with "3.IH"(2,3) key False have "set (n # R) \<subseteq> set R1" "set R1 \<subseteq> set R'" by blast+
      then show ?thesis by auto
    qed
  qed (use "3.prems" in \<open>simp add: walk_all.psimps(3) [OF "3.hyps"]\<close>)
qed (simp_all add: walk_all.psimps)

termination walk_all
proof (relation "inv_image (finite_psubset <*lex*> less_than)
    (\<lambda>(shapes, rs, R). (shape_names shapes - set R, length rs))", goal_cases)
  case 1
  show ?case by auto
next
  case (2 shapes j rs R n)
  then show ?case by simp
next
  case (3 shapes j rs R n shape)
  then have "n \<in> shape_names shapes - set R" by (simp add: lookup_shape_names)
  then show ?case by (auto simp: finite_psubset_def)
next
  case (4 shapes j rs R n shape R')
  then have "set (n # R) \<subseteq> set R'" using walk_all_grows by blast
  moreover from 4 have "n \<in> shape_names shapes - set R" by (simp add: lookup_shape_names)
  ultimately have "n \<in> shape_names shapes - set R" "set (n # R) \<subseteq> set R'" by simp_all
  then show ?case by (auto simp: finite_psubset_def)
qed

text \<open>The roots an operation contributes, in the order of the loop.\<close>

definition op_roots :: "json \<Rightarrow> json res list" where
  "op_roots op =
     (case jin ''input'' op of
        Inl e \<Rightarrow> [Inl e]
      | Inr b \<Rightarrow> if b then [bindR (jget op ''input'') (\<lambda>i. jget i ''shape'')] else []) @
     (case jin ''output'' op of
        Inl e \<Rightarrow> [Inl e]
      | Inr b \<Rightarrow> if b then [bindR (jget op ''output'') (\<lambda>i. jget i ''shape'')] else []) @
     (case bindR (jget_or op ''errors'' (JList [])) jiter of
        Inl e \<Rightarrow> [Inl e]
      | Inr es \<Rightarrow> map (\<lambda>e. jget e ''shape'') es)"

definition collect_reachable_shapes :: "json \<Rightarrow> string list option \<Rightarrow> string list res" where
  "collect_reachable_shapes model operation_names =
     bindR (jget model ''operations'') (\<lambda>ops.
     bindR (jget model ''shapes'') (\<lambda>shapes.
     bindR (jitems ops) (\<lambda>items.
       (case operation_names of
          Some names \<Rightarrow>
            (if \<exists>n \<in> set names. n \<notin> set (dict_keys items)
             then Inl (SystemExit (ExitMessage ''unknown operation(s)''))
             else walk_all shapes
                    (concat (map (op_roots \<circ> snd) (filter (\<lambda>(k, v). k \<in> set names) items))) [])
        | None \<Rightarrow> walk_all shapes (concat (map (op_roots \<circ> snd) items)) []))))"

section \<open>Type resolution\<close>

definition resolve_pie_type :: "json \<Rightarrow> json \<Rightarrow> string res" where
  "resolve_pie_type shape_ref shapes =
     bindR (shape_key shape_ref) (\<lambda>shape_name.
     bindR (lookup_shape shapes shape_name) (\<lambda>shape.
     bindR (jget shape ''type'') (\<lambda>shape_type.
       if shape_type = JStr ''structure'' then Inr shape_name
       else if shape_type = JStr ''list'' then
         Inl (NotImplementedError (''Shape is a list: '' @ shape_name))
       else if shape_type = JStr ''map'' then
         Inl (NotImplementedError (''Shape is a map: '' @ shape_name))
       else botocore_scalar_to_pie shape_type shape_name)))"

section \<open>The parser\<close>

record pmember =
  pm_pie_type :: string
  pm_required :: bool
  pm_location :: json
  pm_location_name :: json

text \<open>\<open>PScalar t\<close> is \<open>{"pie_type": t}\<close>; \<open>PClass ms rs\<close> is the entry of a class with
  its \<open>members\<close> and \<open>required_members\<close>.\<close>

datatype pshape =
    PScalar string
  | PClass "(string, pmember) dict" "string list"

record poperation =
  po_name :: string
  po_http_method :: json
  po_http_uri :: json
  po_input_shape :: json
  po_output_shape :: json
  po_error_shapes :: "json list"

record parsed =
  p_service :: "(string, json) dict"
  p_operations :: "poperation list"
  p_shapes :: "(string, pshape) dict"

record model_parser =
  mp_model :: json
  mp_operation_names :: "string list option"
  mp_skip_unsupported :: bool

definition new_model_parser :: "json \<Rightarrow> string list option \<Rightarrow> bool \<Rightarrow> model_parser res" where
  "new_model_parser model operation_names skip =
     bindR (jget_or model ''metadata'' JNull) (\<lambda>metadata.
       if \<not> (case metadata of JObj _ \<Rightarrow> True | _ \<Rightarrow> False)
       then Inl (RuntimeError ''Model is missing metadata dict'')
       else bindR (jin ''operations'' model) (\<lambda>has_ops.
         if \<not> has_ops then Inl (RuntimeError ''Model is missing operations'')
         else bindR (jin ''shapes'' model) (\<lambda>has_shapes.
           if \<not> has_shapes then Inl (RuntimeError ''Model is missing shapes'')
           else Inr \<lparr>mp_model = model, mp_operation_names = operation_names,
                     mp_skip_unsupported = skip\<rparr>)))"

definition parse_service_metadata :: "json \<Rightarrow> (string, json) dict res" where
  "parse_service_metadata meta =
     bindR (jget_or meta ''endpointPrefix'' (JStr [])) (\<lambda>endpoint.
     bindR (jget_or meta ''protocol'' JNull) (\<lambda>proto.
     bindR (if jtruthy proto then Inr proto
            else bindR (jget_or meta ''protocols'' (JList [JNull])) (\<lambda>ps.
                 bindR (jfirst ps) (\<lambda>p. Inr (if jtruthy p then p else JStr [])))) (\<lambda>protocol.
     bindR (jget_or meta ''apiVersion'' (JStr [])) (\<lambda>api.
     bindR (jget_or meta ''signatureVersion'' (JStr ''v4'')) (\<lambda>sig.
     bindR (jitems meta) (\<lambda>d.
       Inr ([(''endpoint_prefix'', endpoint), (''protocol'', protocol),
             (''api_version'', api), (''signature_version'', sig)] @
            (case dict_get d ''serviceId'' of
               None \<Rightarrow> [] | Some v \<Rightarrow> [(''service_id'', v)]) @
            (case dict_get d ''globalEndpoint'' of
               None \<Rightarrow> [] | Some v \<Rightarrow> [(''global_endpoint'', v)]) @
            (case dict_get d ''signingName'' of
               None \<Rightarrow> [] | Some v \<Rightarrow> [(''signing_name'', v)]))))))))"

text \<open>One entry of \<open>_parse_operations\<close>.\<close>

definition shape_of_field :: "json \<Rightarrow> string \<Rightarrow> json res" where
  "shape_of_field op k =
     bindR (jin k op) (\<lambda>present.
       if present then bindR (jget op k) (\<lambda>i. jget i ''shape'') else Inr JNull)"

definition parse_operation :: "string \<Rightarrow> json \<Rightarrow> poperation res" where
  "parse_operation op_name op_def =
     bindR (jget_or op_def ''http'' (JObj [])) (\<lambda>http.
     bindR (jget_or http ''method'' (JStr ''POST'')) (\<lambda>method.
     bindR (jget_or http ''requestUri'' (JStr ''/'')) (\<lambda>uri.
     bindR (shape_of_field op_def ''input'') (\<lambda>inp.
     bindR (shape_of_field op_def ''output'') (\<lambda>out.
     bindR (jget_or op_def ''errors'' (JList [])) (\<lambda>errs.
     bindR (jiter errs) (\<lambda>es.
     bindR (mapR (\<lambda>e. jget e ''shape'') es) (\<lambda>error_shapes.
       Inr \<lparr>po_name = op_name, po_http_method = method, po_http_uri = uri,
            po_input_shape = inp, po_output_shape = out,
            po_error_shapes = error_shapes\<rparr>))))))))"

definition parse_operations :: "model_parser \<Rightarrow> poperation list res" where
  "parse_operations p =
     bindR (jget (mp_model p) ''operations'') (\<lambda>ops.
     bindR (jitems ops) (\<lambda>items.
       let selected =
         (case mp_operation_names p of
            None \<Rightarrow> items
          | Some names \<Rightarrow>
              if names = [] then items else filter (\<lambda>(k, v). k \<in> set names) items)
       in mapR (\<lambda>(k, v). parse_operation k v) (sort_key fst selected)))"

text \<open>The loop over the members of \<open>_parse_structure_shape\<close>.\<close>

fun parse_members ::
  "bool \<Rightarrow> json \<Rightarrow> string \<Rightarrow> json list \<Rightarrow> (string \<times> json) list \<Rightarrow> (string, pmember) dict \<Rightarrow>
   (string, pmember) dict res" where
  "parse_members skip shapes shape_name required [] out = Inr out"
| "parse_members skip shapes shape_name required ((field, info) # ms) out =
     bindR (jget info ''shape'') (\<lambda>member_shape.
       case resolve_pie_type member_shape shapes of
         Inl (NotImplementedError _) \<Rightarrow>
           (if skip then parse_members skip shapes shape_name required ms out
            else Inl (NotImplementedError
                   (''Member references unsupported shape: '' @ shape_name @ ''.'' @ field)))
       | Inl e \<Rightarrow> Inl e
       | Inr pie_type \<Rightarrow>
           bindR (jget_or info ''location'' (JStr ''body'')) (\<lambda>location.
           bindR (jget_or info ''locationName'' (JStr field)) (\<lambda>location_name.
             parse_members skip shapes shape_name required ms
               (dict_set field
                  \<lparr>pm_pie_type = pie_type, pm_required = (JStr field \<in> set required),
                   pm_location = location, pm_location_name = location_name\<rparr> out))))"

definition parse_structure_shape :: "bool \<Rightarrow> string \<Rightarrow> json \<Rightarrow> json \<Rightarrow> pshape res" where
  "parse_structure_shape skip shape_name shape shapes =
     bindR (jget_or shape ''required'' (JList [])) (\<lambda>req.
     bindR (jiter req) (\<lambda>required.
     if \<exists>r \<in> set required. \<not> jhashable r then Inl (TypeError ''unhashable type'')
     else
       bindR (jget_or shape ''members'' (JObj [])) (\<lambda>members.
       bindR (jitems members) (\<lambda>items.
       bindR (parse_members skip shapes shape_name required items []) (\<lambda>out.
         Inr (PClass out (sort (filter (\<lambda>f. JStr f \<in> set required) (dict_keys out)))))))))"

text \<open>The loop of \<open>_parse_shapes\<close> over \<open>sorted(reachable)\<close>.\<close>

fun parse_shape_list ::
  "bool \<Rightarrow> json \<Rightarrow> string list \<Rightarrow> (string, pshape) dict \<Rightarrow> (string, pshape) dict res" where
  "parse_shape_list skip shapes [] result = Inr result"
| "parse_shape_list skip shapes (n # ns) result =
     bindR (jget shapes n) (\<lambda>shape.
     bindR (jget shape ''type'') (\<lambda>shape_type.
       if shape_type = JStr ''structure'' then
         bindR (parse_structure_shape skip n shape shapes) (\<lambda>entry.
           parse_shape_list skip shapes ns (dict_set n entry result))
       else if shape_type = JStr ''list'' \<or> shape_type = JStr ''map'' then
         (if skip then parse_shape_list skip shapes ns result
          else Inl (NotImplementedError (''Shape has unsupported type: '' @ n)))
       else
         (case botocore_scalar_to_pie shape_type n of
            Inl e \<Rightarrow> if skip then parse_shape_list skip shapes ns result else Inl e
          | Inr pie \<Rightarrow> parse_shape_list skip shapes ns (dict_set n (PScalar pie) result))))"

definition parse_shapes :: "bool \<Rightarrow> string list \<Rightarrow> json \<Rightarrow> (string, pshape) dict res" where
  "parse_shapes skip reachable shapes = parse_shape_list skip shapes (sort reachable) []"

definition parse :: "model_parser \<Rightarrow> parsed res" where
  "parse p =
     bindR (jget (mp_model p) ''metadata'') (\<lambda>meta.
     bindR (jget (mp_model p) ''shapes'') (\<lambda>shapes.
     bindR (collect_reachable_shapes (mp_model p) (mp_operation_names p)) (\<lambda>reachable.
     bindR (parse_service_metadata meta) (\<lambda>service.
     bindR (parse_operations p) (\<lambda>operations.
     bindR (parse_shapes (mp_skip_unsupported p) reachable shapes) (\<lambda>shape_defs.
       Inr \<lparr>p_service = service, p_operations = operations, p_shapes = shape_defs\<rparr>))))))"

end
