(* ===== verification/ModelReach.thy ===== *)
theory ModelReach
  imports ModelParser
begin

text \<open>
  The reachability walk computes exactly the shapes the selected operations depend on, and it
  fails exactly when one of those is missing or malformed. The specification is a closure of a
  reference relation, stated without any order of traversal or visited set.
\<close>

section \<open>Specification\<close>

text \<open>\<open>reached shapes rs n\<close>: the shape \<open>n\<close> can be reached from the references \<open>rs\<close>.\<close>

inductive reached :: "json \<Rightarrow> json res list \<Rightarrow> string \<Rightarrow> bool" for shapes rs where
  reached_root: "Inr (JStr n) \<in> set rs \<Longrightarrow> reached shapes rs n"
| reached_step: "reached shapes rs n \<Longrightarrow> lookup_shape shapes n = Inr shape \<Longrightarrow>
    Inr (JStr m) \<in> set (shape_refs shape) \<Longrightarrow> reached shapes rs m"

inductive_cases reached_elim: "reached shapes rs n"

text \<open>A reference is good when it evaluates to the name of a defined shape.\<close>

definition good_ref :: "json \<Rightarrow> json res \<Rightarrow> bool" where
  "good_ref shapes r \<longleftrightarrow>
     (case r of
        Inr (JStr n) \<Rightarrow> (case lookup_shape shapes n of Inr _ \<Rightarrow> True | Inl _ \<Rightarrow> False)
      | _ \<Rightarrow> False)"

definition good_shape :: "json \<Rightarrow> string \<Rightarrow> bool" where
  "good_shape shapes n \<longleftrightarrow>
     (case lookup_shape shapes n of
        Inl _ \<Rightarrow> False
      | Inr shape \<Rightarrow> list_all (good_ref shapes) (shape_refs shape))"

text \<open>The successors of a shape.\<close>

definition succs :: "json \<Rightarrow> string \<Rightarrow> string set" where
  "succs shapes n =
     (case lookup_shape shapes n of
        Inl _ \<Rightarrow> {}
      | Inr shape \<Rightarrow> {m. Inr (JStr m) \<in> set (shape_refs shape)})"

definition roots :: "json res list \<Rightarrow> string set" where
  "roots rs = {m. Inr (JStr m) \<in> set rs}"

lemma shape_key_Inr_iff [simp]: "shape_key j = Inr n \<longleftrightarrow> j = JStr n"
  by (auto simp: shape_key_def split: json.splits)

lemma shape_key_JStr [simp]: "shape_key (JStr n) = Inr n"
  by simp

lemma roots_simps [simp]:
  "roots [] = {}" "roots (Inl e # rs) = roots rs"
  "roots (Inr (JStr n) # rs) = insert n (roots rs)"
  by (auto simp: roots_def)

lemma good_ref_iff: "good_ref shapes r \<longleftrightarrow> (\<exists>n s. r = Inr (JStr n) \<and> lookup_shape shapes n = Inr s)"
  by (auto simp: good_ref_def split: sum.splits json.splits) (metis sum.exhaust)

lemma succs_lookup: "lookup_shape shapes n = Inr shape \<Longrightarrow> succs shapes n = roots (shape_refs shape)"
  by (simp add: succs_def roots_def)

section \<open>Correctness of the walk\<close>

text \<open>What a successful walk from the visited set \<open>R\<close> to \<open>R'\<close> has established.\<close>

definition walk_post :: "json \<Rightarrow> json res list \<Rightarrow> string list \<Rightarrow> string list \<Rightarrow> bool" where
  "walk_post shapes rs R R' \<longleftrightarrow>
     set R \<subseteq> set R' \<and> (distinct R \<longrightarrow> distinct R') \<and> roots rs \<subseteq> set R' \<and>
     (\<forall>k \<in> set R'. \<exists>s. lookup_shape shapes k = Inr s) \<and>
     list_all (good_ref shapes) rs \<and>
     (\<forall>m \<in> set R' - set R. succs shapes m \<subseteq> set R' \<and> good_shape shapes m)"

lemma walk_post_new:
  assumes n: "n \<notin> set R" "lookup_shape shapes n = Inr shape"
    and inner: "walk_post shapes (shape_refs shape) (n # R) R1"
    and outer: "walk_post shapes rs R1 R'"
  shows "walk_post shapes (Inr (JStr n) # rs) R R'"
proof -
  have n_ok: "succs shapes n \<subseteq> set R'" "good_shape shapes n"
    using n inner outer by (auto simp: walk_post_def good_shape_def succs_lookup)
  have "succs shapes m \<subseteq> set R' \<and> good_shape shapes m" if "m \<in> set R' - set R" for m
    using that n_ok inner outer unfolding walk_post_def
    by (metis (no_types, lifting) Diff_iff set_ConsD subset_trans)
  with n inner outer show ?thesis
    by (auto simp: walk_post_def good_ref_iff)
qed

lemma walk_all_post:
  assumes "walk_all shapes rs R = Inr R'" and "\<forall>k \<in> set R. \<exists>s. lookup_shape shapes k = Inr s"
  shows "walk_post shapes rs R R'"
  using assms
proof (induction shapes rs R arbitrary: R' rule: walk_all.induct)
  case (3 shapes j rs R)
  then obtain n where j: "j = JStr n" by (auto split: sum.splits)
  show ?case
  proof (cases "n \<in> set R")
    case True
    with "3.prems" j have "walk_post shapes rs R R'"
      using "3.IH"(1) [of n R'] by simp
    with True "3.prems"(2) show ?thesis by (auto simp: j walk_post_def good_ref_iff)
  next
    case False
    with "3.prems"(1) j obtain shape R1 where run: "lookup_shape shapes n = Inr shape"
      "walk_all shapes (shape_refs shape) (n # R) = Inr R1" "walk_all shapes rs R1 = Inr R'"
      by (auto split: sum.splits)
    have inner: "walk_post shapes (shape_refs shape) (n # R) R1"
      using "3.IH"(2) [of n shape R1] run False j "3.prems"(2) by simp
    then have "walk_post shapes rs R1 R'"
      using "3.IH"(3) [of n shape R1 R'] run False j by (simp add: walk_post_def)
    with inner show ?thesis using walk_post_new [OF False run(1)] j by simp
  qed
qed (auto simp: walk_post_def)

text \<open>Nothing unreachable is added.\<close>

lemma reached_mono:
  "reached shapes rs n \<Longrightarrow> (\<And>m. m \<in> roots rs \<Longrightarrow> reached shapes rs' m) \<Longrightarrow> reached shapes rs' n"
  by (induction rule: reached.induct) (auto simp: roots_def intro: reached_step)

lemma walk_all_sound:
  "walk_all shapes rs R = Inr R' \<Longrightarrow> set R' \<subseteq> set R \<union> {n. reached shapes rs n}"
proof (induction shapes rs R arbitrary: R' rule: walk_all.induct)
  case (3 shapes j rs R)
  then obtain n where j: "j = JStr n" by (auto split: sum.splits)
  have tail: "reached shapes (Inr j # rs) m" if "reached shapes rs m" for m
    using that by (rule reached_mono) (auto simp: roots_def intro: reached_root)
  show ?case
  proof (cases "n \<in> set R")
    case True
    with "3.prems" j have "set R' \<subseteq> set R \<union> {m. reached shapes rs m}"
      using "3.IH"(1) [of n R'] by simp
    with tail show ?thesis by blast
  next
    case False
    with "3.prems" j obtain shape R1 where run: "lookup_shape shapes n = Inr shape"
      "walk_all shapes (shape_refs shape) (n # R) = Inr R1" "walk_all shapes rs R1 = Inr R'"
      by (auto split: sum.splits)
    have n: "reached shapes (Inr j # rs) n" by (simp add: j reached_root)
    have head: "reached shapes (Inr j # rs) m" if "reached shapes (shape_refs shape) m" for m
      using that by (rule reached_mono) (auto simp: roots_def intro: reached_step [OF n run(1)])
    have "set R1 \<subseteq> set (n # R) \<union> {m. reached shapes (shape_refs shape) m}"
      using "3.IH"(2) [of n shape R1] run False j by simp
    moreover have "set R' \<subseteq> set R1 \<union> {m. reached shapes rs m}"
      using "3.IH"(3) [of n shape R1 R'] run False j by simp
    ultimately show ?thesis using n head tail by auto
  qed
qed auto

text \<open>Good references all the way down make the walk succeed.\<close>

lemma walk_all_succeeds:
  assumes "list_all (good_ref shapes) rs"
    and "\<And>n. reached shapes rs n \<Longrightarrow> good_shape shapes n"
  shows "\<exists>R'. walk_all shapes rs R = Inr R'"
  using assms
proof (induction shapes rs R rule: walk_all.induct)
  case (3 shapes j rs R)
  from "3.prems"(1) obtain n shape where j: "j = JStr n" and look: "lookup_shape shapes n = Inr shape"
    by (auto simp: good_ref_iff)
  have rs: "list_all (good_ref shapes) rs" using "3.prems"(1) by simp
  have tail: "good_shape shapes m" if "reached shapes rs m" for m
    using that by (intro "3.prems"(2)) (erule reached_mono, auto simp: roots_def intro: reached_root)
  have n: "reached shapes (Inr j # rs) n" by (simp add: j reached_root)
  have refs: "list_all (good_ref shapes) (shape_refs shape)"
    using "3.prems"(2) [OF n] look by (simp add: good_shape_def)
  have head: "good_shape shapes m" if "reached shapes (shape_refs shape) m" for m
    using that by (intro "3.prems"(2))
      (erule reached_mono, auto simp: roots_def intro: reached_step [OF n look])
  show ?case
  proof (cases "n \<in> set R")
    case True
    with "3.IH"(1) [of n] rs tail show ?thesis by (simp add: j)
  next
    case False
    from "3.IH"(2) [of n shape] refs head False look obtain R1 where
      R1: "walk_all shapes (shape_refs shape) (n # R) = Inr R1" by (auto simp: j)
    with "3.IH"(3) [of n shape R1] rs tail False look show ?thesis by (simp add: j)
  qed
qed (auto simp: good_ref_iff)

lemma reached_closed:
  assumes "roots rs \<subseteq> A" and "\<And>m. m \<in> A \<Longrightarrow> succs shapes m \<subseteq> A"
  shows "reached shapes rs n \<Longrightarrow> n \<in> A"
proof (induction rule: reached.induct)
  case (reached_root n)
  then show ?case using assms(1) by (auto simp: roots_def)
next
  case (reached_step n shape m)
  then show ?case using assms(2) [of n] by (auto simp: succs_def)
qed

theorem walk_all_exact:
  assumes "walk_all shapes rs [] = Inr R"
  shows "set R = {n. reached shapes rs n}" and "distinct R"
    and "\<And>n. n \<in> set R \<Longrightarrow> good_shape shapes n" and "list_all (good_ref shapes) rs"
proof -
  have post: "walk_post shapes rs [] R" using walk_all_post [OF assms] by simp
  have "n \<in> set R" if "reached shapes rs n" for n
    using that by (rule reached_closed [rotated 2]) (use post in \<open>auto simp: walk_post_def\<close>)
  with walk_all_sound [OF assms] show "set R = {n. reached shapes rs n}" by auto
  show "distinct R" "list_all (good_ref shapes) rs"
    and "\<And>n. n \<in> set R \<Longrightarrow> good_shape shapes n"
    using post by (auto simp: walk_post_def)
qed

theorem walk_all_success_iff:
  "(\<exists>R. walk_all shapes rs [] = Inr R) \<longleftrightarrow>
     list_all (good_ref shapes) rs \<and> (\<forall>n. reached shapes rs n \<longrightarrow> good_shape shapes n)"
  using walk_all_exact walk_all_succeeds by blast

section \<open>The selected operations\<close>

text \<open>The references of the operations a call selects, in dictionary order.\<close>

definition selected_refs :: "(string, json) dict \<Rightarrow> string list option \<Rightarrow> json res list" where
  "selected_refs items names =
     concat (map (op_roots \<circ> snd)
       (case names of None \<Rightarrow> items | Some ns \<Rightarrow> filter (\<lambda>(k, v). k \<in> set ns) items))"

definition known_operations :: "(string, json) dict \<Rightarrow> string list option \<Rightarrow> bool" where
  "known_operations items names \<longleftrightarrow>
     (case names of None \<Rightarrow> True | Some ns \<Rightarrow> set ns \<subseteq> set (dict_keys items))"

lemma collect_reachable_shapes_eq:
  assumes "jget model ''operations'' = Inr (JObj items)" and "jget model ''shapes'' = Inr shapes"
  shows "collect_reachable_shapes model names =
    (if known_operations items names then walk_all shapes (selected_refs items names) []
     else Inl (SystemExit (ExitMessage ''unknown operation(s)'')))"
  using assms
  by (auto simp: collect_reachable_shapes_def known_operations_def selected_refs_def jitems_def
      split: option.splits)

lemma collect_reachable_shapes_InrD:
  assumes "collect_reachable_shapes model names = Inr R"
  obtains items shapes where "jget model ''operations'' = Inr (JObj items)"
    "jget model ''shapes'' = Inr shapes" "known_operations items names"
    "walk_all shapes (selected_refs items names) [] = Inr R"
proof -
  from assms obtain ops shapes items where a: "jget model ''operations'' = Inr ops"
    "jget model ''shapes'' = Inr shapes" "jitems ops = Inr items"
    unfolding collect_reachable_shapes_def by blast
  then have ops: "jget model ''operations'' = Inr (JObj items)" by simp
  from assms show thesis
    using that [OF ops a(2)]
    by (simp add: collect_reachable_shapes_eq [OF ops a(2)] split: if_splits)
qed

end
