(* ===== verification/ModelProps.thy ===== *)
theory ModelProps
  imports ModelReach
begin

text \<open>
  What the parser promises: exactness and totality of the reachability walk over a whole model,
  the keys of the parsed shapes, the absence of dangling class references, the required-member
  lists, the effect of \<open>--skip-unsupported\<close>, and the operation table.
\<close>

section \<open>A sample model\<close>

text \<open>The minimal model of \<open>tests/test_parse_models.py\<close>, with a recursive structure added:
  the input of the properties' instances.\<close>

definition ref_to :: "string \<Rightarrow> json" where
  "ref_to n = JObj [(''shape'', JStr n)]"

definition sample_shapes :: "(string, json) dict" where
  "sample_shapes =
     [(''EchoRequest'', JObj [(''type'', JStr ''structure''), (''required'', JList [JStr ''Message'']),
        (''members'', JObj [(''Message'', ref_to ''StringValue''), (''Count'', ref_to ''IntValue''),
                        (''Parent'', ref_to ''EchoRequest'')])]),
      (''EchoResponse'', JObj [(''type'', JStr ''structure''),
        (''members'', JObj [(''Echo'', ref_to ''StringValue'')])]),
      (''Unused'', JObj [(''type'', JStr ''string'')]),
      (''StringValue'', JObj [(''type'', JStr ''string'')]),
      (''IntValue'', JObj [(''type'', JStr ''integer'')])]"

definition sample_ops :: "(string, json) dict" where
  "sample_ops =
     [(''Echo'', JObj [(''http'', JObj [(''method'', JStr ''POST''), (''requestUri'', JStr ''/echo'')]),
        (''input'', ref_to ''EchoRequest''), (''output'', ref_to ''EchoResponse'')])]"

definition sample_model :: json where
  "sample_model =
     JObj [(''metadata'', JObj [(''endpointPrefix'', JStr ''myservice''), (''protocol'', JStr ''rest-json'')]),
       (''operations'', JObj sample_ops), (''shapes'', JObj sample_shapes)]"

lemma sample_get [simp]:
  "jget sample_model ''operations'' = Inr (JObj sample_ops)"
  "jget sample_model ''shapes'' = Inr (JObj sample_shapes)"
  by (simp_all add: sample_model_def)

lemma sample_collect:
  "collect_reachable_shapes sample_model None =
     Inr [''EchoResponse'', ''IntValue'', ''StringValue'', ''EchoRequest'']"
  by code_simp

section \<open>Reachability over a model\<close>

text \<open>C14: when the walk over the selected operations succeeds, the collected set is exactly the
  closure of the operations' input, output and error shapes under the references of structure,
  list and map shapes, with no shape twice: nothing reachable is missed, nothing unreachable is
  emitted, whatever cycles the shapes have.\<close>

theorem collect_reachable_exact:
  assumes "jget model ''operations'' = Inr (JObj items)" and "jget model ''shapes'' = Inr shapes"
    and "collect_reachable_shapes model names = Inr R"
  shows "set R = {n. reached shapes (selected_refs items names) n} \<and> distinct R"
proof -
  from assms have "walk_all shapes (selected_refs items names) [] = Inr R"
    by (simp add: collect_reachable_shapes_eq split: if_splits)
  from walk_all_exact(1,2) [OF this] show ?thesis by blast
qed

theorem collect_reachable_exact_witness:
  "{''EchoResponse'', ''IntValue'', ''StringValue'', ''EchoRequest''} =
     {n. reached (JObj sample_shapes) (selected_refs sample_ops None) n}"
  using collect_reachable_exact [OF sample_get sample_collect] by simp

text \<open>C15: the collection succeeds exactly when every requested operation exists and every
  reference that can be reached evaluates to the name of a defined shape; in particular the walk
  always terminates, also on recursive shapes.\<close>

theorem collect_reachable_success_iff:
  assumes "jget model ''operations'' = Inr (JObj items)" and "jget model ''shapes'' = Inr shapes"
  shows "(\<exists>R. collect_reachable_shapes model names = Inr R) \<longleftrightarrow>
    known_operations items names \<and> list_all (good_ref shapes) (selected_refs items names) \<and>
    (\<forall>n. reached shapes (selected_refs items names) n \<longrightarrow> good_shape shapes n)"
  using walk_all_success_iff [of shapes "selected_refs items names"]
  by (auto simp: collect_reachable_shapes_eq [OF assms])

lemma sample_root: "reached (JObj sample_shapes) (selected_refs sample_ops None) ''EchoRequest''"
proof (rule reached_root)
  show "Inr (JStr ''EchoRequest'') \<in> set (selected_refs sample_ops None)" by code_simp
qed

theorem collect_reachable_success_iff_witness:
  "list_all (good_ref (JObj sample_shapes)) (selected_refs sample_ops None) \<and>
     good_shape (JObj sample_shapes) ''EchoRequest''"
  using collect_reachable_success_iff [OF sample_get, of None] sample_collect sample_root by blast

section \<open>The shape table\<close>

definition scalar_name :: "json \<Rightarrow> string option" where
  "scalar_name t =
     (case t of
        JStr s \<Rightarrow> if s \<in> set compound_types then None else dict_get scalar_type_map s
      | _ \<Rightarrow> None)"

lemma botocore_scalar_iff [simp]:
  "botocore_scalar_to_pie t n = Inr p \<longleftrightarrow> scalar_name t = Some p"
  by (auto simp: botocore_scalar_to_pie_def scalar_name_def split: json.splits option.splits if_splits)

lemma scalar_name_prim: "scalar_name t = Some p \<Longrightarrow> p = ''str'' \<or> p = ''int''"
  by (auto simp: scalar_name_def scalar_type_map_def split: json.splits if_splits)

lemma botocore_scalar_InlD: "botocore_scalar_to_pie t n = Inl e \<Longrightarrow> \<exists>m. e = TypeError m"
  by (auto simp: botocore_scalar_to_pie_def split: json.splits option.splits if_splits)

text \<open>The shapes that have an entry in the output: structures and known scalars.\<close>

definition emittable :: "json \<Rightarrow> string \<Rightarrow> bool" where
  "emittable shapes n \<longleftrightarrow>
     (case bindR (jget shapes n) (\<lambda>s. jget s ''type'') of
        Inl _ \<Rightarrow> False
      | Inr t \<Rightarrow> t = JStr ''structure'' \<or> scalar_name t \<noteq> None)"

definition is_structure :: "json \<Rightarrow> string \<Rightarrow> bool" where
  "is_structure shapes n \<longleftrightarrow> bindR (jget shapes n) (\<lambda>s. jget s ''type'') = Inr (JStr ''structure'')"

lemma scalar_name_compound [simp]:
  "scalar_name (JStr ''structure'') = None" "scalar_name (JStr ''list'') = None"
  "scalar_name (JStr ''map'') = None"
  by (simp_all add: scalar_name_def compound_types_def)

text \<open>One round of the loop of \<open>_parse_shapes\<close>, by cases.\<close>

lemma parse_shape_list_Cons:
  assumes "parse_shape_list skip shapes (n # ns) D = Inr D'"
  obtains (strct) shape entry where "jget shapes n = Inr shape"
      "is_structure shapes n" "emittable shapes n"
      "parse_structure_shape skip n shape shapes = Inr entry"
      "parse_shape_list skip shapes ns (dict_set n entry D) = Inr D'"
    | (scalar) t p where "bindR (jget shapes n) (\<lambda>s. jget s ''type'') = Inr t" "scalar_name t = Some p"
      "\<not> is_structure shapes n" "emittable shapes n"
      "parse_shape_list skip shapes ns (dict_set n (PScalar p) D) = Inr D'"
    | (skipped) "skip" "\<not> emittable shapes n" "\<not> is_structure shapes n"
      "parse_shape_list skip shapes ns D = Inr D'"
proof -
  from assms obtain shape t where st: "jget shapes n = Inr shape" "jget shape ''type'' = Inr t"
    by auto
  show thesis
  proof (cases "t = JStr ''structure''")
    case True
    with assms st show thesis
      by (auto simp: is_structure_def emittable_def intro: strct)
  next
    case ns: False
    then have not_struct: "\<not> is_structure shapes n" by (simp add: is_structure_def st)
    show thesis
    proof (cases "scalar_name t")
      case None
      then have "\<And>p. botocore_scalar_to_pie t n \<noteq> Inr p" by simp
      then obtain e where "botocore_scalar_to_pie t n = Inl e" by (cases "botocore_scalar_to_pie t n") auto
      with assms st ns None have "skip" "parse_shape_list skip shapes ns D = Inr D'"
        by (auto split: if_splits)
      moreover from None ns have "\<not> emittable shapes n" by (simp add: emittable_def st)
      ultimately show thesis using not_struct by (intro skipped)
    next
      case (Some p)
      then have "botocore_scalar_to_pie t n = Inr p" "t \<noteq> JStr ''list''" "t \<noteq> JStr ''map''" by auto
      with assms st ns have "parse_shape_list skip shapes ns (dict_set n (PScalar p) D) = Inr D'"
        by simp
      then show thesis using Some st not_struct by (intro scalar) (auto simp: emittable_def)
    qed
  qed
qed

lemma parse_shape_list_keys:
  assumes "parse_shape_list skip shapes ns D = Inr D'" and "distinct ns"
    and "set ns \<inter> set (dict_keys D) = {}"
  shows "dict_keys D' = dict_keys D @ filter (emittable shapes) ns
    \<and> (\<not> skip \<longrightarrow> list_all (emittable shapes) ns)"
  using assms
proof (induction ns arbitrary: D)
  case (Cons n ns)
  from Cons.prems(1) show ?case
  proof (cases rule: parse_shape_list_Cons)
    case (strct shape entry)
    with Cons.prems(2,3) Cons.IH [OF strct(5)] show ?thesis
      by (auto simp: dict_keys_set image_iff)
  next
    case (scalar t p)
    with Cons.prems(2,3) Cons.IH [OF scalar(5)] show ?thesis
      by (auto simp: dict_keys_set image_iff)
  next
    case skipped
    with Cons.prems(2,3) Cons.IH [OF skipped(4)] show ?thesis by auto
  qed
qed simp

lemma shape_table_keys:
  assumes "parse_shapes skip R shapes = Inr D" and "distinct R"
  shows "dict_keys D = filter (emittable shapes) (sort R)
    \<and> (\<not> skip \<longrightarrow> set (dict_keys D) = set R)"
  using parse_shape_list_keys [of skip shapes "sort R" "[]" D] assms
  by (auto simp: parse_shapes_def list_all_iff)

text \<open>C17: the parsed shape table has one entry for each reachable structure and known scalar, in
  sorted order; without \<open>--skip-unsupported\<close> every reachable shape is one of those, so a
  successful parse drops nothing.\<close>

theorem parse_shapes_keys:
  assumes "parse_shapes skip R shapes = Inr D" and "distinct R"
  shows "dict_keys D = filter (emittable shapes) (sort R)
    \<and> (\<not> skip \<longrightarrow> set (dict_keys D) = set R)"
  using assms by (rule shape_table_keys)

theorem parse_shapes_keys_witness:
  "\<exists>D. parse_shapes False [''IntValue'', ''EchoResponse'', ''StringValue''] (JObj sample_shapes) = Inr D
     \<and> set (dict_keys D) = {''IntValue'', ''EchoResponse'', ''StringValue''}"
proof -
  have "succeeds (parse_shapes False [''IntValue'', ''EchoResponse'', ''StringValue''] (JObj sample_shapes))"
    by code_simp
  then obtain D where
    D: "parse_shapes False [''IntValue'', ''EchoResponse'', ''StringValue''] (JObj sample_shapes) = Inr D"
    by (auto simp: succeeds_iff)
  have "distinct [''IntValue'', ''EchoResponse'', ''StringValue'']" by simp
  from parse_shapes_keys [OF D this] D show ?thesis by auto
qed

text \<open>The entry of a shape, whichever order the loop met it in.\<close>

definition entry_ok :: "bool \<Rightarrow> json \<Rightarrow> string \<Rightarrow> pshape option \<Rightarrow> bool" where
  "entry_ok skip shapes n e \<longleftrightarrow>
     (if is_structure shapes n
      then \<exists>shape entry. jget shapes n = Inr shape \<and> e = Some entry
             \<and> parse_structure_shape skip n shape shapes = Inr entry
      else e = None \<or> e = Some (PScalar ''str'') \<or> e = Some (PScalar ''int''))"

lemma parse_shape_list_get:
  assumes "parse_shape_list skip shapes ns D = Inr D'" and "distinct ns"
  shows "(n \<notin> set ns \<longrightarrow> dict_get D' n = dict_get D n)
    \<and> (n \<in> set ns \<longrightarrow> dict_get D n = None \<longrightarrow> entry_ok skip shapes n (dict_get D' n))"
  using assms
proof (induction ns arbitrary: D)
  case (Cons k ns)
  then have k: "k \<notin> set ns" "distinct ns" by simp_all
  from Cons.prems(1) show ?case
  proof (cases rule: parse_shape_list_Cons)
    case (strct shape entry)
    then show ?thesis using Cons.IH [OF strct(5) k(2)] k
      by (cases "n = k") (auto simp: entry_ok_def)
  next
    case (scalar t p)
    then show ?thesis using Cons.IH [OF scalar(5) k(2)] k scalar_name_prim [OF scalar(2)]
      by (cases "n = k") (auto simp: entry_ok_def)
  next
    case skipped
    then show ?thesis using Cons.IH [OF skipped(4) k(2)] k
      by (cases "n = k") (auto simp: entry_ok_def)
  qed
qed simp

section \<open>Members of a structure\<close>

text \<open>The entries of the member table: the type comes from \<open>_resolve_pie_type\<close>, and the flag
  says whether the member is in the required list.\<close>

definition member_ok :: "json \<Rightarrow> json list \<Rightarrow> (string \<times> json) list \<Rightarrow> string \<Rightarrow> pmember \<Rightarrow> bool" where
  "member_ok shapes required items f m \<longleftrightarrow>
     (\<exists>info r. (f, info) \<in> set items \<and> jget info ''shape'' = Inr r \<and>
        resolve_pie_type r shapes = Inr (pm_pie_type m)) \<and>
     pm_required m = (JStr f \<in> set required)"

lemma parse_members_ok:
  assumes "parse_members skip shapes sn required items out = Inr out'"
    and "\<forall>(f, m) \<in> set out. member_ok shapes required all f m" and "set items \<subseteq> set all"
    and "distinct (dict_keys out)"
  shows "(\<forall>(f, m) \<in> set out'. member_ok shapes required all f m) \<and> distinct (dict_keys out')"
  using assms
proof (induction skip shapes sn required items out rule: parse_members.induct)
  case (2 skip shapes sn required field info ms out)
  from "2.prems"(1) obtain r where r: "jget info ''shape'' = Inr r" by auto
  show ?case
  proof (cases "resolve_pie_type r shapes")
    case (Inl e)
    with "2.prems" r have "skip" "parse_members skip shapes sn required ms out = Inr out'"
      by (cases e; simp split: if_splits)+
    with "2.IH" "2.prems" r Inl show ?thesis by (cases e) auto
  next
    case (Inr t)
    with "2.prems"(1) r obtain loc ln where
      loc: "jget_or info ''location'' (JStr ''body'') = Inr loc"
        "jget_or info ''locationName'' (JStr field) = Inr ln"
      and run: "parse_members skip shapes sn required ms
        (dict_set field \<lparr>pm_pie_type = t, pm_required = (JStr field \<in> set required),
           pm_location = loc, pm_location_name = ln\<rparr> out) = Inr out'"
      by auto
    let ?m = "\<lparr>pm_pie_type = t, pm_required = (JStr field \<in> set required),
           pm_location = loc, pm_location_name = ln\<rparr>"
    have "member_ok shapes required all field ?m"
      using "2.prems"(3) r Inr by (auto simp: member_ok_def)
    with "2.prems"(2) have "\<forall>(f, m) \<in> set (dict_set field ?m out). member_ok shapes required all f m"
      by (auto dest: set_dict_set)
    with "2.IH"(2) [OF r Inr loc run] "2.prems" show ?thesis by simp
  qed
qed simp

lemma parse_structure_shape_Inr:
  assumes "parse_structure_shape skip n shape shapes = Inr entry"
  obtains required items ms where
    "bindR (jget_or shape ''required'' (JList [])) jiter = Inr required"
    "bindR (jget_or shape ''members'' (JObj [])) jitems = Inr items"
    "entry = PClass ms (sort (filter (\<lambda>f. JStr f \<in> set required) (dict_keys ms)))"
    "\<forall>(f, m) \<in> set ms. member_ok shapes required items f m" "distinct (dict_keys ms)"
proof -
  from assms obtain req required mem items ms where a:
    "jget_or shape ''required'' (JList []) = Inr req" "jiter req = Inr required"
    "jget_or shape ''members'' (JObj []) = Inr mem" "jitems mem = Inr items"
    "parse_members skip shapes n required items [] = Inr ms"
    "entry = PClass ms (sort (filter (\<lambda>f. JStr f \<in> set required) (dict_keys ms)))"
    unfolding parse_structure_shape_def by (auto split: if_splits)
  have "(\<forall>(f, m) \<in> set ms. member_ok shapes required items f m) \<and> distinct (dict_keys ms)"
    using parse_members_ok [OF a(5), of items] by simp
  with a that show thesis by simp
qed

text \<open>What a successful parse is made of.\<close>

lemma parse_Inr:
  assumes "parse p = Inr res"
  obtains shapes R where "jget (mp_model p) ''shapes'' = Inr shapes"
    "collect_reachable_shapes (mp_model p) (mp_operation_names p) = Inr R"
    "parse_operations p = Inr (p_operations res)"
    "parse_shapes (mp_skip_unsupported p) R shapes = Inr (p_shapes res)"
    "distinct R" "\<And>n. n \<in> set R \<Longrightarrow> good_shape shapes n \<and> succs shapes n \<subseteq> set R"
proof -
  from assms obtain shapes R where a: "jget (mp_model p) ''shapes'' = Inr shapes"
    "collect_reachable_shapes (mp_model p) (mp_operation_names p) = Inr R"
    "parse_operations p = Inr (p_operations res)"
    "parse_shapes (mp_skip_unsupported p) R shapes = Inr (p_shapes res)"
    unfolding parse_def by auto
  from a(2) obtain items where w: "walk_all shapes (selected_refs items (mp_operation_names p)) [] = Inr R"
    by (rule collect_reachable_shapes_InrD) (use a(1) in auto)
  have "succs shapes n \<subseteq> set R" if "n \<in> set R" for n
    using walk_all_post [OF w] that by (auto simp: walk_post_def)
  with a walk_all_exact(2,3) [OF w] that show thesis by blast
qed

text \<open>A reachable structure has a class entry, and any other entry is a primitive scalar.\<close>

lemma parse_entry:
  assumes "parse_shapes skip R shapes = Inr D" and "distinct R" and "n \<in> set R"
  shows "entry_ok skip shapes n (dict_get D n)"
  using parse_shape_list_get [of skip shapes "sort R" "[]" D n] assms
  by (simp add: parse_shapes_def)

text \<open>Where a class entry of a successful parse comes from.\<close>

lemma parse_class_entry:
  assumes "parse p = Inr res" and "dict_get (p_shapes res) C = Some (PClass ms req)"
  obtains shapes R shape where "jget (mp_model p) ''shapes'' = Inr shapes"
    "parse_shapes (mp_skip_unsupported p) R shapes = Inr (p_shapes res)"
    "distinct R" "\<And>n. n \<in> set R \<Longrightarrow> good_shape shapes n \<and> succs shapes n \<subseteq> set R"
    "C \<in> set R" "is_structure shapes C" "jget shapes C = Inr shape"
    "parse_structure_shape (mp_skip_unsupported p) C shape shapes = Inr (PClass ms req)"
proof -
  from assms(1) obtain shapes R where a: "jget (mp_model p) ''shapes'' = Inr shapes"
    "parse_shapes (mp_skip_unsupported p) R shapes = Inr (p_shapes res)" "distinct R"
    "\<And>n. n \<in> set R \<Longrightarrow> good_shape shapes n \<and> succs shapes n \<subseteq> set R"
    by (rule parse_Inr) blast
  have "C \<in> set (dict_keys (p_shapes res))" using assms(2) by (metis dict_get_None option.distinct(1))
  then have C: "C \<in> set R" using shape_table_keys [OF a(2,3)] by simp
  have "entry_ok (mp_skip_unsupported p) shapes C (Some (PClass ms req))"
    using parse_entry [OF a(2,3) C] assms(2) by simp
  then obtain shape where "is_structure shapes C" "jget shapes C = Inr shape"
    "parse_structure_shape (mp_skip_unsupported p) C shape shapes = Inr (PClass ms req)"
    by (auto simp: entry_ok_def split: if_splits)
  with a C that show thesis by blast
qed

lemma structure_refs:
  assumes "is_structure shapes C" and "jget shapes C = Inr shape"
    and "bindR (jget_or shape ''members'' (JObj [])) jitems = Inr items"
  shows "shape_refs shape = map (\<lambda>m. jget m ''shape'') (map snd items)"
proof -
  from assms(1,2) have "jget shape ''type'' = Inr (JStr ''structure'')" by (simp add: is_structure_def)
  moreover from assms(3) have "bindR (jget_or shape ''members'' (JObj [])) jvalues = Inr (map snd items)"
    by (auto simp: bindR_Inr_iff)
  ultimately show ?thesis by (simp add: shape_refs_def)
qed

lemma class_member_type:
  assumes "parse p = Inr res" and "dict_get (p_shapes res) C = Some (PClass ms req)"
    and "(f, m) \<in> set ms"
  shows "pm_pie_type m \<in> {''str'', ''int''}
    \<or> (\<exists>ms' req'. dict_get (p_shapes res) (pm_pie_type m) = Some (PClass ms' req'))"
proof -
  from assms(1,2) obtain shapes R shape where a:
    "parse_shapes (mp_skip_unsupported p) R shapes = Inr (p_shapes res)" "distinct R"
    "\<And>n. n \<in> set R \<Longrightarrow> good_shape shapes n \<and> succs shapes n \<subseteq> set R"
    "C \<in> set R" "is_structure shapes C" "jget shapes C = Inr shape"
    "parse_structure_shape (mp_skip_unsupported p) C shape shapes = Inr (PClass ms req)"
    by (rule parse_class_entry) blast
  from a(7) obtain required items where items:
    "bindR (jget_or shape ''members'' (JObj [])) jitems = Inr items"
    "\<forall>(f, m) \<in> set ms. member_ok shapes required items f m"
    by (rule parse_structure_shape_Inr) auto
  from items(2) assms(3) obtain info r where r: "(f, info) \<in> set items"
    "jget info ''shape'' = Inr r" "resolve_pie_type r shapes = Inr (pm_pie_type m)"
    by (auto simp: member_ok_def)
  from r(3) obtain k shape' t where k: "r = JStr k" "lookup_shape shapes k = Inr shape'"
    "jget shape' ''type'' = Inr t"
    unfolding resolve_pie_type_def by auto
  from a(6) have look: "lookup_shape shapes C = Inr shape"
    by (auto simp: lookup_shape_def dest!: jget_InrD)
  have "shape_refs shape = map (\<lambda>m. jget m ''shape'') (map snd items)"
    using a(5,6) items(1) by (rule structure_refs)
  then have refs: "Inr (JStr k) \<in> set (shape_refs shape)"
    using r(1,2) k(1) by (force intro!: rev_image_eqI [of "(f, info)"])
  then have kR: "k \<in> set R" using a(3) [OF a(4)] look by (auto simp: succs_def)
  show ?thesis
  proof (cases "t = JStr ''structure''")
    case True
    with k have "is_structure shapes k"
      by (auto simp: is_structure_def lookup_shape_def split: json.splits option.splits)
    then obtain shape2 entry where e: "dict_get (p_shapes res) k = Some entry"
      "parse_structure_shape (mp_skip_unsupported p) k shape2 shapes = Inr entry"
      using parse_entry [OF a(1,2) kR] by (auto simp: entry_ok_def)
    from e(2) have "\<exists>ms' req'. entry = PClass ms' req'" by (rule parse_structure_shape_Inr) blast
    moreover have "pm_pie_type m = k" using r(3) k True by (simp add: resolve_pie_type_def)
    ultimately show ?thesis using e(1) by auto
  next
    case False
    with r(3) k have "scalar_name t = Some (pm_pie_type m)"
      by (auto simp: resolve_pie_type_def split: if_splits)
    then show ?thesis using scalar_name_prim by auto
  qed
qed

text \<open>C16: the member list of every parsed class is self-contained: a member's type is one of the
  two primitive types, or the name of a class that has its own entry in the output. The
  generated source therefore never names a class that is not generated, with or without
  \<open>--skip-unsupported\<close>.\<close>

theorem parse_no_dangling_class:
  assumes "parse p = Inr res" and "dict_get (p_shapes res) C = Some (PClass ms req)"
    and "(f, m) \<in> set ms"
  shows "pm_pie_type m \<in> {''str'', ''int''}
    \<or> (\<exists>ms' req'. dict_get (p_shapes res) (pm_pie_type m) = Some (PClass ms' req'))"
  using assms by (rule class_member_type)

definition sample_parser :: model_parser where
  "sample_parser = \<lparr>mp_model = sample_model, mp_operation_names = None, mp_skip_unsupported = False\<rparr>"

definition sample_request_members :: "(string, pmember) dict" where
  "sample_request_members =
     [(''Message'', \<lparr>pm_pie_type = ''str'', pm_required = True, pm_location = JStr ''body'',
                    pm_location_name = JStr ''Message''\<rparr>),
      (''Count'', \<lparr>pm_pie_type = ''int'', pm_required = False, pm_location = JStr ''body'',
                  pm_location_name = JStr ''Count''\<rparr>),
      (''Parent'', \<lparr>pm_pie_type = ''EchoRequest'', pm_required = False, pm_location = JStr ''body'',
                   pm_location_name = JStr ''Parent''\<rparr>)]"

lemma sample_parse:
  obtains res where "parse sample_parser = Inr res"
    "dict_get (p_shapes res) ''EchoRequest'' = Some (PClass sample_request_members [''Message''])"
proof -
  have "(case parse sample_parser of Inl _ \<Rightarrow> False
     | Inr res \<Rightarrow> dict_get (p_shapes res) ''EchoRequest'' =
         Some (PClass sample_request_members [''Message'']))"
    by code_simp
  then show thesis using that by (auto split: sum.splits)
qed

theorem parse_no_dangling_class_witness:
  "\<exists>res ms' req'. parse sample_parser = Inr res \<and>
     dict_get (p_shapes res) ''EchoRequest'' = Some (PClass ms' req')"
proof -
  obtain res where res: "parse sample_parser = Inr res"
    "dict_get (p_shapes res) ''EchoRequest'' = Some (PClass sample_request_members [''Message''])"
    by (rule sample_parse)
  have "(''Parent'', \<lparr>pm_pie_type = ''EchoRequest'', pm_required = False, pm_location = JStr ''body'',
      pm_location_name = JStr ''Parent''\<rparr>) \<in> set sample_request_members"
    by (simp add: sample_request_members_def)
  from parse_no_dangling_class [OF res this] res(1) show ?thesis by auto
qed

text \<open>The required-member list of a parsed class is the sorted, duplicate-free list of exactly
  the members whose flag is set, so a required name without an emitted member (one skipped as
  unsupported) is dropped from it.\<close>

theorem parse_required_members:
  assumes "parse p = Inr res" and "dict_get (p_shapes res) C = Some (PClass ms req)"
  shows "sorted req \<and> distinct req \<and> set req = {f. \<exists>m. (f, m) \<in> set ms \<and> pm_required m}"
proof -
  from assms obtain shapes shape where
    "parse_structure_shape (mp_skip_unsupported p) C shape shapes = Inr (PClass ms req)"
    by (rule parse_class_entry) blast
  then obtain required items where
    "req = sort (filter (\<lambda>f. JStr f \<in> set required) (dict_keys ms))"
    "\<forall>(f, m) \<in> set ms. member_ok shapes required items f m" "distinct (dict_keys ms)"
    by (rule parse_structure_shape_Inr) auto
  then show ?thesis by (force simp: member_ok_def)
qed

theorem parse_required_members_witness:
  "{''Message''} = {f. \<exists>m. (f, m) \<in> set sample_request_members \<and> pm_required m}"
proof -
  obtain res where res: "parse sample_parser = Inr res"
    "dict_get (p_shapes res) ''EchoRequest'' = Some (PClass sample_request_members [''Message''])"
    by (rule sample_parse)
  from parse_required_members [OF res] show ?thesis by simp
qed

section \<open>Skipping unsupported shapes\<close>

text \<open>The computations that do not raise \<open>NotImplementedError\<close>.\<close>

definition implemented :: "'a res \<Rightarrow> bool" where
  "implemented r \<longleftrightarrow> (\<forall>m. r \<noteq> Inl (NotImplementedError m))"

lemma implemented_bindR [intro]:
  "implemented m \<Longrightarrow> (\<And>a. m = Inr a \<Longrightarrow> implemented (f a)) \<Longrightarrow> implemented (bindR m f)"
  by (cases m) (auto simp: implemented_def)

lemma implemented_Inr [simp]: "implemented (Inr a)"
  by (simp add: implemented_def)

lemma implemented_Inl [simp]:
  "implemented (Inl (TypeError m))" "implemented (Inl (SystemExit k))"
  "implemented (Inl (RuntimeError m))"
  by (simp_all add: implemented_def)

lemma implemented_if:
  "(P \<Longrightarrow> implemented a) \<Longrightarrow> (\<not> P \<Longrightarrow> implemented b) \<Longrightarrow> implemented (if P then a else b)"
  by simp

lemma implemented_Let: "implemented (f a) \<Longrightarrow> implemented (Let a f)"
  by simp

lemmas implemented_intros = implemented_bindR implemented_if implemented_Let

lemma implemented_accessors [simp]:
  "implemented (jget j k)" "implemented (jget_or j k v)" "implemented (jin k j)"
  "implemented (jitems j)" "implemented (jvalues j)" "implemented (jiter j)" "implemented (jfirst j)"
  "implemented (shape_key j)" "implemented (lookup_shape j k)"
  "implemented (botocore_scalar_to_pie j k)"
  by (auto simp: implemented_def jget_def jget_or_def jin_def jitems_def jvalues_def jiter_def
      jfirst_def shape_key_def lookup_shape_def botocore_scalar_to_pie_def
      split: json.splits option.splits list.splits)

lemma implemented_retype: "implemented (Inl e :: 'a res) \<Longrightarrow> implemented (Inl e :: 'b res)"
  by (auto simp: implemented_def)

lemma implemented_lazy:
  assumes "x \<in> set (case r of Inl e \<Rightarrow> [Inl e] | Inr b \<Rightarrow> g b)" and "implemented r"
    and "\<And>b. x \<in> set (g b) \<Longrightarrow> implemented x"
  shows "implemented x"
  using assms by (cases r) (auto intro: implemented_retype)

lemma implemented_op_roots: "r \<in> set (op_roots op) \<Longrightarrow> implemented r"
  unfolding op_roots_def set_append Un_iff
  by (elim disjE implemented_lazy) (auto intro!: implemented_bindR split: if_splits)

lemma implemented_shape_refs: "r \<in> set (shape_refs shape) \<Longrightarrow> implemented r"
  unfolding shape_refs_def
  by (erule implemented_lazy)
    (auto intro!: implemented_bindR split: if_splits elim!: implemented_lazy)

lemma implemented_walk:
  "(\<And>r. r \<in> set rs \<Longrightarrow> implemented r) \<Longrightarrow> implemented (walk_all shapes rs R)"
proof (induction shapes rs R rule: walk_all.induct)
  case (2 shapes e rs R)
  then show ?case using implemented_retype by auto
next
  case (3 shapes j rs R)
  have look: "implemented (lookup_shape shapes n)" "implemented (shape_key j)" for n by simp_all
  show ?case
    using "3.IH" "3.prems" look implemented_shape_refs
    by (auto split: sum.splits simp: implemented_def)
qed simp

lemma implemented_mapR:
  "(\<And>x. x \<in> set xs \<Longrightarrow> implemented (f x)) \<Longrightarrow> implemented (mapR f xs)"
  by (induction xs) (simp, force intro: implemented_bindR)

lemma implemented_concat_roots:
  "r \<in> set (concat (map (op_roots \<circ> snd) items)) \<Longrightarrow> implemented r"
  using implemented_op_roots by auto

lemma implemented_collect: "implemented (collect_reachable_shapes model names)"
  unfolding collect_reachable_shapes_def
  by (intro implemented_intros)
    (auto split: option.split intro!: implemented_walk implemented_if elim: implemented_concat_roots)

lemma implemented_parse_operations: "implemented (parse_operations p)"
  unfolding parse_operations_def parse_operation_def shape_of_field_def
  by (intro implemented_intros) (auto intro!: implemented_bindR implemented_mapR)

lemma implemented_service: "implemented (parse_service_metadata meta)"
  unfolding parse_service_metadata_def by (intro implemented_intros) simp_all

lemma implemented_members: "implemented (parse_members True shapes sn required items out)"
proof (induction items arbitrary: out)
  case (Cons fi items)
  obtain f info where fi: "fi = (f, info)" by force
  show ?case
  proof (cases "jget info ''shape''")
    case (Inl e)
    then show ?thesis using implemented_accessors(1) [of info "''shape''"]
      by (simp add: fi implemented_def)
  next
    case (Inr r)
    show ?thesis
    proof (cases "resolve_pie_type r shapes")
      case (Inl e)
      with Inr Cons.IH show ?thesis by (cases e) (simp_all add: fi implemented_def)
    next
      case (Inr t)
      with \<open>jget info ''shape'' = Inr r\<close> Cons.IH show ?thesis
        by (auto simp: fi intro!: implemented_bindR)
    qed
  qed
qed simp

lemma implemented_structure: "implemented (parse_structure_shape True n shape shapes)"
  unfolding parse_structure_shape_def
  by (intro implemented_intros) (simp_all add: implemented_members)

lemma implemented_shape_list: "implemented (parse_shape_list True shapes ns D)"
proof (induction ns arbitrary: D)
  case (Cons n ns)
  have "implemented (case botocore_scalar_to_pie t n of
       Inl e \<Rightarrow> if True then parse_shape_list True shapes ns D else Inl e
     | Inr pie \<Rightarrow> parse_shape_list True shapes ns (dict_set n (PScalar pie) D))" for t
    using Cons.IH by (simp split: sum.split)
  with Cons.IH show ?case
    unfolding parse_shape_list.simps
    by (intro implemented_intros) (simp_all add: implemented_structure)
qed simp

text \<open>C18: with \<open>--skip-unsupported\<close> no model makes the parser stop with
  \<open>NotImplementedError\<close>: every list and map shape, stand-alone or as a member, is passed
  over.\<close>

theorem skip_unsupported_skips:
  assumes "mp_skip_unsupported p"
  shows "parse p \<noteq> Inl (NotImplementedError m)"
proof -
  have "implemented (parse p)"
    unfolding parse_def parse_shapes_def using assms
    by (intro implemented_intros)
      (simp_all add: implemented_collect implemented_service implemented_parse_operations
        implemented_shape_list)
  then show ?thesis by (simp add: implemented_def)
qed

theorem skip_unsupported_skips_witness:
  "mp_skip_unsupported (sample_parser\<lparr>mp_skip_unsupported := True\<rparr>)
   \<and> parse (sample_parser\<lparr>mp_skip_unsupported := True\<rparr>) \<noteq> Inl (NotImplementedError ''x'')"
  using skip_unsupported_skips [of "sample_parser\<lparr>mp_skip_unsupported := True\<rparr>"] by simp

text \<open>C19: \<open>--skip-unsupported\<close> does not cover members whose type is an unknown scalar. A
  stand-alone shape of such a type (\<open>double\<close>, \<open>float\<close>) is skipped, but a
  structure with a member of it still raises \<open>TypeError\<close>, because the member loop only
  catches \<open>NotImplementedError\<close>.\<close>

theorem skip_unsupported_member_gap:
  assumes "jget shapes k = Inr shape" and "jget shape ''type'' = Inr t"
    and "t \<notin> {JStr ''structure'', JStr ''list'', JStr ''map''}" and "scalar_name t = None"
    and "jget info ''shape'' = Inr (JStr k)"
  shows "parse_shape_list True shapes [k] D = Inr D
    \<and> (\<exists>m. parse_members True shapes sn required ((f, info) # items) out = Inl (TypeError m))"
proof -
  have "\<And>p. botocore_scalar_to_pie t k \<noteq> Inr p" using assms(4) by simp
  then obtain m where m: "botocore_scalar_to_pie t k = Inl (TypeError m)"
    using botocore_scalar_InlD by (metis sum.exhaust)
  have "lookup_shape shapes k = Inr shape"
    using assms(1) by (auto simp: lookup_shape_def dest!: jget_InrD)
  with assms m have "resolve_pie_type (JStr k) shapes = Inl (TypeError m)"
    by (simp add: resolve_pie_type_def)
  with assms m show ?thesis by simp
qed

theorem skip_unsupported_member_gap_witness:
  "\<exists>m. parse_members True (JObj [(''D'', JObj [(''type'', JStr ''double'')])]) ''S'' []
     [(''x'', ref_to ''D'')] [] = Inl (TypeError m)"
proof -
  have a: "jget (JObj [(''D'', JObj [(''type'', JStr ''double'')])]) ''D'' =
      Inr (JObj [(''type'', JStr ''double'')])"
    "jget (JObj [(''type'', JStr ''double'')]) ''type'' = Inr (JStr ''double'')"
    "JStr ''double'' \<notin> {JStr ''structure'', JStr ''list'', JStr ''map''}"
    "jget (ref_to ''D'') ''shape'' = Inr (JStr ''D'')"
    by (simp_all add: ref_to_def)
  have "scalar_name (JStr ''double'') = None" by code_simp
  from skip_unsupported_member_gap [OF a(1-3) this a(4)] show ?thesis by blast
qed

section \<open>The operation table\<close>

definition selected_names :: "(string, json) dict \<Rightarrow> string list option \<Rightarrow> string list" where
  "selected_names items names =
     (case names of
        None \<Rightarrow> dict_keys items
      | Some ns \<Rightarrow> if ns = [] then dict_keys items
                   else filter (\<lambda>k. k \<in> set ns) (dict_keys items))"

lemma parse_operation_name: "parse_operation k v = Inr r \<Longrightarrow> po_name r = k"
  unfolding parse_operation_def by auto

lemma mapR_names:
  "mapR (\<lambda>(k, v). parse_operation k v) kvs = Inr rs \<Longrightarrow> map po_name rs = map fst kvs"
  by (induction kvs arbitrary: rs) (auto dest: parse_operation_name)

lemma filter_keys: "map fst (filter (\<lambda>(k, v). P k) d) = filter P (map fst d)"
  by (induction d) auto

lemma operation_names_sorted:
  assumes "parse_operations p = Inr rs" and "jget (mp_model p) ''operations'' = Inr (JObj items)"
  shows "map po_name rs = sort (selected_names items (mp_operation_names p))"
proof -
  from assms have "map po_name rs = map fst (sort_key fst
      (case mp_operation_names p of None \<Rightarrow> items
       | Some names \<Rightarrow> if names = [] then items else filter (\<lambda>(k, v). k \<in> set names) items))"
    by (auto simp: parse_operations_def Let_def jitems_def dest!: mapR_names)
  then show ?thesis
    by (simp add: map_sort_key selected_names_def filter_keys split: option.splits)
qed

text \<open>The operation table lists exactly the selected operations of the model, in sorted
  order.\<close>

theorem parse_operations_sorted:
  assumes "parse_operations p = Inr rs" and "jget (mp_model p) ''operations'' = Inr (JObj items)"
  shows "map po_name rs = sort (selected_names items (mp_operation_names p))"
  using assms by (rule operation_names_sorted)

theorem parse_operations_sorted_witness:
  "\<exists>rs. parse_operations sample_parser = Inr rs \<and> map po_name rs = [''Echo'']"
proof -
  have "succeeds (parse_operations sample_parser)" by code_simp
  then obtain rs where rs: "parse_operations sample_parser = Inr rs" by (auto simp: succeeds_iff)
  have "jget (mp_model sample_parser) ''operations'' = Inr (JObj sample_ops)"
    by (simp add: sample_parser_def)
  from parse_operations_sorted [OF rs this] rs show ?thesis
    by (simp add: sample_ops_def sample_parser_def selected_names_def)
qed

text \<open>C20: an empty operation list is read in two ways. The walk takes it as "no operation" and
  reaches nothing, the operation table takes it as "all operations": a successful parse then
  lists every operation while the shape table is empty.\<close>

theorem empty_operation_list_inconsistent:
  assumes "parse p = Inr res" and "mp_operation_names p = Some []"
    and "jget (mp_model p) ''operations'' = Inr (JObj items)"
  shows "p_shapes res = [] \<and> map po_name (p_operations res) = sort (dict_keys items)"
proof -
  from assms(1) obtain shapes R where a: "jget (mp_model p) ''shapes'' = Inr shapes"
    "collect_reachable_shapes (mp_model p) (mp_operation_names p) = Inr R"
    "parse_operations p = Inr (p_operations res)"
    "parse_shapes (mp_skip_unsupported p) R shapes = Inr (p_shapes res)" "distinct R"
    by (rule parse_Inr) blast
  have "R = []"
    using a(2) assms(2) by (simp add: collect_reachable_shapes_eq [OF assms(3) a(1)]
        selected_refs_def known_operations_def)
  with a(4) have "p_shapes res = []" by (simp add: parse_shapes_def)
  with operation_names_sorted [OF a(3) assms(3)] assms(2) show ?thesis
    by (simp add: selected_names_def)
qed

theorem empty_operation_list_inconsistent_witness:
  "\<exists>res. parse (sample_parser\<lparr>mp_operation_names := Some []\<rparr>) = Inr res \<and>
     p_shapes res = [] \<and> map po_name (p_operations res) = [''Echo'']"
proof -
  let ?p = "sample_parser\<lparr>mp_operation_names := Some []\<rparr>"
  have "succeeds (parse ?p)" by code_simp
  then obtain res where res: "parse ?p = Inr res" by (auto simp: succeeds_iff)
  have "jget (mp_model ?p) ''operations'' = Inr (JObj sample_ops)" by (simp add: sample_parser_def)
  from empty_operation_list_inconsistent [OF res _ this] res show ?thesis by (simp add: sample_ops_def)
qed

end
