(* ===== verification/PieGen.thy ===== *)
theory PieGen
  imports ModelProps
begin

text \<open>
  \<open>generate_pie\<close> of \<open>scripts/parse_models.py\<close>: the rendering of a parsed model as
  \<open>.pie\<close> source text, line by line as the code builds its \<open>lines\<close> list.
\<close>

section \<open>Text\<close>

definition nl :: string where
  "nl = [CHR 0x0A]"

definition is_space :: "char \<Rightarrow> bool" where
  "is_space c = (let n = (of_char c :: nat) in n = 32 \<or> (9 \<le> n \<and> n \<le> 13) \<or> (28 \<le> n \<and> n \<le> 31))"

definition rstrip :: "string \<Rightarrow> string" where
  "rstrip s = rev (dropWhile is_space (rev s))"

text \<open>\<open>_PIE_HEADER.format(...)\<close>; the em dash is its UTF-8 encoding.\<close>

definition pie_header :: "string \<Rightarrow> string \<Rightarrow> string \<Rightarrow> string \<Rightarrow> string \<Rightarrow> string" where
  "pie_header service_id protocol api_version service_name output_path =
     ''# Auto-generated by scripts/parse_models.py from botocore model.'' @ nl @
     ''# Service: '' @ service_id @ ''  Protocol: '' @ protocol @ ''  API version: '' @ api_version @ nl @
     ''# DO NOT EDIT BY HAND '' @ [CHR 0xE2, CHR 0x80, CHR 0x94] @ '' regenerate with:'' @ nl @
     ''#   python scripts/parse_models.py '' @ service_name @ '' --output '' @ output_path @ nl"

definition pie_stub_comment :: string where
  "pie_stub_comment =
     ''# --- Operation stubs ---'' @ nl @
     ''# These are placeholder function signatures.'' @ nl @
     ''# Actual HTTP dispatch will be implemented in .pie once SigV4 is ready.'' @ nl"

section \<open>Classes\<close>

text \<open>\<open>structure_shapes\<close>: the class entries, by name.\<close>

definition structure_shapes :: "(string, pshape) dict \<Rightarrow> (string \<times> (string, pmember) dict \<times> string list) list" where
  "structure_shapes shapes =
     List.map_filter (\<lambda>(n, d). case d of PScalar _ \<Rightarrow> None | PClass ms req \<Rightarrow> Some (n, ms, req))
       (sort_key fst shapes)"

text \<open>\<open>req_fields + opt_fields\<close>.\<close>

definition class_fields :: "(string, pmember) dict \<Rightarrow> string list \<Rightarrow> (string \<times> pmember) list" where
  "class_fields ms req =
     sort_key fst (filter (\<lambda>(n, m). n \<in> set req) ms) @
     sort_key fst (filter (\<lambda>(n, m). n \<notin> set req) ms)"

definition field_line :: "string \<times> pmember \<Rightarrow> string" where
  "field_line fm = ''    '' @ fst fm @ '': '' @ pm_pie_type (snd fm)"

definition class_lines :: "string \<times> (string, pmember) dict \<times> string list \<Rightarrow> string list" where
  "class_lines c =
     (case c of (n, ms, req) \<Rightarrow>
        [''class '' @ n @ '':''] @
        (if ms = [] then [''    pass''] else map field_line (class_fields ms req)) @ [[]])"

section \<open>Operation stubs\<close>

definition op_params :: "(string, pshape) dict \<Rightarrow> json \<Rightarrow> string list res" where
  "op_params shapes input_shape =
     (let base = ''endpoint: str'' in
      if \<not> jtruthy input_shape then Inr [base]
      else if \<not> jhashable input_shape then Inl (TypeError ''unhashable type'')
      else
        (case input_shape of
           JStr n \<Rightarrow>
             (case dict_get shapes n of
                Some (PClass ms req) \<Rightarrow>
                  Inr (base # map (\<lambda>(f, m). f @ '': '' @ pm_pie_type m) (class_fields ms req))
              | Some (PScalar t) \<Rightarrow>
                  Inr (if t = ''class'' then [base] else [base, ''request: '' @ t])
              | None \<Rightarrow> Inr [base, ''request: str''])
         | _ \<Rightarrow> Inr [base, ''request: str'']))"

definition op_return_type :: "(string, pshape) dict \<Rightarrow> json \<Rightarrow> string res" where
  "op_return_type shapes output_shape =
     (if \<not> jtruthy output_shape then Inr ''int''
      else if \<not> jhashable output_shape then Inl (TypeError ''unhashable type'')
      else
        (case output_shape of
           JStr n \<Rightarrow>
             (case dict_get shapes n of
                Some (PClass ms req) \<Rightarrow> Inr n
              | Some (PScalar t) \<Rightarrow> Inr t
              | None \<Rightarrow> Inr ''int'')
         | _ \<Rightarrow> Inr ''int''))"

definition op_lines :: "(string, pshape) dict \<Rightarrow> poperation \<Rightarrow> string list res" where
  "op_lines shapes op =
     bindR (op_params shapes (po_input_shape op)) (\<lambda>params.
     bindR (op_return_type shapes (po_output_shape op)) (\<lambda>return_type.
       Inr [''# HTTP '' @ py_str (po_http_method op) @ '' '' @ py_str (po_http_uri op),
            ''def '' @ po_name op @ ''('' @ str_join '', '' params @ '') -> '' @ return_type @ '':'',
            ''    pass  # TODO: implement SigV4 + HTTP dispatch'',
            []]))"

section \<open>The whole file\<close>

definition service_field :: "(string, json) dict \<Rightarrow> string \<Rightarrow> json res" where
  "service_field service k =
     (case dict_get service k of None \<Rightarrow> Inl (KeyError k) | Some v \<Rightarrow> Inr v)"

definition pie_lines :: "parsed \<Rightarrow> string \<Rightarrow> string \<Rightarrow> string list res" where
  "pie_lines res service_name output_path =
     bindR (service_field (p_service res) ''protocol'') (\<lambda>protocol.
     bindR (service_field (p_service res) ''api_version'') (\<lambda>api_version.
     bindR (mapR (op_lines (p_shapes res)) (p_operations res)) (\<lambda>ops.
       let service_id = (case dict_get (p_service res) ''service_id'' of
                           None \<Rightarrow> service_name | Some v \<Rightarrow> py_str v);
           classes = structure_shapes (p_shapes res)
       in Inr ([rstrip (pie_header service_id (py_str protocol) (py_str api_version)
                          service_name output_path), []] @
               (if classes = [] then [] else [''# --- Type definitions ---'', []]) @
               concat (map class_lines classes) @
               (if p_operations res = [] then [] else [rstrip pie_stub_comment, []]) @
               concat ops))))"

definition generate_pie :: "parsed \<Rightarrow> string \<Rightarrow> string \<Rightarrow> string res" where
  "generate_pie res service_name output_path =
     bindR (pie_lines res service_name output_path) (\<lambda>ls. Inr (str_join nl ls))"

section \<open>Properties\<close>

lemma structure_shapes_iff:
  "(n, ms, req) \<in> set (structure_shapes shapes) \<longleftrightarrow> (n, PClass ms req) \<in> set shapes"
  by (force simp: structure_shapes_def List.map_filter_def split: pshape.splits)

lemma sorted_map_filter_keys:
  "sorted (map fst xs) \<Longrightarrow> sorted (map fst (List.map_filter
     (\<lambda>(n, d). case d of PScalar _ \<Rightarrow> None | PClass ms req \<Rightarrow> Some (n, ms, req)) xs))"
  by (induction xs) (auto simp: List.map_filter_def split: pshape.splits)

text \<open>The fields of a generated class are the members of the parsed class, each once, with the
  required members first and each group sorted by name.\<close>

lemma class_fields_layout:
  "mset (class_fields ms req) = mset ms \<and>
   map fst (class_fields ms req) =
     sort (filter (\<lambda>f. f \<in> set req) (dict_keys ms)) @ sort (filter (\<lambda>f. f \<notin> set req) (dict_keys ms))"
proof -
  have "mset (filter P ms) + mset (filter (\<lambda>x. \<not> P x) ms) = mset ms" for P
    using multiset_partition [of "mset ms" P] by simp
  from this [of "\<lambda>(n, m). n \<in> set req"] have "mset (class_fields ms req) = mset ms"
    by (simp add: class_fields_def case_prod_beta')
  then show ?thesis
    by (simp add: class_fields_def map_sort_key filter_keys)
qed

lemma op_lines_succeeds:
  assumes "jhashable (po_input_shape op)" "jhashable (po_output_shape op)"
  shows "succeeds (op_lines shapes op)"
proof -
  have "succeeds (op_params shapes (po_input_shape op))"
    using assms(1) by (auto simp: op_params_def succeeds_def Let_def split: json.split option.split pshape.split)
  moreover have "succeeds (op_return_type shapes (po_output_shape op))"
    using assms(2) by (auto simp: op_return_type_def succeeds_def split: json.split option.split pshape.split)
  ultimately show ?thesis by (auto simp: op_lines_def succeeds_iff)
qed

text \<open>The shapes of a listed operation were roots of the walk, so they are names of defined
  shapes or absent.\<close>

lemma field_shape_root:
  assumes "shape_of_field v k = Inr i" and "k = ''input'' \<or> k = ''output''"
  shows "i = JNull \<or> Inr i \<in> set (op_roots v)"
  using assms by (auto simp: shape_of_field_def op_roots_def split: if_splits sum.splits)

lemma mapR_mem:
  "mapR f xs = Inr ys \<Longrightarrow> y \<in> set ys \<Longrightarrow> \<exists>x \<in> set xs. f x = Inr y"
  by (induction xs arbitrary: ys) auto

lemma parsed_op_shapes:
  assumes "parse p = Inr res" and "mp_operation_names p \<noteq> Some []" and "op \<in> set (p_operations res)"
  obtains shapes R where "parse_shapes (mp_skip_unsupported p) R shapes = Inr (p_shapes res)"
    "distinct R" "po_input_shape op = JNull \<or> (\<exists>n \<in> set R. po_input_shape op = JStr n)"
    "po_output_shape op = JNull \<or> (\<exists>n \<in> set R. po_output_shape op = JStr n)"
proof -
  from assms(1) obtain shapes R where a: "jget (mp_model p) ''shapes'' = Inr shapes"
    "collect_reachable_shapes (mp_model p) (mp_operation_names p) = Inr R"
    "parse_operations p = Inr (p_operations res)"
    "parse_shapes (mp_skip_unsupported p) R shapes = Inr (p_shapes res)" "distinct R"
    by (rule parse_Inr) blast
  from a(2) obtain items where ops: "jget (mp_model p) ''operations'' = Inr (JObj items)"
    and w: "walk_all shapes (selected_refs items (mp_operation_names p)) [] = Inr R"
    by (rule collect_reachable_shapes_InrD) (use a(1) in auto)
  let ?sel = "case mp_operation_names p of None \<Rightarrow> items
    | Some ns \<Rightarrow> filter (\<lambda>(k, v). k \<in> set ns) items"
  have "mapR (\<lambda>(k, v). parse_operation k v) (sort_key fst ?sel) = Inr (p_operations res)"
    using a(3) ops assms(2) by (auto simp: parse_operations_def Let_def jitems_def split: option.splits)
  from mapR_mem [OF this assms(3)] obtain k v where kv: "(k, v) \<in> set ?sel"
    and op: "parse_operation k v = Inr op" by auto
  then have sel: "set (op_roots v) \<subseteq> set (selected_refs items (mp_operation_names p))"
    by (force simp: selected_refs_def)
  have ref: "i = JNull \<or> (\<exists>n \<in> set R. i = JStr n)" if "i = JNull \<or> Inr i \<in> set (op_roots v)" for i
    using that
  proof
    assume "Inr i \<in> set (op_roots v)"
    with sel walk_all_exact(4) [OF w] have "good_ref shapes (Inr i)" by (auto simp: list_all_iff)
    then obtain n where "i = JStr n" by (auto simp: good_ref_iff)
    moreover from this \<open>Inr i \<in> set (op_roots v)\<close> sel have "n \<in> set R"
      using walk_all_exact(1) [OF w] by (auto intro: reached_root)
    ultimately show ?thesis by blast
  qed simp
  from op have "shape_of_field v ''input'' = Inr (po_input_shape op)"
    "shape_of_field v ''output'' = Inr (po_output_shape op)"
    unfolding parse_operation_def by auto
  then show thesis using that [OF a(4,5)] ref field_shape_root by blast
qed

lemma service_fields:
  assumes "parse p = Inr res"
  shows "\<exists>v. service_field (p_service res) ''protocol'' = Inr v"
    and "\<exists>v. service_field (p_service res) ''api_version'' = Inr v"
proof -
  from assms obtain meta where "parse_service_metadata meta = Inr (p_service res)"
    unfolding parse_def by auto
  then have "\<exists>e pr api rest.
    p_service res = (''endpoint_prefix'', e) # (''protocol'', pr) # (''api_version'', api) # rest"
    unfolding parse_service_metadata_def by (elim bindR_InrE) (simp, drule sym, simp)
  then show "\<exists>v. service_field (p_service res) ''protocol'' = Inr v"
    and "\<exists>v. service_field (p_service res) ''api_version'' = Inr v"
    by (auto simp: service_field_def)
qed

lemma mapR_succeeds: "(\<And>x. x \<in> set xs \<Longrightarrow> succeeds (f x)) \<Longrightarrow> succeeds (mapR f xs)"
proof (induction xs)
  case (Cons x xs)
  from Cons.prems [of x] obtain y where "f x = Inr y" by (auto simp: succeeds_iff)
  with Cons show ?case by (auto simp: succeeds_iff)
qed (simp add: succeeds_def)

text \<open>C22: rendering never fails on what the parser returned for an operation list that is absent
  or not empty: every service field and every input and output shape it interpolates is there
  and has the class the rendering needs.\<close>

theorem generate_pie_succeeds:
  assumes "parse p = Inr res" and "mp_operation_names p \<noteq> Some []"
  shows "\<exists>src. generate_pie res service_name output_path = Inr src"
proof -
  have "succeeds (op_lines (p_shapes res) op)" if "op \<in> set (p_operations res)" for op
    using assms that
    by (rule parsed_op_shapes) (rule op_lines_succeeds; auto simp: jhashable_def)
  then have "succeeds (mapR (op_lines (p_shapes res)) (p_operations res))" by (rule mapR_succeeds)
  with service_fields [OF assms(1)] show ?thesis
    by (auto simp: generate_pie_def pie_lines_def succeeds_iff Let_def)
qed

theorem generate_pie_succeeds_witness:
  "\<exists>res src. parse sample_parser = Inr res \<and> generate_pie res ''echo'' ''out.pie'' = Inr src"
proof -
  obtain res where res: "parse sample_parser = Inr res" by (rule sample_parse) blast
  have "mp_operation_names sample_parser \<noteq> Some []" by (simp add: sample_parser_def)
  from generate_pie_succeeds [OF res this] res show ?thesis by blast
qed

section \<open>The types a generated stub names\<close>

definition type_defined :: "parsed \<Rightarrow> string \<Rightarrow> bool" where
  "type_defined res t \<longleftrightarrow> t \<in> {''str'', ''int''} \<or>
     (\<exists>ms req. dict_get (p_shapes res) t = Some (PClass ms req))"

lemma entry_type_defined:
  assumes "parse_shapes skip R shapes = Inr (p_shapes res)" and "distinct R" and "n \<in> set R"
  shows "dict_get (p_shapes res) n = Some (PScalar t) \<Longrightarrow> type_defined res t"
  using parse_entry [OF assms] by (auto simp: entry_ok_def type_defined_def split: if_splits
      elim: parse_structure_shape_Inr)

lemma member_type_defined:
  assumes "parse p = Inr res" and "dict_get (p_shapes res) C = Some (PClass ms req)" and "(f, m) \<in> set ms"
  shows "type_defined res (pm_pie_type m)"
  using class_member_type [OF assms] by (auto simp: type_defined_def)

lemma set_class_fields [simp]: "set (class_fields ms req) = set ms"
  by (auto simp: class_fields_def)

text \<open>The types of the parameters of a stub, and its return type.\<close>

lemma op_params_defined:
  assumes "parse p = Inr res" and scalar: "\<And>t. dict_get (p_shapes res) n = Some (PScalar t) \<Longrightarrow> type_defined res t"
  shows "\<exists>fields. op_params (p_shapes res) (JStr n) = Inr (''endpoint: str'' # map (\<lambda>(f, ft). f @ '': '' @ ft) fields) \<and>
    (\<forall>(f, ft) \<in> set fields. type_defined res ft)"
proof (cases "n = []")
  case True
  then show ?thesis by (auto simp: op_params_def jtruthy_def intro: exI [of _ "[]"])
next
  case False
  show ?thesis
  proof (cases "dict_get (p_shapes res) n")
    case None
    then show ?thesis using False
      by (auto simp: op_params_def jtruthy_def jhashable_def type_defined_def intro!: exI [of _ "[(''request'', ''str'')]"])
  next
    case (Some e)
    show ?thesis
    proof (cases e)
      case (PScalar t)
      then have "type_defined res t" using scalar Some by simp
      then show ?thesis using False Some PScalar
        by (cases "t = ''class''")
          (auto simp: op_params_def jtruthy_def jhashable_def intro: exI [of _ "[]"] exI [of _ "[(''request'', t)]"])
    next
      case (PClass ms req)
      let ?fields = "map (\<lambda>(f, m). (f, pm_pie_type m)) (class_fields ms req)"
      have "\<forall>(f, ft) \<in> set ?fields. type_defined res ft"
        using member_type_defined [OF assms(1)] Some PClass by auto
      then show ?thesis using False Some PClass
        by (intro exI [of _ ?fields]) (auto simp: op_params_def jtruthy_def jhashable_def case_prod_beta')
    qed
  qed
qed

lemma op_return_defined:
  assumes "\<And>t. dict_get (p_shapes res) n = Some (PScalar t) \<Longrightarrow> type_defined res t"
  shows "\<exists>t. op_return_type (p_shapes res) (JStr n) = Inr t \<and> type_defined res t"
  using assms
  by (auto simp: op_return_type_def jtruthy_def jhashable_def type_defined_def split: option.splits pshape.splits)

text \<open>C29: every type a generated operation stub names is primitive or a class of the same file: the
  stub's parameters are the endpoint and then typed fields, and those types and the return type
  are all defined.\<close>

theorem stub_types_defined:
  assumes "parse p = Inr res" and "mp_operation_names p \<noteq> Some []" and "op \<in> set (p_operations res)"
  shows "\<exists>fields t. op_params (p_shapes res) (po_input_shape op) =
        Inr (''endpoint: str'' # map (\<lambda>(f, ft). f @ '': '' @ ft) fields)
    \<and> (\<forall>(f, ft) \<in> set fields. type_defined res ft)
    \<and> op_return_type (p_shapes res) (po_output_shape op) = Inr t \<and> type_defined res t"
proof -
  from assms obtain shapes R where a:
    "parse_shapes (mp_skip_unsupported p) R shapes = Inr (p_shapes res)" "distinct R"
    "po_input_shape op = JNull \<or> (\<exists>n \<in> set R. po_input_shape op = JStr n)"
    "po_output_shape op = JNull \<or> (\<exists>n \<in> set R. po_output_shape op = JStr n)"
    by (rule parsed_op_shapes)
  note scalar = entry_type_defined [OF a(1,2)]
  have "\<exists>fields. op_params (p_shapes res) (po_input_shape op) =
        Inr (''endpoint: str'' # map (\<lambda>(f, ft). f @ '': '' @ ft) fields)
    \<and> (\<forall>(f, ft) \<in> set fields. type_defined res ft)"
    using a(3)
  proof
    assume "po_input_shape op = JNull"
    then show ?thesis by (auto simp: op_params_def jtruthy_def intro: exI [of _ "[]"])
  next
    assume "\<exists>n \<in> set R. po_input_shape op = JStr n"
    then obtain n where "n \<in> set R" and n: "po_input_shape op = JStr n" by blast
    then show ?thesis unfolding n by (intro op_params_defined [OF assms(1)] scalar)
  qed
  moreover have "\<exists>t. op_return_type (p_shapes res) (po_output_shape op) = Inr t \<and> type_defined res t"
    using a(4)
  proof
    assume "po_output_shape op = JNull"
    then show ?thesis by (simp add: op_return_type_def jtruthy_def type_defined_def)
  next
    assume "\<exists>n \<in> set R. po_output_shape op = JStr n"
    then obtain n where "n \<in> set R" and n: "po_output_shape op = JStr n" by blast
    then show ?thesis unfolding n by (intro op_return_defined scalar)
  qed
  ultimately show ?thesis by blast
qed

theorem stub_types_defined_witness:
  "\<exists>res op. parse sample_parser = Inr res \<and> op \<in> set (p_operations res)
     \<and> (\<exists>t. op_return_type (p_shapes res) (po_output_shape op) = Inr t \<and> type_defined res t)"
proof -
  have "(case parse sample_parser of Inl _ \<Rightarrow> False | Inr res \<Rightarrow> p_operations res \<noteq> [])" by code_simp
  then obtain res where res: "parse sample_parser = Inr res" and "p_operations res \<noteq> []"
    by (auto split: sum.splits)
  then obtain op where op: "op \<in> set (p_operations res)" by (cases "p_operations res") auto
  have "mp_operation_names sample_parser \<noteq> Some []" by (simp add: sample_parser_def)
  from stub_types_defined [OF res this op] res op show ?thesis by blast
qed

end
