(* ===== verification/PieRead.thy ===== *)
theory PieRead
  imports PieGen
begin

text \<open>
  Reading generated \<open>.pie\<close> text back: a reader of the class definitions, line by line as Python's
  indentation has them, recovers the classes of the parsed model from what \<open>generate_pie\<close>
  wrote.
\<close>

section \<open>A reader\<close>

abbreviation newline :: char where
  "newline \<equiv> CHR 0x0A"

fun split_lines :: "string \<Rightarrow> string list" where
  "split_lines [] = [[]]"
| "split_lines (c # cs) =
     (if c = newline then [] # split_lines cs
      else (c # hd (split_lines cs)) # tl (split_lines cs))"

text \<open>\<open>class N:\<close>\<close>

definition class_name :: "string \<Rightarrow> string option" where
  "class_name l = (if take 6 l = ''class '' \<and> last l = CHR '':'' then Some (butlast (drop 6 l)) else None)"

definition indented :: "string \<Rightarrow> bool" where
  "indented l \<longleftrightarrow> take 4 l = ''    ''"

text \<open>\<open>f: t\<close> inside a class; a line without a colon (\<open>pass\<close>) is not a field.\<close>

definition field_of :: "string \<Rightarrow> (string \<times> string) option" where
  "field_of l =
     (let r = drop 4 l; f = takeWhile (\<lambda>c. c \<noteq> CHR '':'') r in
      if f = r then None else Some (f, drop (length f + 2) r))"

text \<open>Each class with the fields of its indented block, in the order of the text.\<close>

fun read_pie :: "string list \<Rightarrow> (string, (string \<times> string) list) dict" where
  "read_pie [] = []"
| "read_pie (l # ls) =
     (case class_name l of
        None \<Rightarrow> read_pie ls
      | Some n \<Rightarrow> (n, List.map_filter field_of (takeWhile indented ls)) # read_pie ls)"

section \<open>Lines\<close>

lemma split_lines_nonempty [simp]: "split_lines s \<noteq> []"
  by (cases s) simp_all

lemma split_lines_plain: "newline \<notin> set l \<Longrightarrow> split_lines l = [l]"
  by (induction l) auto

lemma split_lines_nl: "newline \<notin> set l \<Longrightarrow> split_lines (l @ nl @ s) = l # split_lines s"
  by (induction l) (auto simp: nl_def)

lemma split_lines_nl_any: "split_lines (l @ nl @ s) = split_lines l @ split_lines s"
  by (induction l) (auto simp: nl_def)

lemma split_lines_join: "ls \<noteq> [] \<Longrightarrow> split_lines (str_join nl ls) = concat (map split_lines ls)"
  by (induction ls rule: induct_list012) (auto simp: split_lines_nl_any)

text \<open>Cutting off the end of a text shortens lines.\<close>

lemma split_lines_append:
  "split_lines (xs @ ys) = butlast (split_lines xs) @ (last (split_lines xs) @ hd (split_lines ys)) # tl (split_lines ys)"
proof (induction xs)
  case (Cons c xs)
  obtain h t where xs: "split_lines xs = h # t" by (cases "split_lines xs") auto
  show ?case using Cons xs by (cases t) auto
qed simp

lemma split_lines_cut:
  assumes "l \<in> set (split_lines xs)"
  shows "\<exists>m \<in> set (split_lines (xs @ ys)). \<exists>k. l = take k m"
proof -
  have "split_lines xs = butlast (split_lines xs) @ [last (split_lines xs)]" by simp
  with assms consider "l \<in> set (butlast (split_lines xs))" | "l = last (split_lines xs)"
    by (metis Un_iff empty_iff insert_iff list.set(1,2) set_append)
  then show ?thesis
  proof cases
    case 1
    then show ?thesis unfolding split_lines_append by (intro bexI [of _ l] exI [of _ "length l"]) simp_all
  next
    case 2
    then show ?thesis unfolding split_lines_append
      by (intro bexI [of _ "l @ hd (split_lines ys)"] exI [of _ "length l"]) simp_all
  qed
qed

section \<open>Lines that are not classes\<close>

abbreviation no_class :: "string list \<Rightarrow> bool" where
  "no_class ls \<equiv> list_all (\<lambda>l. class_name l = None) ls"

lemma read_pie_skip: "no_class ls \<Longrightarrow> read_pie (ls @ ms) = read_pie ms"
  by (induction ls) simp_all

lemma comment_no_class: "take 1 l \<noteq> ''c'' \<Longrightarrow> class_name l = None"
  by (cases l) (auto simp: class_name_def)

lemma rstrip_cut: "\<exists>t. s = rstrip s @ t"
proof -
  have "rev s = takeWhile is_space (rev s) @ dropWhile is_space (rev s)" by simp
  then have "s = rev (dropWhile is_space (rev s)) @ rev (takeWhile is_space (rev s))"
    by (metis rev_append rev_rev_ident)
  then show ?thesis by (auto simp: rstrip_def)
qed

lemma no_class_rstrip:
  assumes "list_all (\<lambda>l. take 1 l \<noteq> ''c'') (split_lines s)"
  shows "no_class (split_lines (rstrip s))"
proof -
  obtain t where t: "s = rstrip s @ t" using rstrip_cut by blast
  have "take 1 l \<noteq> ''c''" if "l \<in> set (split_lines (rstrip s))" for l
  proof -
    have "\<exists>m \<in> set (split_lines (rstrip s @ t)). \<exists>k. l = take k m" by (rule split_lines_cut [OF that])
    then obtain m k where "m \<in> set (split_lines s)" "l = take k m" unfolding t [symmetric] by blast
    then show ?thesis using assms by (cases m; cases k) (auto simp: list_all_iff)
  qed
  then show ?thesis by (auto simp: list_all_iff intro: comment_no_class)
qed

abbreviation no_nl :: "string \<Rightarrow> bool" where
  "no_nl s \<equiv> newline \<notin> set s"

text \<open>Comment lines.\<close>

lemma comment_lines:
  assumes "\<forall>l \<in> set ls. no_nl l \<and> take 1 l = ''#''"
  shows "list_all (\<lambda>l. take 1 l \<noteq> ''c'') (split_lines (concat (map (\<lambda>l. l @ nl) ls)))"
  using assms
proof (induction ls)
  case (Cons l ls)
  have "split_lines (concat (map (\<lambda>l. l @ nl) (l # ls))) = l # split_lines (concat (map (\<lambda>l. l @ nl) ls))"
    using Cons.prems split_lines_nl [of l] by simp
  then show ?case using Cons by simp
qed simp

lemma header_no_class:
  assumes "no_nl sid" "no_nl pr" "no_nl v" "no_nl sn" "no_nl out"
  shows "no_class (split_lines (rstrip (pie_header sid pr v sn out)))"
proof (rule no_class_rstrip)
  let ?ls = "[''# Auto-generated by scripts/parse_models.py from botocore model.'',
    ''# Service: '' @ sid @ ''  Protocol: '' @ pr @ ''  API version: '' @ v,
    ''# DO NOT EDIT BY HAND '' @ [CHR 0xE2, CHR 0x80, CHR 0x94] @ '' regenerate with:'',
    ''#   python scripts/parse_models.py '' @ sn @ '' --output '' @ out]"
  have written: "pie_header sid pr v sn out = concat (map (\<lambda>l. l @ nl) ?ls)"
    by (simp only: pie_header_def list.map concat.simps append_assoc append_Nil2)
  have lines: "\<forall>l \<in> set ?ls. no_nl l \<and> take 1 l = ''#''" using assms by simp
  show "list_all (\<lambda>l. take 1 l \<noteq> ''c'') (split_lines (pie_header sid pr v sn out))"
    unfolding written by (rule comment_lines [OF lines])
qed

lemma stub_comment_no_class: "no_class (split_lines (rstrip pie_stub_comment))"
proof (rule no_class_rstrip)
  let ?ls = "[''# --- Operation stubs ---'', ''# These are placeholder function signatures.'',
    ''# Actual HTTP dispatch will be implemented in .pie once SigV4 is ready.'']"
  have written: "pie_stub_comment = concat (map (\<lambda>l. l @ nl) ?ls)"
    by (simp only: pie_stub_comment_def list.map concat.simps append_assoc append_Nil2)
  have lines: "\<forall>l \<in> set ?ls. no_nl l \<and> take 1 l = ''#''" by simp
  show "list_all (\<lambda>l. take 1 l \<noteq> ''c'') (split_lines pie_stub_comment)"
    unfolding written by (rule comment_lines [OF lines])
qed

section \<open>Classes\<close>

text \<open>Names and types without line breaks, field names without a colon.\<close>

definition plain_member :: "string \<times> pmember \<Rightarrow> bool" where
  "plain_member fm = (case fm of (f, m) \<Rightarrow> no_nl f \<and> CHR '':'' \<notin> set f \<and> no_nl (pm_pie_type m))"

definition plain_shape :: "string \<times> pshape \<Rightarrow> bool" where
  "plain_shape nd = (case nd of (n, d) \<Rightarrow> no_nl n \<and>
     (case d of PScalar t \<Rightarrow> no_nl t | PClass ms req \<Rightarrow> list_all plain_member ms))"

definition plain_operation :: "poperation \<Rightarrow> bool" where
  "plain_operation op \<longleftrightarrow> no_nl (po_name op) \<and> no_nl (py_str (po_http_method op)) \<and> no_nl (py_str (po_http_uri op))"

lemma field_line_read:
  assumes "plain_member fm"
  shows "field_of (field_line fm) = Some (fst fm, pm_pie_type (snd fm))"
    and "indented (field_line fm)" and "no_nl (field_line fm)"
proof -
  have "takeWhile (\<lambda>c. c \<noteq> CHR '':'') (fst fm @ '': '' @ t) = fst fm" for t
    using assms by (subst takeWhile_append2) (auto simp: plain_member_def)
  then show "field_of (field_line fm) = Some (fst fm, pm_pie_type (snd fm))"
    by (simp add: field_of_def field_line_def Let_def)
  show "indented (field_line fm)" "no_nl (field_line fm)"
    using assms by (auto simp: field_line_def indented_def plain_member_def)
qed

lemma indented_no_class: "indented l \<Longrightarrow> class_name l = None"
  by (cases l) (auto simp: indented_def class_name_def)

lemma block_read:
  assumes "list_all indented block"
  shows "takeWhile indented (block @ [] # ls) = block" and "read_pie (block @ [] # ls) = read_pie ls"
proof -
  have "\<not> indented []" by (simp add: indented_def)
  then show "takeWhile indented (block @ [] # ls) = block"
    using assms by (induction block) auto
  have "no_class (block @ [[]])"
    using assms by (auto simp: list_all_iff intro: indented_no_class comment_no_class)
  from read_pie_skip [OF this, of ls] show "read_pie (block @ [] # ls) = read_pie ls" by simp
qed

text \<open>What a class is read as.\<close>

definition class_read :: "string \<times> (string, pmember) dict \<times> string list \<Rightarrow> string \<times> (string \<times> string) list" where
  "class_read c = (case c of (n, ms, req) \<Rightarrow> (n, map (\<lambda>fm. (fst fm, pm_pie_type (snd fm))) (class_fields ms req)))"

lemma class_lines_read:
  assumes "list_all plain_member ms"
  shows "read_pie (class_lines (n, ms, req) @ ls) = class_read (n, ms, req) # read_pie ls"
proof -
  let ?block = "if ms = [] then [''    pass''] else map field_line (class_fields ms req)"
  have plain: "\<forall>fm \<in> set (class_fields ms req). plain_member fm" using assms by (auto simp: list_all_iff)
  have name: "class_name (''class '' @ n @ '':'') = Some n" by (simp add: class_name_def)
  have indent: "list_all indented ?block"
    using plain by (auto simp: list_all_iff field_line_read(2)) (simp add: indented_def)
  have "List.map_filter field_of (map field_line fms) = map (\<lambda>fm. (fst fm, pm_pie_type (snd fm))) fms"
    if "\<forall>fm \<in> set fms. plain_member fm" for fms
    using that by (induction fms) (simp_all add: List.map_filter_simps field_line_read(1))
  moreover have "List.map_filter field_of [''    pass''] = []"
    by (simp add: List.map_filter_simps field_of_def)
  moreover have "class_fields [] req = []" by (simp add: class_fields_def)
  ultimately have fields: "List.map_filter field_of ?block = map (\<lambda>fm. (fst fm, pm_pie_type (snd fm))) (class_fields ms req)"
    using plain by simp
  have "class_lines (n, ms, req) @ ls = (''class '' @ n @ '':'') # ?block @ [] # ls"
    by (simp add: class_lines_def)
  then show ?thesis
    using name by (simp only: read_pie.simps option.case block_read [OF indent] fields) (simp add: class_read_def)
qed

lemma class_lines_nl:
  assumes "no_nl n" "list_all plain_member ms"
  shows "\<forall>l \<in> set (class_lines (n, ms, req)). no_nl l"
  using assms by (auto simp: class_lines_def list_all_iff field_line_read(3))

section \<open>Operation stubs\<close>

lemma op_lines_plain:
  assumes "op_lines shapes op = Inr ls" and "list_all plain_shape shapes" and "plain_operation op"
  shows "(\<forall>l \<in> set ls. no_nl l) \<and> no_class ls"
proof -
  obtain ps t where ps: "op_params shapes (po_input_shape op) = Inr ps"
    and t: "op_return_type shapes (po_output_shape op) = Inr t"
    and ls: "ls = [''# HTTP '' @ py_str (po_http_method op) @ '' '' @ py_str (po_http_uri op),
      ''def '' @ po_name op @ ''('' @ str_join '', '' ps @ '') -> '' @ t @ '':'',
      ''    pass  # TODO: implement SigV4 + HTTP dispatch'', []]"
    using assms(1) by (auto simp: op_lines_def bindR_Inr_iff)
  have shape: "plain_shape (n, d)" if "dict_get shapes n = Some d" for n d
    using that assms(2) by (auto simp: list_all_iff dest: map_of_SomeD)
  have "no_nl p" if "p \<in> set ps" for p
    using ps that shape
    by (fastforce simp: op_params_def Let_def plain_shape_def plain_member_def list_all_iff
        split: if_splits json.splits option.splits pshape.splits)
  moreover have join: "\<forall>p \<in> set ps. no_nl p \<Longrightarrow> no_nl (str_join '', '' ps)" for ps
    by (induction ps rule: induct_list012) auto
  moreover have "no_nl t"
    using t shape
    by (fastforce simp: op_return_type_def plain_shape_def split: if_splits json.splits option.splits pshape.splits)
  ultimately show ?thesis
    using assms(3) by (auto simp: ls plain_operation_def intro: comment_no_class)
qed

section \<open>Reading back\<close>

definition plain_text :: "parsed \<Rightarrow> string \<Rightarrow> string \<Rightarrow> bool" where
  "plain_text res service_name output_path \<longleftrightarrow>
     no_nl service_name \<and> no_nl output_path \<and> list_all (\<lambda>(k, v). no_nl (py_str v)) (p_service res) \<and>
     list_all plain_shape (p_shapes res) \<and> list_all plain_operation (p_operations res)"

lemma concat_lines: "\<forall>l \<in> set ls. no_nl l \<Longrightarrow> concat (map split_lines ls) = ls"
  by (induction ls) (simp_all add: split_lines_plain)

lemma split_lines_parts:
  "split_lines (str_join nl ([h, []] @ a @ b @ c @ d)) =
     split_lines h @ [[]] @ concat (map split_lines a) @ concat (map split_lines b) @
     concat (map split_lines c) @ concat (map split_lines d)"
  using split_lines_join [of "[h, []] @ a @ b @ c @ d"] by simp

lemma read_classes:
  assumes "\<forall>(n, ms, req) \<in> set cs. list_all plain_member ms"
  shows "read_pie (concat (map class_lines cs) @ ls) = map class_read cs @ read_pie ls"
  using assms by (induction cs) (auto simp: class_lines_read)

lemma read_generated:
  assumes "generate_pie res service_name output_path = Inr src" and "plain_text res service_name output_path"
  shows "read_pie (split_lines src) = map class_read (structure_shapes (p_shapes res))"
proof -
  let ?classes = "structure_shapes (p_shapes res)"
  obtain protocol api_version ops where
      service: "service_field (p_service res) ''protocol'' = Inr protocol"
        "service_field (p_service res) ''api_version'' = Inr api_version"
    and ops: "mapR (op_lines (p_shapes res)) (p_operations res) = Inr ops"
    and src: "src = str_join nl ([rstrip (pie_header
        (case dict_get (p_service res) ''service_id'' of None \<Rightarrow> service_name | Some v \<Rightarrow> py_str v)
        (py_str protocol) (py_str api_version) service_name output_path), []] @
      (if ?classes = [] then [] else [''# --- Type definitions ---'', []]) @
      concat (map class_lines ?classes) @
      (if p_operations res = [] then [] else [rstrip pie_stub_comment, []]) @ concat ops)"
    using assms(1) by (auto simp: generate_pie_def pie_lines_def bindR_Inr_iff Let_def)
  let ?header = "split_lines (rstrip (pie_header
        (case dict_get (p_service res) ''service_id'' of None \<Rightarrow> service_name | Some v \<Rightarrow> py_str v)
        (py_str protocol) (py_str api_version) service_name output_path)) @ [[]] @
      (if ?classes = [] then [] else [''# --- Type definitions ---'', []])"
  let ?stubs = "(if p_operations res = [] then [] else split_lines (rstrip pie_stub_comment) @ [[]]) @ concat ops"
  have field: "no_nl (py_str v)" if "dict_get (p_service res) k = Some v" for k v
    using that assms(2) by (auto simp: plain_text_def list_all_iff dest: map_of_SomeD)
  have header: "no_class ?header"
    using service field assms(2)
    by (auto simp: service_field_def plain_text_def split: option.splits
        intro!: header_no_class comment_no_class)
  have plain_ops: "(\<forall>l \<in> set ls. no_nl l) \<and> no_class ls" if ls: "ls \<in> set ops" for ls
  proof -
    obtain op where "op \<in> set (p_operations res)" "op_lines (p_shapes res) op = Inr ls"
      using mapR_mem [OF ops ls] by blast
    then show ?thesis using op_lines_plain assms(2) by (auto simp: plain_text_def list_all_iff)
  qed
  have stubs: "no_class ?stubs"
    using plain_ops stub_comment_no_class by (auto simp: list_all_iff intro: comment_no_class)
  have classes: "no_nl n \<and> list_all plain_member ms" if "(n, ms, req) \<in> set ?classes" for n ms req
    using that assms(2) unfolding structure_shapes_iff by (auto simp: plain_text_def plain_shape_def list_all_iff)
  have "split_lines src = ?header @ concat (map class_lines ?classes) @ ?stubs"
  proof -
    have "concat (map split_lines (concat (map class_lines ?classes))) = concat (map class_lines ?classes)"
      using class_lines_nl [OF classes [THEN conjunct1] classes [THEN conjunct2]]
      by (intro concat_lines) fastforce
    moreover have "concat (map split_lines (concat ops)) = concat ops"
      using plain_ops by (intro concat_lines) auto
    moreover have "concat (map split_lines (if ?classes = [] then [] else [''# --- Type definitions ---'', []])) =
        (if ?classes = [] then [] else [''# --- Type definitions ---'', []])"
      by (rule concat_lines) simp
    moreover have "concat (map split_lines (if p_operations res = [] then [] else [rstrip pie_stub_comment, []])) =
        (if p_operations res = [] then [] else split_lines (rstrip pie_stub_comment) @ [[]])"
      by simp
    ultimately show ?thesis unfolding src split_lines_parts by (simp only: append_assoc)
  qed
  then have "read_pie (split_lines src) = read_pie (concat (map class_lines ?classes) @ ?stubs)"
    by (simp only: read_pie_skip [OF header])
  also have "\<dots> = map class_read ?classes @ read_pie ?stubs"
    by (rule read_classes) (use classes in auto)
  also have "read_pie ?stubs = []"
    using read_pie_skip [OF stubs, of "[]"] by (simp only: append_Nil2 read_pie.simps)
  finally show ?thesis by (simp only: append_Nil2)
qed

definition is_class :: "string \<times> pshape \<Rightarrow> bool" where
  "is_class nd = (case snd nd of PScalar t \<Rightarrow> False | PClass ms req \<Rightarrow> True)"

lemma structure_shapes_names: "map fst (structure_shapes shapes) = sort (map fst (filter is_class shapes))"
proof -
  have "map fst (structure_shapes shapes) = map fst (filter is_class (sort_key fst shapes))"
    unfolding structure_shapes_def
    by (induction "sort_key fst shapes" rule: rev_induct)
      (simp_all add: List.map_filter_def is_class_def case_prod_beta' comp_def split: pshape.split)
  then show ?thesis by (simp add: filter_sort map_sort_key)
qed

text \<open>C21: the class definitions in a generated file can be read back. A reader that knows only lines and
  indentation finds exactly the classes of the parsed model, in the order of their names, and in each
  exactly its members, with their types, the required ones first and each group by name. The other
  lines (header, comments, operation stubs) are read as no class. For names, types and interpolated
  fields without line breaks and member names without a colon.\<close>

theorem pie_classes_roundtrip:
  assumes "generate_pie res service_name output_path = Inr src"
    and "plain_text res service_name output_path" and "distinct (dict_keys (p_shapes res))"
  shows "dict_keys (read_pie (split_lines src)) = sort (dict_keys (filter is_class (p_shapes res))) \<and>
    (\<forall>n ms req. dict_get (p_shapes res) n = Some (PClass ms req) \<longrightarrow>
      (\<exists>fields. dict_get (read_pie (split_lines src)) n = Some fields \<and>
         mset fields = mset (map (\<lambda>(f, m). (f, pm_pie_type m)) ms) \<and>
         map fst fields =
           sort (filter (\<lambda>f. f \<in> set req) (dict_keys ms)) @ sort (filter (\<lambda>f. f \<notin> set req) (dict_keys ms))))"
proof -
  let ?cs = "map class_read (structure_shapes (p_shapes res))"
  have keys: "map fst ?cs = sort (map fst (filter is_class (p_shapes res)))"
    by (simp add: class_read_def case_prod_beta' comp_def flip: structure_shapes_names)
  have "distinct (map fst (filter is_class (p_shapes res)))" using assms(3) by (simp add: distinct_map_filter)
  then have dist: "distinct (map fst ?cs)" unfolding keys by simp
  have "\<exists>fields. dict_get ?cs n = Some fields \<and> mset fields = mset (map (\<lambda>(f, m). (f, pm_pie_type m)) ms) \<and>
      map fst fields = sort (filter (\<lambda>f. f \<in> set req) (dict_keys ms)) @ sort (filter (\<lambda>f. f \<notin> set req) (dict_keys ms))"
    if "dict_get (p_shapes res) n = Some (PClass ms req)" for n ms req
  proof -
    let ?fields = "map (\<lambda>fm. (fst fm, pm_pie_type (snd fm))) (class_fields ms req)"
    have "(n, ms, req) \<in> set (structure_shapes (p_shapes res))"
      using that by (simp add: structure_shapes_iff map_of_SomeD)
    then have "(n, ?fields) \<in> set ?cs" by (force simp: class_read_def)
    then have "dict_get ?cs n = Some ?fields" using dist by (simp add: map_of_is_SomeI)
    moreover have "mset ?fields = mset (map (\<lambda>(f, m). (f, pm_pie_type m)) ms)"
      using class_fields_layout [of ms req] by (simp add: case_prod_beta')
    moreover have "map fst ?fields = map fst (class_fields ms req)" by simp
    ultimately show ?thesis using class_fields_layout [of ms req] by auto
  qed
  then show ?thesis unfolding read_generated [OF assms(1,2)] using keys by auto
qed

lemma pie_classes_roundtrip_witness:
  "\<exists>res src fields. parse sample_parser = Inr res \<and> generate_pie res ''echo'' ''out.pie'' = Inr src \<and>
     dict_get (read_pie (split_lines src)) ''EchoRequest'' = Some fields \<and>
     map fst fields = [''Message'', ''Count'', ''Parent'']"
proof -
  have "(case parse sample_parser of Inl _ \<Rightarrow> False
     | Inr res \<Rightarrow> dict_get (p_shapes res) ''EchoRequest'' = Some (PClass sample_request_members [''Message'']) \<and>
         plain_text res ''echo'' ''out.pie'' \<and> distinct (dict_keys (p_shapes res)) \<and>
         succeeds (generate_pie res ''echo'' ''out.pie''))"
    by code_simp
  then obtain res src where res: "parse sample_parser = Inr res"
      "dict_get (p_shapes res) ''EchoRequest'' = Some (PClass sample_request_members [''Message''])"
    and plain: "plain_text res ''echo'' ''out.pie''" "distinct (dict_keys (p_shapes res))"
    and src: "generate_pie res ''echo'' ''out.pie'' = Inr src"
    by (auto simp: succeeds_iff split: sum.splits)
  have "sort (filter (\<lambda>f. f \<in> set [''Message'']) (dict_keys sample_request_members)) @
      sort (filter (\<lambda>f. f \<notin> set [''Message'']) (dict_keys sample_request_members)) = [''Message'', ''Count'', ''Parent'']"
    by code_simp
  with pie_classes_roundtrip [OF src plain] res src show ?thesis by fastforce
qed

end
