(* ===== verification/PieAst.thy ===== *)
theory PieAst
  imports Prelude
begin

text \<open>
  The syntax trees of Python's \<open>ast\<close> module, as far as \<open>compiler.py\<close> distinguishes
  them. Every node class the \<open>Compiler\<close> visitor has a method for (or inspects) has a
  constructor with the fields the visitor reads, under the class's name. All other expression
  and statement classes are \<open>OtherExpr\<close> and \<open>OtherStmt\<close> with the class name and the
  children \<open>NodeVisitor.generic_visit\<close> walks, in field order (helper nodes without a
  visitor, such as operators, keywords or comprehensions, are replaced by their own children,
  which is what the generic walk does with them).

  Names are ASCII identifiers; the value of a string literal is its list of code points, the
  value of a bytes literal its list of bytes.
\<close>

datatype operator =
    Add | Sub | Mult | MatMult | Div | Mod | Pow | LShift | RShift | BitOr | BitXor | BitAnd | FloorDiv

datatype unaryop = Invert | UNot | UAdd | USub

datatype cmpop = Eq | NotEq | Lt | LtE | Gt | GtE | Is | IsNot | In | NotIn

datatype const =
    CNone
  | CBool bool
  | CInt int
  | CStr "nat list"
  | CBytes "nat list"
  | COther string

datatype expr =
    Name string
  | Constant const
  | BinOp expr operator expr
  | UnaryOp unaryop expr
  | Compare expr "cmpop list" "expr list"
  | Call expr "expr list" "(string \<times> expr) list"
  | Attribute expr string
  | Subscript expr expr
  | Index expr
  | Tuple "expr list"
  | OtherExpr string "expr list"

text \<open>A parameter is its name and its annotation, if it has one.\<close>

type_synonym params = "(string \<times> expr option) list"

datatype stmt =
    FunctionDef string params "stmt list" "expr option"
  | ClassDef string "stmt list"
  | ImportFrom "string option" "string list"
  | Return "expr option"
  | ExprStmt expr
  | AnnAssign expr expr "expr option"
  | Assign "expr list" expr
  | If expr "stmt list" "stmt list"
  | While expr "stmt list" "stmt list"
  | Pass
  | OtherStmt string "child list"
and child =
    ChildE expr
  | ChildS stmt

text \<open>The two source files the development's instances use: \<open>builtins.pie\<close>, which
  \<open>main\<close> puts in front of every program, and \<open>tests/echo.pie\<close>.\<close>

definition builtins_pie :: "stmt list" where
  "builtins_pie =
     [ImportFrom (Some ''C'') [''malloc'', ''free'', ''strlen'', ''memcpy''],
      ClassDef ''str''
        [AnnAssign (Name ''len'') (Name ''int'') None,
         AnnAssign (Name ''buffer'') (Name ''__ptr__'') None,
         FunctionDef ''__init__'' [(''self'', None), (''c_str'', Some (Name ''__ptr__''))] [Pass]
           (Some (Constant CNone)),
         FunctionDef ''__del__'' [(''self'', None)] [Pass] (Some (Constant CNone))],
      ClassDef ''bytearray''
        [AnnAssign (Name ''len'') (Name ''int'') None,
         AnnAssign (Name ''buffer'') (Name ''__ptr__'') None,
         FunctionDef ''__init__'' [(''self'', None), (''size'', Some (Name ''int''))] [Pass]
           (Some (Constant CNone)),
         FunctionDef ''__del__'' [(''self'', None)] [Pass] (Some (Constant CNone))]]"

definition echo_pie :: "stmt list" where
  "echo_pie =
     [ClassDef ''Request''
        [AnnAssign (Name ''message'') (Name ''str'') None,
         AnnAssign (Name ''number'') (Name ''int'') None],
      ClassDef ''Response''
        [AnnAssign (Name ''status'') (Name ''str'') None,
         AnnAssign (Name ''echo'') (Name ''str'') None,
         AnnAssign (Name ''doubled'') (Name ''int'') None],
      FunctionDef ''handle'' [(''event'', Some (Name ''Request''))]
        [Return (Some (Call (Name ''Response'')
           [Constant (CStr [111, 107]),
            Attribute (Name ''event'') ''message'',
            BinOp (Attribute (Name ''event'') ''number'') Add (Attribute (Name ''event'') ''number'')]
           []))]
        (Some (Name ''Response''))]"

text \<open>A handler on integers with a local variable, a loop and a branch:

  \<^verbatim>\<open>class Request:
    n: int
class Response:
    m: int
def handle(event: Request) -> Response:
    i: int = event.n
    while i > 9:
        i = i - 10
    if i == 0:
        return Response(1)
    return Response(i)\<close>\<close>

definition digit_pie :: "stmt list" where
  "digit_pie =
     [ClassDef ''Request'' [AnnAssign (Name ''n'') (Name ''int'') None],
      ClassDef ''Response'' [AnnAssign (Name ''m'') (Name ''int'') None],
      FunctionDef ''handle'' [(''event'', Some (Name ''Request''))]
        [AnnAssign (Name ''i'') (Name ''int'') (Some (Attribute (Name ''event'') ''n'')),
         While (Compare (Name ''i'') [Gt] [Constant (CInt 9)])
           [Assign [Name ''i''] (BinOp (Name ''i'') Sub (Constant (CInt 10)))] [],
         If (Compare (Name ''i'') [Eq] [Constant (CInt 0)])
           [Return (Some (Call (Name ''Response'') [Constant (CInt 1)] []))] [],
         Return (Some (Call (Name ''Response'') [Name ''i''] []))]
        (Some (Name ''Response''))]"

text \<open>The example of \<open>README.md\<close>, with its handler in a class.\<close>

definition readme_pie :: "stmt list" where
  "readme_pie =
     [ImportFrom (Some ''C'') [''memcpy''],
      ClassDef ''Handler''
        [FunctionDef ''init'' [(''self'', None)] [Pass] (Some (Constant CNone)),
         FunctionDef ''handle''
           [(''self'', None), (''event_ptr'', Some (Name ''__ptr__'')), (''event_len'', Some (Name ''int'')),
            (''response_ptr'', Some (Name ''__ptr__'')), (''response_cap'', Some (Name ''int''))]
           [ExprStmt (Call (Name ''memcpy'') [Name ''response_ptr'', Name ''event_ptr'', Name ''event_len''] []),
            Return (Some (Name ''event_len''))]
           (Some (Name ''int''))],
      If (Compare (Name ''__name__'') [Eq] [Constant (CStr (map of_char ''__main__''))])
        [AnnAssign (Name ''app'') (Name ''Handler'') (Some (Call (Name ''Handler'') [] []))] []]"

end
