(* ===== verification/Llvm.thy ===== *)
theory Llvm
  imports PieAst
begin

text \<open>
  The interface between \<open>compiler.py\<close> and \<open>llvmlite\<close>. The library is not part of
  the repository, so what it decides is a parameter: a record \<open>llapi\<close> that says whether a
  builder method accepts its operands and which \<open>.type\<close> the object it returns has, whether
  a block counts as terminated, whether a global name is still free, and so on. What the
  compiler does with the library is data: the types and values it constructs, and the
  instructions it asks the builder for, each with the Python objects it passes as operands
  (which need not be values: a visitor method may return \<open>None\<close>, a type or a pair).
  Register-name hints are left out.
\<close>

section \<open>Types and values\<close>

datatype ty =
    IntT nat
  | DoubleT
  | VoidT
  | PtrT ty
  | ArrT ty int
  | StructT string
  | FunT ty "ty list" bool

text \<open>\<open>ConstV t c\<close> is \<open>ir.Constant(t, c)\<close>, \<open>NullV t\<close> is
  \<open>ir.Constant(t, None)\<close>, \<open>GlobalV n t\<close> is the pointer \<open>gep\<close> takes to the first
  element of the private global \<open>n\<close>, \<open>FuncV n t\<close> a function with its pointer type,
  \<open>ArgV f i t\<close> the parameter \<open>i\<close> of the function number \<open>f\<close>, and \<open>InstrV k t\<close>
  what the builder returned for the instruction number \<open>k\<close>.\<close>

datatype val =
    ConstV ty const
  | NullV ty
  | GlobalV string ty
  | FuncV string ty
  | ArgV nat nat ty
  | InstrV nat ty

fun val_type :: "val \<Rightarrow> ty" where
  "val_type (ConstV t c) = t"
| "val_type (NullV t) = t"
| "val_type (GlobalV n t) = t"
| "val_type (FuncV n t) = t"
| "val_type (ArgV f i t) = t"
| "val_type (InstrV k t) = t"

text \<open>What a visitor method returns.\<close>

datatype obj =
    ONone
  | OVal val
  | OType ty
  | OMethod val val

section \<open>Instructions\<close>

datatype opcode = OpAdd | OpSub | OpMul | OpAnd | OpOr | OpXor | OpShl | OpLshr | OpSrem

datatype icmp = IcmpEq | IcmpNe | IcmpLt | IcmpLe | IcmpGt | IcmpGe

text \<open>Blocks are numbered in order of creation.\<close>

datatype instr =
    Alloca ty
  | Store obj obj
  | Load obj
  | Bin opcode obj obj
  | Icmp icmp obj obj
  | Gep obj "obj list" bool
  | PtrToInt obj ty
  | Bitcast obj ty
  | CallI obj "obj list"
  | Ret obj
  | RetVoid
  | Br nat
  | CBr obj nat nat
  | Unreachable

fun terminator :: "instr \<Rightarrow> bool" where
  "terminator (Ret _) = True"
| "terminator RetVoid = True"
| "terminator (Br _) = True"
| "terminator (CBr _ _ _) = True"
| "terminator Unreachable = True"
| "terminator _ = False"

text \<open>The blocks an instruction branches to.\<close>

fun branch_targets :: "instr \<Rightarrow> nat list" where
  "branch_targets (Br b) = [b]"
| "branch_targets (CBr _ a b) = [a, b]"
| "branch_targets _ = []"

section \<open>The library\<close>

text \<open>
  \<^item> \<open>build structs code i\<close>: the builder method for \<open>i\<close>, called on a block that holds
    \<open>code\<close> in a context with the struct bodies \<open>structs\<close>: \<open>None\<close> when it raises,
    \<open>Some t\<close> when it appends the instruction and returns an object of type \<open>t\<close>;
  \<^item> \<open>terminated code\<close>: \<open>Block.is_terminated\<close>;
  \<^item> \<open>register names n\<close>: whether a global value named \<open>n\<close> can be added to a module
    that has \<open>names\<close>;
  \<^item> \<open>define_struct old new\<close>: whether \<open>set_body\<close> accepts the body on a struct whose
    body is \<open>old\<close>;
  \<^item> \<open>global_gep t\<close>: the type of \<open>gep([0, 0])\<close> on a global variable of value type
    \<open>t\<close>;
  \<^item> \<open>target_data triple\<close>: the data layout of a target.
\<close>

record llapi =
  build :: "(string, ty list) dict \<Rightarrow> instr list \<Rightarrow> instr \<Rightarrow> ty option"
  terminated :: "instr list \<Rightarrow> bool"
  register :: "string list \<Rightarrow> string \<Rightarrow> bool"
  define_struct :: "ty list option \<Rightarrow> ty list \<Rightarrow> bool"
  global_gep :: "ty \<Rightarrow> ty option"
  target_data :: "string \<Rightarrow> string option"

text \<open>Reading attributes of the library's objects.\<close>

definition obj_type :: "obj \<Rightarrow> ty res" where
  "obj_type v = (case v of OVal x \<Rightarrow> Inr (val_type x) | _ \<Rightarrow> Inl (AttributeError ''type''))"

definition ty_pointee :: "ty \<Rightarrow> ty res" where
  "ty_pointee t = (case t of PtrT u \<Rightarrow> Inr u | _ \<Rightarrow> Inl (AttributeError ''pointee''))"

definition ty_name :: "ty \<Rightarrow> string res" where
  "ty_name t = (case t of StructT n \<Rightarrow> Inr n | _ \<Rightarrow> Inl (AttributeError ''name''))"

definition ty_args :: "ty \<Rightarrow> ty list res" where
  "ty_args t = (case t of FunT r ts va \<Rightarrow> Inr ts | _ \<Rightarrow> Inl (AttributeError ''args''))"

section \<open>An instance\<close>

text \<open>A concrete library for the instances of the properties: it types the instructions as the
  LLVM language reference does, refuses ill-typed operands and a second terminator, and keeps
  global names and struct bodies unique.\<close>

definition otype :: "obj \<Rightarrow> ty option" where
  "otype v = (case v of OVal x \<Rightarrow> Some (val_type x) | _ \<Rightarrow> None)"

definition int_ty :: "ty \<Rightarrow> bool" where
  "int_ty t = (case t of IntT _ \<Rightarrow> True | _ \<Rightarrow> False)"

definition const_index :: "obj \<Rightarrow> nat option" where
  "const_index i =
     (case i of
        OVal v \<Rightarrow> (case v of ConstV t c \<Rightarrow> (case c of CInt k \<Rightarrow> if 0 \<le> k then Some (nat k) else None | _ \<Rightarrow> None) | _ \<Rightarrow> None)
      | _ \<Rightarrow> None)"

fun std_gep :: "(string, ty list) dict \<Rightarrow> ty \<Rightarrow> obj list \<Rightarrow> ty option" where
  "std_gep structs t [] = Some (PtrT t)"
| "std_gep structs t (i # is) =
     (case t of
        StructT n \<Rightarrow>
          (case (dict_get structs n, const_index i) of
             (Some ts, Some k) \<Rightarrow> if k < length ts then std_gep structs (ts ! k) is else None
           | _ \<Rightarrow> None)
      | ArrT u n \<Rightarrow> (case otype i of Some (IntT w) \<Rightarrow> std_gep structs u is | _ \<Rightarrow> None)
      | _ \<Rightarrow> None)"

fun std_type :: "(string, ty list) dict \<Rightarrow> instr \<Rightarrow> ty option" where
  "std_type structs (Alloca t) = Some (PtrT t)"
| "std_type structs (Store v p) =
     (case (otype v, otype p) of (Some t, Some (PtrT u)) \<Rightarrow> if t = u then Some VoidT else None | _ \<Rightarrow> None)"
| "std_type structs (Load p) = (case otype p of Some (PtrT t) \<Rightarrow> Some t | _ \<Rightarrow> None)"
| "std_type structs (Bin _ a b) =
     (case (otype a, otype b) of (Some t, Some u) \<Rightarrow> if t = u \<and> int_ty t then Some t else None | _ \<Rightarrow> None)"
| "std_type structs (Icmp _ a b) =
     (case (otype a, otype b) of (Some t, Some u) \<Rightarrow> if t = u then Some (IntT 1) else None | _ \<Rightarrow> None)"
| "std_type structs (Gep p is _) =
     (case (otype p, is) of
        (Some (PtrT t), i # is') \<Rightarrow>
          (case otype i of Some (IntT _) \<Rightarrow> std_gep structs t is' | _ \<Rightarrow> None)
      | _ \<Rightarrow> None)"
| "std_type structs (PtrToInt p t) = (case otype p of Some (PtrT _) \<Rightarrow> Some t | _ \<Rightarrow> None)"
| "std_type structs (Bitcast p t) = (case otype p of Some (PtrT _) \<Rightarrow> Some t | _ \<Rightarrow> None)"
| "std_type structs (CallI f args) =
     (case otype f of
        Some (PtrT (FunT r ts va)) \<Rightarrow>
          if map otype (take (length ts) args) = map Some ts \<and>
             (if va then length ts \<le> length args else length args = length ts)
          then Some r else None
      | _ \<Rightarrow> None)"
| "std_type structs (CBr c _ _) = (if otype c = Some (IntT 1) then Some VoidT else None)"
| "std_type structs (Ret v) = Some VoidT"
| "std_type structs RetVoid = Some VoidT"
| "std_type structs (Br _) = Some VoidT"
| "std_type structs Unreachable = Some VoidT"

definition std_llapi :: llapi where
  "std_llapi =
     \<lparr>build = (\<lambda>structs code i.
        if terminator i \<and> list_ex terminator code then None else std_type structs i),
      terminated = list_ex terminator,
      register = (\<lambda>names n. n \<notin> set names),
      define_struct = (\<lambda>old new. old = None),
      global_gep = (\<lambda>t. case t of ArrT u n \<Rightarrow> Some (PtrT u) | _ \<Rightarrow> None),
      target_data = (\<lambda>triple. None)\<rparr>"

end
