(* ===== verification/CompilerState.thy ===== *)
theory CompilerState
  imports Llvm
begin

text \<open>
  The state of \<open>compiler.Compiler\<close> (\<open>compiler.py\<close>) and the operations everything else
  is made of: the attributes of the object and of the \<open>ir.Module\<close> it fills as one record,
  emission of an instruction at the builder's position, creation of functions, blocks and
  private globals, the constructor \<open>__init__\<close>, and the encoding of string literals.
\<close>

section \<open>State\<close>

text \<open>A function and a basic block of the module under construction. A block knows its function;
  \<open>blk_code\<close> holds each instruction with its number.\<close>

record fn =
  fn_name :: string
  fn_type :: ty

record blk =
  blk_fn :: nat
  blk_name :: string
  blk_code :: "(nat \<times> instr) list"

text \<open>A private global: its declared value type, the bytes of its initializer, and whether it is
  marked constant.\<close>

record data =
  d_name :: string
  d_type :: ty
  d_init :: "nat list"
  d_const :: bool

type_synonym layout = "(string, nat \<times> ty) dict"

type_synonym fundef = "params \<times> stmt list \<times> expr option"

record cstate =
  cs_types :: "(string, ty) dict"
  cs_globals :: "(string, val) dict"
  cs_locals :: "(string, val) dict"
  cs_layouts :: "(string, layout) dict"
  cs_arena_tags :: "(string, nat) dict"
  cs_arena :: nat
  cs_counter :: nat
  cs_handle :: "fundef option"
  cs_init_stmts :: "stmt list"
  cs_builder :: "nat option"
  cs_structs :: "(string, ty list) dict"
  cs_funcs :: "fn list"
  cs_blocks :: "blk list"
  cs_data :: "data list"
  cs_names :: "string list"
  cs_next :: nat
  cs_triple :: string
  cs_data_layout :: string

type_synonym 'a cm = "(cstate, 'a) sm"

definition ARENA_STATIC :: nat where
  "ARENA_STATIC = 0"

definition ARENA_REQ :: nat where
  "ARENA_REQ = 1"

section \<open>Dictionary lookups that raise\<close>

definition types_get :: "string \<Rightarrow> ty cm" where
  "types_get k s =
     (case dict_get (cs_types s) k of None \<Rightarrow> Inl (KeyError k) | Some t \<Rightarrow> Inr (t, s))"

definition global_get :: "string \<Rightarrow> val cm" where
  "global_get k s =
     (case dict_get (cs_globals s) k of None \<Rightarrow> Inl (KeyError k) | Some v \<Rightarrow> Inr (v, s))"

definition layout_get :: "string \<Rightarrow> layout cm" where
  "layout_get k s =
     (case dict_get (cs_layouts s) k of None \<Rightarrow> Inl (KeyError k) | Some l \<Rightarrow> Inr (l, s))"

definition field_get :: "layout \<Rightarrow> string \<Rightarrow> (nat \<times> ty) res" where
  "field_get l k = (case dict_get l k of None \<Rightarrow> Inl (KeyError k) | Some f \<Rightarrow> Inr f)"

section \<open>The builder\<close>

text \<open>\<open>self.builder.block\<close> and \<open>self.builder.function\<close>; before the first function there is
  no builder.\<close>

definition cur_block :: "nat cm" where
  "cur_block s =
     (case cs_builder s of None \<Rightarrow> Inl (AttributeError ''NoneType: block'') | Some b \<Rightarrow> Inr (b, s))"

definition cur_function :: "nat cm" where
  "cur_function s =
     (case cs_builder s of
        None \<Rightarrow> Inl (AttributeError ''NoneType: function'')
      | Some b \<Rightarrow> Inr (blk_fn (cs_blocks s ! b), s))"

definition block_code :: "cstate \<Rightarrow> nat \<Rightarrow> instr list" where
  "block_code s b = map snd (blk_code (cs_blocks s ! b))"

definition push_instr :: "nat \<Rightarrow> instr \<Rightarrow> cstate \<Rightarrow> cstate" where
  "push_instr b i s =
     s\<lparr>cs_blocks := (cs_blocks s)[b := (cs_blocks s ! b)\<lparr>blk_code :=
          blk_code (cs_blocks s ! b) @ [(cs_next s, i)]\<rparr>],
       cs_next := Suc (cs_next s)\<rparr>"

definition emit :: "llapi \<Rightarrow> instr \<Rightarrow> val cm" where
  "emit L i s =
     (case cs_builder s of
        None \<Rightarrow> Inl (AttributeError ''NoneType: builder method'')
      | Some b \<Rightarrow>
          (case build L (cs_structs s) (block_code s b) i of
             None \<Rightarrow> Inl (LlvmliteError ''builder method'')
           | Some t \<Rightarrow> Inr (InstrV (cs_next s) t, push_instr b i s)))"

definition emit_obj :: "llapi \<Rightarrow> instr \<Rightarrow> obj cm" where
  "emit_obj L i = bindS (emit L i) (\<lambda>v. retS (OVal v))"

definition emit_unit :: "llapi \<Rightarrow> instr \<Rightarrow> unit cm" where
  "emit_unit L i = bindS (emit L i) (\<lambda>_. retS ())"

definition is_terminated :: "llapi \<Rightarrow> bool cm" where
  "is_terminated L = bindS cur_block (\<lambda>b. getS (\<lambda>s. terminated L (block_code s b)))"

definition position_at_end :: "nat \<Rightarrow> unit cm" where
  "position_at_end b = modS (\<lambda>s. s\<lparr>cs_builder := Some b\<rparr>)"

definition append_block :: "nat \<Rightarrow> string \<Rightarrow> nat cm" where
  "append_block f n s =
     Inr (length (cs_blocks s),
          s\<lparr>cs_blocks := cs_blocks s @ [\<lparr>blk_fn = f, blk_name = n, blk_code = []\<rparr>]\<rparr>)"

section \<open>Module-level objects\<close>

definition register_name :: "llapi \<Rightarrow> string \<Rightarrow> unit cm" where
  "register_name L n s =
     (if register L (cs_names s) n then Inr ((), s\<lparr>cs_names := cs_names s @ [n]\<rparr>)
      else Inl (LlvmliteError (''DuplicatedNameError: '' @ n)))"

text \<open>\<open>ir.Function(self.module, type, name=n)\<close>: its number and the value.\<close>

definition new_function :: "llapi \<Rightarrow> string \<Rightarrow> ty \<Rightarrow> (nat \<times> val) cm" where
  "new_function L n t =
     bindS (register_name L n) (\<lambda>_ s.
       Inr ((length (cs_funcs s), FuncV n (PtrT t)),
            s\<lparr>cs_funcs := cs_funcs s @ [\<lparr>fn_name = n, fn_type = t\<rparr>]\<rparr>))"

text \<open>A private \<open>ir.GlobalVariable\<close> with an initializer, and the pointer to its first
  element.\<close>

definition new_data :: "llapi \<Rightarrow> string \<Rightarrow> ty \<Rightarrow> nat list \<Rightarrow> bool \<Rightarrow> val cm" where
  "new_data L n t bytes const =
     bindS (register_name L n) (\<lambda>_ s.
       case global_gep L t of
         None \<Rightarrow> Inl (LlvmliteError ''gep'')
       | Some u \<Rightarrow>
           Inr (GlobalV n u,
                s\<lparr>cs_data := cs_data s @
                  [\<lparr>d_name = n, d_type = t, d_init = bytes, d_const = const\<rparr>]\<rparr>))"

definition set_global :: "string \<Rightarrow> val \<Rightarrow> unit cm" where
  "set_global k v = modS (\<lambda>s. s\<lparr>cs_globals := dict_set k v (cs_globals s)\<rparr>)"

definition set_local :: "string \<Rightarrow> val \<Rightarrow> unit cm" where
  "set_local k v = modS (\<lambda>s. s\<lparr>cs_locals := dict_set k v (cs_locals s)\<rparr>)"

definition set_type :: "string \<Rightarrow> ty \<Rightarrow> unit cm" where
  "set_type k t = modS (\<lambda>s. s\<lparr>cs_types := dict_set k t (cs_types s)\<rparr>)"

definition next_name :: "string \<Rightarrow> string cm" where
  "next_name prefix =
     bindS (modS (\<lambda>s. s\<lparr>cs_counter := Suc (cs_counter s)\<rparr>)) (\<lambda>_.
       getS (\<lambda>s. prefix @ nat_str (cs_counter s)))"

section \<open>Bytes of a string\<close>

text \<open>\<open>bytearray(s, 'utf8')\<close>: a lone surrogate cannot be encoded.\<close>

definition utf8_char :: "nat \<Rightarrow> nat list res" where
  "utf8_char c =
     (if c < 128 then Inr [c]
      else if c < 2048 then Inr [192 + c div 64, 128 + c mod 64]
      else if 55296 \<le> c \<and> c < 57344 then Inl (ValueError ''surrogates not allowed'')
      else if c < 65536 then Inr [224 + c div 4096, 128 + c div 64 mod 64, 128 + c mod 64]
      else Inr [240 + c div 262144, 128 + c div 4096 mod 64, 128 + c div 64 mod 64, 128 + c mod 64])"

definition utf8 :: "nat list \<Rightarrow> nat list res" where
  "utf8 cs = bindR (mapR utf8_char cs) (\<lambda>bs. Inr (concat bs))"

definition name_bytes :: "string \<Rightarrow> nat list" where
  "name_bytes n = map of_char n @ [0]"

section \<open>The constructor\<close>

definition i8_ptr :: ty where
  "i8_ptr = PtrT (IntT 8)"

definition LAMBDA_TRIPLE :: string where
  "LAMBDA_TRIPLE = ''x86_64-unknown-linux-gnu''"

definition LAMBDA_DATA_LAYOUT :: string where
  "LAMBDA_DATA_LAYOUT =
     ''e-m:e-p270:32:32-p271:32:32-p272:64:64-i64:64-i128:128-f80:128-n8:16:32:64-S128''"

definition initial_types :: "(string, ty) dict" where
  "initial_types =
     [(''int'', IntT 64), (''float'', DoubleT), (''None'', VoidT), (''__ptr__'', i8_ptr)]"

definition empty_cstate :: cstate where
  "empty_cstate =
     \<lparr>cs_types = initial_types, cs_globals = [], cs_locals = [], cs_layouts = [],
      cs_arena_tags = [], cs_arena = ARENA_STATIC, cs_counter = 0, cs_handle = None,
      cs_init_stmts = [], cs_builder = None, cs_structs = [], cs_funcs = [], cs_blocks = [],
      cs_data = [], cs_names = [], cs_next = 0, cs_triple = [], cs_data_layout = []\<rparr>"

definition declare_function :: "llapi \<Rightarrow> string \<Rightarrow> ty \<Rightarrow> val cm" where
  "declare_function L n t =
     bindS (new_function L n t) (\<lambda>(i, f). bindS (set_global n f) (\<lambda>_. retS f))"

definition compiler_init :: "llapi \<Rightarrow> string option \<Rightarrow> unit cm" where
  "compiler_init L target_triple =
     (let triple = (case target_triple of
                      None \<Rightarrow> LAMBDA_TRIPLE | Some t \<Rightarrow> if t = [] then LAMBDA_TRIPLE else t)
      in
        bindS (if triple = LAMBDA_TRIPLE then retS LAMBDA_DATA_LAYOUT
               else case target_data L triple of
                      None \<Rightarrow> raiseS (LlvmliteError ''Target.from_triple'')
                    | Some d \<Rightarrow> retS d) (\<lambda>data_layout.
        bindS (modS (\<lambda>s. s\<lparr>cs_triple := triple, cs_data_layout := data_layout\<rparr>)) (\<lambda>_.
        bindS (new_data L ''.str.__main__'' (ArrT (IntT 8) 9) (name_bytes ''__main__'') False) (\<lambda>p.
        bindS (set_global ''__name__'' p) (\<lambda>_.
        bindS (declare_function L ''malloc'' (FunT i8_ptr [IntT 64] False)) (\<lambda>_.
        bindS (declare_function L ''memcpy'' (FunT i8_ptr [i8_ptr, i8_ptr, IntT 64] False)) (\<lambda>_.
        bindS (declare_function L ''lambpie_arena_alloc'' (FunT i8_ptr [IntT 32, IntT 64] False)) (\<lambda>_.
          retS ()))))))))"

end
