(* ===== verification/CompilerExpr.thy ===== *)
theory CompilerExpr
  imports CompilerState
begin

text \<open>
  Type annotations and expressions: \<open>_get_type\<close> and the visitor methods of
  \<open>compiler.Compiler\<close> for expression nodes, with the string coercion of constructor
  arguments.
\<close>

section \<open>Type annotations\<close>

text \<open>The element count of \<open>array[T, N]\<close>: an integer literal, and \<open>bool\<close> is a subclass of
  \<open>int\<close>.\<close>

definition array_count :: "expr \<Rightarrow> int res" where
  "array_count e =
     (case e of
        Constant (CInt n) \<Rightarrow> Inr n
      | Constant (CBool b) \<Rightarrow> Inr (if b then 1 else 0)
      | _ \<Rightarrow> Inl (TypeError ''array[T, N]: N must be an integer literal''))"

fun get_type :: "expr \<Rightarrow> ty cm" where
  "get_type (Name n) =
     (if n = ''bytes'' then types_get ''__ptr__''
      else
        bindS (getS (\<lambda>s. dict_get (cs_types s) n)) (\<lambda>known.
          case known of
            Some t \<Rightarrow> retS t
          | None \<Rightarrow>
              bindS (getS (\<lambda>s. n \<in> set (dict_keys (cs_layouts s)))) (\<lambda>is_class.
                if is_class
                then bindS (set_type n (PtrT (StructT n))) (\<lambda>_. retS (PtrT (StructT n)))
                else raiseS (TypeError (''Unknown type: '' @ n)))))"
| "get_type (Constant c) =
     (if c = CNone then types_get ''None'' else raiseS (TypeError ''Unsupported type annotation''))"
| "get_type (Subscript value slice) =
     (case value of
        Name head \<Rightarrow>
          if head = ''ptr'' then bindS (get_type slice) (\<lambda>t. retS (PtrT t))
          else if head = ''array'' then
            (case slice of
               Tuple [elem, cnt] \<Rightarrow>
                 bindS (get_type elem) (\<lambda>t. bindS (liftS (array_count cnt)) (\<lambda>n. retS (ArrT t n)))
             | Index (Tuple [elem, cnt]) \<Rightarrow>
                 bindS (get_type elem) (\<lambda>t. bindS (liftS (array_count cnt)) (\<lambda>n. retS (ArrT t n)))
             | _ \<Rightarrow> raiseS (TypeError ''array[T, N]: expected two-element subscript''))
          else raiseS (TypeError (''Unknown subscript type annotation head: '' @ head))
      | _ \<Rightarrow> raiseS (TypeError ''Unsupported subscript type annotation''))"
| "get_type (Index e) = get_type e"
| "get_type e = raiseS (TypeError ''Unsupported type annotation'')"

text \<open>A missing annotation is \<open>None\<close>, which is not an AST node.\<close>

definition get_type_opt :: "expr option \<Rightarrow> ty cm" where
  "get_type_opt a =
     (case a of None \<Rightarrow> raiseS (TypeError ''expected AST, got NoneType'') | Some e \<Rightarrow> get_type e)"

section \<open>Literals and names\<close>

definition visit_Constant :: "llapi \<Rightarrow> const \<Rightarrow> obj cm" where
  "visit_Constant L c =
     (case c of
        CInt n \<Rightarrow> bindS (types_get ''int'') (\<lambda>t. retS (OVal (ConstV t c)))
      | CBool b \<Rightarrow> bindS (types_get ''int'') (\<lambda>t. retS (OVal (ConstV t c)))
      | CStr cps \<Rightarrow>
          bindS (liftS (utf8 (cps @ [0]))) (\<lambda>bytes.
          bindS (next_name ''.str.'') (\<lambda>name.
          bindS (new_data L name (ArrT (IntT 8) (int (length cps + 1))) bytes False) (\<lambda>p.
            retS (OVal p))))
      | CBytes bs \<Rightarrow>
          bindS (next_name ''.bytes.'') (\<lambda>name.
          bindS (new_data L name (ArrT (IntT 8) (int (length bs))) bs True) (\<lambda>p.
            retS (OVal p)))
      | _ \<Rightarrow> retS ONone)"

definition visit_Name :: "llapi \<Rightarrow> string \<Rightarrow> obj cm" where
  "visit_Name L n =
     bindS (getS (\<lambda>s. dict_get (cs_locals s) n)) (\<lambda>loc.
       case loc of
         Some alloc \<Rightarrow>
           (case val_type alloc of
              PtrT (ArrT _ _) \<Rightarrow> retS (OVal alloc)
            | _ \<Rightarrow> emit_obj L (Load (OVal alloc)))
       | None \<Rightarrow>
           bindS (getS (\<lambda>s. dict_get (cs_globals s) n)) (\<lambda>glob.
             case glob of
               Some v \<Rightarrow> retS (OVal v)
             | None \<Rightarrow>
                 bindS (getS (\<lambda>s. dict_get (cs_types s) n)) (\<lambda>typ.
                   case typ of
                     Some t \<Rightarrow> retS (OType t)
                   | None \<Rightarrow> raiseS (NameError (''Name not found in any scope: '' @ n)))))"

section \<open>Operators\<close>

definition opcode_of :: "operator \<Rightarrow> opcode option" where
  "opcode_of op =
     (case op of
        Add \<Rightarrow> Some OpAdd | Sub \<Rightarrow> Some OpSub | Mult \<Rightarrow> Some OpMul
      | BitAnd \<Rightarrow> Some OpAnd | BitOr \<Rightarrow> Some OpOr | BitXor \<Rightarrow> Some OpXor
      | LShift \<Rightarrow> Some OpShl | RShift \<Rightarrow> Some OpLshr | Mod \<Rightarrow> Some OpSrem
      | _ \<Rightarrow> None)"

definition icmp_of :: "cmpop \<Rightarrow> icmp option" where
  "icmp_of op =
     (case op of
        Eq \<Rightarrow> Some IcmpEq | NotEq \<Rightarrow> Some IcmpNe | Lt \<Rightarrow> Some IcmpLt
      | LtE \<Rightarrow> Some IcmpLe | Gt \<Rightarrow> Some IcmpGt | GtE \<Rightarrow> Some IcmpGe
      | _ \<Rightarrow> None)"

definition visit_binop :: "llapi \<Rightarrow> operator \<Rightarrow> obj \<Rightarrow> obj \<Rightarrow> obj cm" where
  "visit_binop L op lhs rhs =
     (case opcode_of op of
        Some oc \<Rightarrow> emit_obj L (Bin oc lhs rhs)
      | None \<Rightarrow> raiseS (NotImplementedError ''Unsupported binary operator''))"

definition visit_unaryop :: "llapi \<Rightarrow> unaryop \<Rightarrow> obj \<Rightarrow> obj cm" where
  "visit_unaryop L op operand =
     (case op of
        Invert \<Rightarrow>
          bindS (liftS (obj_type operand)) (\<lambda>t.
            emit_obj L (Bin OpXor operand (OVal (ConstV t (CInt (-1))))))
      | USub \<Rightarrow>
          bindS (liftS (obj_type operand)) (\<lambda>t.
            emit_obj L (Bin OpSub (OVal (ConstV t (CInt 0))) operand))
      | UAdd \<Rightarrow> retS operand
      | UNot \<Rightarrow> raiseS (NotImplementedError ''Unsupported unary operator''))"

definition visit_icmp :: "llapi \<Rightarrow> cmpop \<Rightarrow> obj \<Rightarrow> obj \<Rightarrow> obj cm" where
  "visit_icmp L op lhs rhs =
     (case icmp_of op of
        Some c \<Rightarrow> emit_obj L (Icmp c lhs rhs)
      | None \<Rightarrow> raiseS (NotImplementedError ''Unsupported comparison operator''))"

section \<open>Objects\<close>

abbreviation i32c :: "nat \<Rightarrow> obj" where
  "i32c k \<equiv> OVal (ConstV (IntT 32) (CInt (int k)))"

text \<open>\<open>gep(ptr, [0, k], inbounds=True)\<close> on a struct pointer.\<close>

definition struct_gep :: "llapi \<Rightarrow> obj \<Rightarrow> nat \<Rightarrow> val cm" where
  "struct_gep L p k = emit L (Gep p [i32c 0, i32c k] True)"

definition store_field :: "llapi \<Rightarrow> obj \<Rightarrow> nat \<Rightarrow> obj \<Rightarrow> unit cm" where
  "store_field L p k v = bindS (struct_gep L p k) (\<lambda>q. emit_unit L (Store v (OVal q)))"

text \<open>The size of the object behind the pointer type \<open>t\<close> (the address of element 1 of a null
  pointer), and an object of that size from the arena \<open>tag\<close>, cast to its type.\<close>

definition object_size :: "llapi \<Rightarrow> ty \<Rightarrow> ty \<Rightarrow> val cm" where
  "object_size L t int_t =
     bindS (emit L (Gep (OVal (NullV t)) [i32c 1] False)) (\<lambda>size_ptr.
       emit L (PtrToInt (OVal size_ptr) int_t))"

definition object_at :: "llapi \<Rightarrow> ty \<Rightarrow> nat \<Rightarrow> val \<Rightarrow> val \<Rightarrow> val cm" where
  "object_at L t tag arena_alloc sz =
     bindS (emit L (CallI (OVal arena_alloc) [i32c tag, OVal sz])) (\<lambda>raw.
       emit L (Bitcast (OVal raw) t))"

definition alloc_object :: "llapi \<Rightarrow> ty \<Rightarrow> nat \<Rightarrow> val cm" where
  "alloc_object L t tag =
     bindS (types_get ''int'') (\<lambda>int_t.
     bindS (object_size L t int_t) (\<lambda>sz.
     bindS (global_get ''lambpie_arena_alloc'') (\<lambda>arena_alloc.
       object_at L t tag arena_alloc sz)))"

definition is_str_type :: "ty \<Rightarrow> bool" where
  "is_str_type t \<longleftrightarrow> t = PtrT (StructT ''str'')"

definition wrap_cstr_to_str :: "llapi \<Rightarrow> obj \<Rightarrow> obj cm" where
  "wrap_cstr_to_str L i8ptr =
     bindS (types_get ''str'') (\<lambda>str_t.
     bindS (getS cs_arena) (\<lambda>tag.
     bindS (alloc_object L str_t tag) (\<lambda>str_ptr.
     bindS (layout_get ''str'') (\<lambda>layout.
     bindS (liftS (field_get layout ''__ref_count__'')) (\<lambda>rc.
     bindS (store_field L (OVal str_ptr) (fst rc) (i32c 1)) (\<lambda>_.
     bindS (global_get ''strlen'') (\<lambda>strlen_fn.
     bindS (emit L (CallI (OVal strlen_fn) [i8ptr])) (\<lambda>length_val.
     bindS (liftS (field_get layout ''len'')) (\<lambda>len_f.
     bindS (store_field L (OVal str_ptr) (fst len_f) (OVal length_val)) (\<lambda>_.
     bindS (liftS (field_get layout ''buffer'')) (\<lambda>buf_f.
     bindS (store_field L (OVal str_ptr) (fst buf_f) i8ptr) (\<lambda>_.
       retS (OVal str_ptr)))))))))))))"

definition coerce_arg :: "llapi \<Rightarrow> obj \<Rightarrow> ty \<Rightarrow> obj cm" where
  "coerce_arg L value expected =
     (if is_str_type expected
      then bindS (liftS (obj_type value)) (\<lambda>t.
             if t = i8_ptr then wrap_cstr_to_str L value else retS value)
      else retS value)"

text \<open>The arguments of a constructor call against the parameter types after \<open>self\<close>.\<close>

fun coerce_args :: "llapi \<Rightarrow> obj list \<Rightarrow> ty list \<Rightarrow> obj list cm" where
  "coerce_args L [] ts = retS []"
| "coerce_args L (v # vs) [] = raiseS (IndexError ''tuple index out of range'')"
| "coerce_args L (v # vs) (t # ts) =
     bindS (coerce_arg L v t) (\<lambda>w. bindS (coerce_args L vs ts) (\<lambda>ws. retS (w # ws)))"

definition call_init :: "llapi \<Rightarrow> val \<Rightarrow> val \<Rightarrow> obj list \<Rightarrow> unit cm" where
  "call_init L init_func obj_ptr raw_args =
     bindS (liftS (bindR (ty_pointee (val_type init_func)) ty_args)) (\<lambda>params.
     bindS (coerce_args L raw_args (drop 1 params)) (\<lambda>args.
       emit_unit L (CallI (OVal init_func) (OVal obj_ptr # args))))"

text \<open>Attribute access on the visited object: a method by its mangled name first, then a field.\<close>

definition visit_attr :: "llapi \<Rightarrow> string \<Rightarrow> obj \<Rightarrow> obj cm" where
  "visit_attr L attr ob =
     bindS (liftS (bindR (obj_type ob) (\<lambda>t. bindR (ty_pointee t) ty_name))) (\<lambda>type_name.
     bindS (getS (\<lambda>s. dict_get (cs_globals s) (type_name @ ''_'' @ attr))) (\<lambda>method.
       case (ob, method) of
         (OVal v, Some m) \<Rightarrow> retS (OMethod v m)
       | _ \<Rightarrow>
           bindS (getS (\<lambda>s. dict_get (cs_layouts s) type_name)) (\<lambda>layout.
             case Option.bind layout (\<lambda>l. dict_get l attr) of
               Some (k, t) \<Rightarrow> bindS (struct_gep L ob k) (\<lambda>p. emit_obj L (Load (OVal p)))
             | None \<Rightarrow> raiseS (NameError (''Attribute not found: '' @ type_name @ ''.'' @ attr)))))"

text \<open>The address of an element: through an extra zero index for a stack array.\<close>

definition element_addr :: "llapi \<Rightarrow> obj \<Rightarrow> obj \<Rightarrow> val cm" where
  "element_addr L p idx =
     bindS (liftS (obj_type p)) (\<lambda>t.
       case t of
         PtrT (ArrT _ _) \<Rightarrow> emit L (Gep p [OVal (ConstV (IntT 64) (CInt 0)), idx] True)
       | _ \<Rightarrow> emit L (Gep p [idx] True))"

section \<open>The expression visitor\<close>

fun visit_expr :: "llapi \<Rightarrow> expr \<Rightarrow> obj cm" where
  "visit_expr L (Name n) = visit_Name L n"
| "visit_expr L (Constant c) = visit_Constant L c"
| "visit_expr L (BinOp l op r) =
     bindS (visit_expr L l) (\<lambda>lhs. bindS (visit_expr L r) (\<lambda>rhs. visit_binop L op lhs rhs))"
| "visit_expr L (UnaryOp op e) = bindS (visit_expr L e) (visit_unaryop L op)"
| "visit_expr L (Compare l ops comparators) =
     bindS (visit_expr L l) (\<lambda>lhs.
       case ops of
         [op] \<Rightarrow>
           (case comparators of
              [] \<Rightarrow> raiseS (IndexError ''list index out of range'')
            | c # _ \<Rightarrow> bindS (visit_expr L c) (\<lambda>rhs. visit_icmp L op lhs rhs))
       | _ \<Rightarrow> raiseS (NotImplementedError ''Chained comparisons are not supported''))"
| "visit_expr L (Call f args kws) =
     bindS (visit_expr L f) (\<lambda>callee.
       case callee of
         OMethod ob m \<Rightarrow>
           bindS (mapS (visit_expr L) args) (\<lambda>vs. emit_obj L (CallI (OVal m) (OVal ob # vs)))
       | OType (PtrT (StructT C)) \<Rightarrow>
           bindS (getS cs_arena) (\<lambda>tag.
           bindS (alloc_object L (PtrT (StructT C)) tag) (\<lambda>obj_ptr.
           bindS (getS (\<lambda>s. dict_get (cs_globals s) (C @ ''___init__''))) (\<lambda>init.
             case init of
               None \<Rightarrow> retS (OVal obj_ptr)
             | Some init_func \<Rightarrow>
                 bindS (mapS (visit_expr L) args) (\<lambda>raw_args.
                 bindS (call_init L init_func obj_ptr raw_args) (\<lambda>_.
                   retS (OVal obj_ptr))))))
       | _ \<Rightarrow> bindS (mapS (visit_expr L) args) (\<lambda>vs. emit_obj L (CallI callee vs)))"
| "visit_expr L (Attribute e attr) = bindS (visit_expr L e) (visit_attr L attr)"
| "visit_expr L (Subscript e i) =
     bindS (visit_expr L e) (\<lambda>p.
     bindS (visit_expr L i) (\<lambda>idx.
     bindS (element_addr L p idx) (\<lambda>addr. emit_obj L (Load (OVal addr)))))"
| "visit_expr L (Index e) = visit_expr L e"
| "visit_expr L (Tuple es) = bindS (mapS (visit_expr L) es) (\<lambda>_. retS ONone)"
| "visit_expr L (OtherExpr c es) = bindS (mapS (visit_expr L) es) (\<lambda>_. retS ONone)"

end
