(* ===== verification/CompilerStmt.thy ===== *)
theory CompilerStmt
  imports CompilerExpr
begin

text \<open>
  The visitor methods of \<open>compiler.Compiler\<close> for statements: assignments, control flow,
  functions, classes with their generated \<open>__init__\<close>, C imports, and the module.
\<close>

section \<open>Assignments\<close>

definition target_name :: "expr \<Rightarrow> string res" where
  "target_name e = (case e of Name n \<Rightarrow> Inr n | _ \<Rightarrow> Inl (AttributeError ''id''))"

definition visit_AnnAssign :: "llapi \<Rightarrow> expr \<Rightarrow> expr \<Rightarrow> expr option \<Rightarrow> unit cm" where
  "visit_AnnAssign L target annotation value =
     bindS (liftS (target_name target)) (\<lambda>var.
     bindS (get_type annotation) (\<lambda>t.
     bindS (emit L (Alloca t)) (\<lambda>alloc.
     bindS (set_local var alloc) (\<lambda>_.
     bindS (case value of
              None \<Rightarrow> retS ()
            | Some e \<Rightarrow>
                (case t of
                   ArrT _ _ \<Rightarrow> raiseS (NotImplementedError ''Array variable: initializer not supported'')
                 | _ \<Rightarrow>
                     bindS (visit_expr L e) (\<lambda>v. emit_unit L (Store v (OVal alloc))))) (\<lambda>_.
       modS (\<lambda>s. s\<lparr>cs_arena_tags := dict_set var (cs_arena s) (cs_arena_tags s)\<rparr>))))))"

definition visit_Assign :: "llapi \<Rightarrow> expr list \<Rightarrow> expr \<Rightarrow> unit cm" where
  "visit_Assign L targets value =
     (case targets of
        [] \<Rightarrow> raiseS (IndexError ''list index out of range'')
      | Subscript e i # _ \<Rightarrow>
          bindS (visit_expr L e) (\<lambda>p.
          bindS (visit_expr L i) (\<lambda>idx.
          bindS (element_addr L p idx) (\<lambda>addr.
          bindS (visit_expr L value) (\<lambda>v. emit_unit L (Store v (OVal addr))))))
      | Name n # _ \<Rightarrow>
          bindS (getS (\<lambda>s. dict_get (cs_locals s) n)) (\<lambda>loc.
            case loc of
              None \<Rightarrow> raiseS (NameError (''Cannot assign to undeclared variable: '' @ n))
            | Some alloc \<Rightarrow>
                bindS (visit_expr L value) (\<lambda>v. emit_unit L (Store v (OVal alloc))))
      | _ \<Rightarrow> raiseS (NotImplementedError ''Unsupported assignment target''))"

definition visit_Return :: "llapi \<Rightarrow> expr option \<Rightarrow> unit cm" where
  "visit_Return L value =
     (case value of
        None \<Rightarrow> emit_unit L RetVoid
      | Some e \<Rightarrow> bindS (visit_expr L e) (\<lambda>v. emit_unit L (Ret v)))"

section \<open>Control flow\<close>

text \<open>\<open>if not self.builder.block.is_terminated: self.builder.branch(target)\<close>.\<close>

definition branch_if_open :: "llapi \<Rightarrow> nat \<Rightarrow> unit cm" where
  "branch_if_open L target =
     bindS (is_terminated L) (\<lambda>done. if done then retS () else emit_unit L (Br target))"

text \<open>The bodies are passed as the computations that visit them.\<close>

definition visit_If :: "llapi \<Rightarrow> expr \<Rightarrow> unit cm \<Rightarrow> unit cm option \<Rightarrow> unit cm" where
  "visit_If L test run_body run_orelse =
     bindS cur_function (\<lambda>f.
     bindS (append_block f ''if.entry'') (\<lambda>if_entry.
     bindS (append_block f ''if.then'') (\<lambda>then_block.
     bindS (case run_orelse of None \<Rightarrow> retS 0 | Some _ \<Rightarrow> append_block f ''if.else'') (\<lambda>else_block.
     bindS (append_block f ''if.end'') (\<lambda>merge_block.
     bindS (emit_unit L (Br if_entry)) (\<lambda>_.
     bindS (position_at_end if_entry) (\<lambda>_.
     bindS (visit_expr L test) (\<lambda>condition.
     bindS (emit_unit L (CBr condition then_block
              (case run_orelse of None \<Rightarrow> merge_block | Some _ \<Rightarrow> else_block))) (\<lambda>_.
     bindS (position_at_end then_block) (\<lambda>_.
     bindS run_body (\<lambda>_.
     bindS (branch_if_open L merge_block) (\<lambda>_.
     bindS (case run_orelse of
              None \<Rightarrow> retS ()
            | Some run_else \<Rightarrow>
                bindS (position_at_end else_block) (\<lambda>_.
                bindS run_else (\<lambda>_. branch_if_open L merge_block))) (\<lambda>_.
       position_at_end merge_block)))))))))))))"

definition visit_While :: "llapi \<Rightarrow> expr \<Rightarrow> unit cm \<Rightarrow> unit cm" where
  "visit_While L test run_body =
     bindS cur_function (\<lambda>f.
     bindS (append_block f ''loop.header'') (\<lambda>header_block.
     bindS (append_block f ''loop.body'') (\<lambda>body_block.
     bindS (append_block f ''loop.exit'') (\<lambda>exit_block.
     bindS (emit_unit L (Br header_block)) (\<lambda>_.
     bindS (position_at_end header_block) (\<lambda>_.
     bindS (visit_expr L test) (\<lambda>condition.
     bindS (emit_unit L (CBr condition body_block exit_block)) (\<lambda>_.
     bindS (position_at_end body_block) (\<lambda>_.
     bindS run_body (\<lambda>_.
     bindS (branch_if_open L header_block) (\<lambda>_.
       position_at_end exit_block)))))))))))"

section \<open>Functions\<close>

text \<open>A parameter of the function number \<open>f\<close>: a stack slot that holds the argument.\<close>

definition bind_param :: "llapi \<Rightarrow> nat \<Rightarrow> nat \<times> string \<times> ty \<Rightarrow> unit cm" where
  "bind_param L f p =
     (case p of (i, n, t) \<Rightarrow>
        bindS (emit L (Alloca t)) (\<lambda>alloc.
        bindS (emit_unit L (Store (OVal (ArgV f i t)) (OVal alloc))) (\<lambda>_.
          set_local n alloc)))"

definition visit_FunctionDef ::
  "llapi \<Rightarrow> string option \<Rightarrow> string \<Rightarrow> params \<Rightarrow> expr option \<Rightarrow> unit cm \<Rightarrow> unit cm" where
  "visit_FunctionDef L class_name name params returns run_body =
     (let func_name = (case class_name of None \<Rightarrow> name | Some C \<Rightarrow> C @ ''_'' @ name);
          ast_args = filter (\<lambda>(n, a). n \<noteq> ''self'') params
      in
        bindS (getS cs_arena) (\<lambda>saved_arena.
        bindS (if class_name = None \<and> name = ''handle''
               then modS (\<lambda>s. s\<lparr>cs_arena := ARENA_REQ\<rparr>) else retS ()) (\<lambda>_.
        bindS (get_type_opt returns) (\<lambda>return_type.
        bindS (case class_name of
                 None \<Rightarrow> retS []
               | Some C \<Rightarrow> bindS (types_get C) (\<lambda>t. retS [t])) (\<lambda>self_types.
        bindS (mapS (\<lambda>(n, a). get_type_opt a) ast_args) (\<lambda>arg_types.
        bindS (new_function L func_name (FunT return_type (self_types @ arg_types) False)) (\<lambda>(f, fv).
        bindS (set_global func_name fv) (\<lambda>_.
        bindS (append_block f ''entry'') (\<lambda>entry.
        bindS (position_at_end entry) (\<lambda>_.
        bindS (modS (\<lambda>s. s\<lparr>cs_locals := [], cs_arena_tags := []\<rparr>)) (\<lambda>_.
        bindS (iterS (bind_param L f)
                 (zip [0..<length (self_types @ arg_types)]
                   (zip ((if class_name = None then [] else [''self'']) @ map fst ast_args)
                        (self_types @ arg_types)))) (\<lambda>_.
        bindS run_body (\<lambda>_.
        bindS (is_terminated L) (\<lambda>done.
        bindS (if done then retS ()
               else if return_type \<noteq> VoidT then emit_unit L Unreachable
               else emit_unit L RetVoid) (\<lambda>_.
          modS (\<lambda>s. s\<lparr>cs_arena := saved_arena\<rparr>))))))))))))))))"

section \<open>Classes\<close>

text \<open>The fields of a layout other than the reference count, by index.\<close>

definition layout_fields :: "layout \<Rightarrow> (string \<times> nat \<times> ty) list" where
  "layout_fields layout =
     sort_key (\<lambda>(n, k, t). k) (filter (\<lambda>(n, k, t). n \<noteq> ''__ref_count__'') layout)"

definition generate_auto_init :: "llapi \<Rightarrow> string \<Rightarrow> layout \<Rightarrow> unit cm" where
  "generate_auto_init L C attributes =
     (let fields = layout_fields attributes;
          self_t = PtrT (StructT C);
          func_name = C @ ''___init__''
      in
        bindS (new_function L func_name (FunT VoidT (self_t # map (\<lambda>(n, k, t). t) fields) False)) (\<lambda>(f, fv).
        bindS (set_global func_name fv) (\<lambda>_.
        bindS (getS (\<lambda>s. (cs_builder s, cs_locals s))) (\<lambda>saved.
        bindS (append_block f ''entry'') (\<lambda>entry.
        bindS (position_at_end entry) (\<lambda>_.
        bindS (modS (\<lambda>s. s\<lparr>cs_locals := []\<rparr>)) (\<lambda>_.
        bindS (emit L (Alloca self_t)) (\<lambda>self_alloc.
        bindS (emit_unit L (Store (OVal (ArgV f 0 self_t)) (OVal self_alloc))) (\<lambda>_.
        bindS (emit L (Load (OVal self_alloc))) (\<lambda>self_ptr.
        bindS (liftS (field_get attributes ''__ref_count__'')) (\<lambda>rc.
        bindS (store_field L (OVal self_ptr) (fst rc) (i32c 1)) (\<lambda>_.
        bindS (iterS (\<lambda>(i, n, k, t). store_field L (OVal self_ptr) k (OVal (ArgV f (Suc i) t)))
                 (zip [0..<length fields] fields)) (\<lambda>_.
        bindS (emit_unit L RetVoid) (\<lambda>_.
          modS (\<lambda>s. s\<lparr>cs_builder := fst saved, cs_locals := snd saved\<rparr>)))))))))))))))"

text \<open>The loop over the annotated fields: the layout, the next index and the types of the body.\<close>

fun class_fields_loop :: "stmt list \<Rightarrow> layout \<Rightarrow> nat \<Rightarrow> ty list \<Rightarrow> (layout \<times> ty list) cm" where
  "class_fields_loop [] attributes k ts = retS (attributes, ts)"
| "class_fields_loop (AnnAssign target annotation v # body) attributes k ts =
     bindS (liftS (target_name target)) (\<lambda>n.
     bindS (get_type annotation) (\<lambda>t.
       class_fields_loop body (dict_set n (k, t) attributes) (Suc k) (ts @ [t])))"
| "class_fields_loop (st # body) attributes k ts = class_fields_loop body attributes k ts"

definition set_body :: "llapi \<Rightarrow> string \<Rightarrow> ty list \<Rightarrow> unit cm" where
  "set_body L C ts s =
     (if define_struct L (dict_get (cs_structs s) C) ts
      then Inr ((), s\<lparr>cs_structs := dict_set C ts (cs_structs s)\<rparr>)
      else Inl (LlvmliteError ''set_body''))"

definition has_init :: "stmt list \<Rightarrow> bool" where
  "has_init body =
     list_ex (\<lambda>st. case st of FunctionDef n ps b r \<Rightarrow> n = ''__init__'' | _ \<Rightarrow> False) body"

definition class_header :: "llapi \<Rightarrow> string \<Rightarrow> stmt list \<Rightarrow> unit cm" where
  "class_header L C body =
     bindS (class_fields_loop body [(''__ref_count__'', (0, IntT 32))] 1 [IntT 32]) (\<lambda>(attributes, ts).
     bindS (set_body L C ts) (\<lambda>_.
     bindS (set_type C (PtrT (StructT C))) (\<lambda>_.
     bindS (modS (\<lambda>s. s\<lparr>cs_layouts := dict_set C attributes (cs_layouts s)\<rparr>)) (\<lambda>_.
       if has_init body then retS () else generate_auto_init L C attributes))))"

section \<open>Imports\<close>

definition c_signatures :: "ty \<Rightarrow> ty \<Rightarrow> (string, ty) dict" where
  "c_signatures ptr_t int_t =
     [(''printf'', FunT (IntT 32) [ptr_t] True),
      (''atoi'', FunT int_t [ptr_t] False),
      (''strlen'', FunT int_t [ptr_t] False),
      (''free'', FunT VoidT [ptr_t] False)]"

definition import_c_name :: "llapi \<Rightarrow> string \<Rightarrow> unit cm" where
  "import_c_name L n =
     bindS (getS (\<lambda>s. n \<in> set (dict_keys (cs_globals s)))) (\<lambda>known.
       if known then retS ()
       else
         bindS (types_get ''__ptr__'') (\<lambda>ptr_t.
         bindS (types_get ''int'') (\<lambda>int_t.
           case dict_get (c_signatures ptr_t int_t) n of
             None \<Rightarrow> raiseS (TypeError (''Unknown C function signature: '' @ n))
           | Some t \<Rightarrow> bindS (declare_function L n t) (\<lambda>_. retS ()))))"

definition visit_ImportFrom :: "llapi \<Rightarrow> string option \<Rightarrow> string list \<Rightarrow> unit cm" where
  "visit_ImportFrom L module names =
     (if module = Some ''C'' then iterS (import_c_name L) names
      else raiseS (ImportError ''Unknown module''))"

section \<open>The statement visitor\<close>

fun visit_stmt :: "llapi \<Rightarrow> stmt \<Rightarrow> unit cm" where
  "visit_stmt L (FunctionDef name params body returns) =
     visit_FunctionDef L None name params returns (iterS (visit_stmt L) body)"
| "visit_stmt L (ClassDef C body) =
     bindS (class_header L C body) (\<lambda>_.
       iterS (\<lambda>st.
         case st of
           FunctionDef name params fbody returns \<Rightarrow>
             visit_FunctionDef L (Some C) name params returns (iterS (visit_stmt L) fbody)
         | _ \<Rightarrow> retS ()) body)"
| "visit_stmt L (ImportFrom module names) = visit_ImportFrom L module names"
| "visit_stmt L (Return value) = visit_Return L value"
| "visit_stmt L (ExprStmt e) = bindS (visit_expr L e) (\<lambda>_. retS ())"
| "visit_stmt L (AnnAssign target annotation value) = visit_AnnAssign L target annotation value"
| "visit_stmt L (Assign targets value) = visit_Assign L targets value"
| "visit_stmt L (If test body orelse) =
     visit_If L test (iterS (visit_stmt L) body)
       (if orelse = [] then None else Some (iterS (visit_stmt L) orelse))"
| "visit_stmt L (While test body orelse) = visit_While L test (iterS (visit_stmt L) body)"
| "visit_stmt L Pass = retS ()"
| "visit_stmt L (OtherStmt c children) =
     iterS (\<lambda>ch.
       case ch of
         ChildE e \<Rightarrow> bindS (visit_expr L e) (\<lambda>_. retS ())
       | ChildS st \<Rightarrow> visit_stmt L st) children"

section \<open>The module\<close>

definition main_cps :: "nat list" where
  "main_cps = map of_char ''__main__''"

definition is_main_block :: "stmt \<Rightarrow> bool" where
  "is_main_block st =
     (case st of
        If (Compare (Name n) [op] [Constant (CStr cps)]) body orelse \<Rightarrow>
          op = Eq \<and> n = ''__name__'' \<and> cps = main_cps
      | _ \<Rightarrow> False)"

definition visit_top :: "llapi \<Rightarrow> stmt \<Rightarrow> unit cm" where
  "visit_top L st =
     (if is_main_block st then retS ()
      else
        (case st of
           ClassDef C body \<Rightarrow> visit_stmt L st
         | ImportFrom m names \<Rightarrow> visit_stmt L st
         | FunctionDef name params body returns \<Rightarrow>
             (if name = ''handle''
              then modS (\<lambda>s. s\<lparr>cs_handle := Some (params, body, returns)\<rparr>)
              else visit_stmt L st)
         | AnnAssign t a v \<Rightarrow> modS (\<lambda>s. s\<lparr>cs_init_stmts := cs_init_stmts s @ [st]\<rparr>)
         | Assign ts v \<Rightarrow> modS (\<lambda>s. s\<lparr>cs_init_stmts := cs_init_stmts s @ [st]\<rparr>)
         | ExprStmt e \<Rightarrow> modS (\<lambda>s. s\<lparr>cs_init_stmts := cs_init_stmts s @ [st]\<rparr>)
         | _ \<Rightarrow> visit_stmt L st))"

definition visit_Module :: "llapi \<Rightarrow> stmt list \<Rightarrow> unit cm" where
  "visit_Module L body = iterS (visit_top L) body"

end
