(* ===== verification/CompilerEntry.thy ===== *)
theory CompilerEntry
  imports CompilerStmt
begin

text \<open>
  The entry points of \<open>compiler.Compiler\<close>: the synthesis of \<open>lambpie_init\<close> and
  \<open>lambpie_handle\<close> around the user's \<open>handle\<close>, the metadata, \<open>compile\<close>, and the
  part of \<open>main\<close> that is not I/O.
\<close>

section \<open>The JSON helpers\<close>

text \<open>The values of the C functions declared for the generated code.\<close>

record json_funcs =
  jf_get_str :: val
  jf_get_int :: val
  jf_open :: val
  jf_write_str :: val
  jf_write_int :: val
  jf_close :: val

definition declare_c :: "llapi \<Rightarrow> string \<Rightarrow> ty \<Rightarrow> ty list \<Rightarrow> val cm" where
  "declare_c L n r ts = bindS (new_function L n (FunT r ts False)) (\<lambda>(i, f). retS f)"

definition declare_json :: "llapi \<Rightarrow> ty \<Rightarrow> ty \<Rightarrow> json_funcs cm" where
  "declare_json L p i64 =
     bindS (declare_c L ''json_get_str'' p [p, i64, p, i64, PtrT i64]) (\<lambda>gs.
     bindS (declare_c L ''json_get_int'' i64 [p, i64, p, i64]) (\<lambda>gi.
     bindS (declare_c L ''json_open'' i64 [p, i64]) (\<lambda>jo.
     bindS (declare_c L ''json_write_str'' i64 [p, i64, p, i64, p, i64]) (\<lambda>ws.
     bindS (declare_c L ''json_write_int'' i64 [p, i64, p, i64, i64]) (\<lambda>wi.
     bindS (declare_c L ''json_close'' i64 [p, i64]) (\<lambda>jc.
       retS \<lparr>jf_get_str = gs, jf_get_int = gi, jf_open = jo, jf_write_str = ws,
             jf_write_int = wi, jf_close = jc\<rparr>))))))"

text \<open>The key constant of a field.\<close>

definition key_constant :: "llapi \<Rightarrow> string \<Rightarrow> val cm" where
  "key_constant L field =
     bindS (next_name ''.key.'') (\<lambda>name.
       new_data L name (ArrT (IntT 8) (int (length field + 1))) (name_bytes field) False)"

definition key_length :: "ty \<Rightarrow> string \<Rightarrow> obj" where
  "key_length i64 field = OVal (ConstV i64 (CInt (int (length field))))"

section \<open>Deserialization of the event\<close>

definition read_str_field ::
  "llapi \<Rightarrow> ty \<Rightarrow> val \<Rightarrow> json_funcs \<Rightarrow> obj \<Rightarrow> obj \<Rightarrow> obj \<Rightarrow> obj \<Rightarrow> obj \<Rightarrow> unit cm" where
  "read_str_field L i64 arena_alloc jf event_ptr event_len key key_len field_ptr =
     bindS (emit L (Alloca i64)) (\<lambda>out_len.
     bindS (emit L (CallI (OVal (jf_get_str jf)) [event_ptr, event_len, key, key_len, OVal out_len])) (\<lambda>str_data.
     bindS (emit L (Load (OVal out_len))) (\<lambda>str_len.
     bindS (types_get ''str'') (\<lambda>str_t.
     bindS (object_size L str_t i64) (\<lambda>sz.
     bindS (object_at L str_t ARENA_REQ arena_alloc sz) (\<lambda>str_struct.
     bindS (layout_get ''str'') (\<lambda>layout.
     bindS (liftS (field_get layout ''__ref_count__'')) (\<lambda>rc.
     bindS (store_field L (OVal str_struct) (fst rc) (i32c 1)) (\<lambda>_.
     bindS (liftS (field_get layout ''len'')) (\<lambda>len_f.
     bindS (store_field L (OVal str_struct) (fst len_f) (OVal str_len)) (\<lambda>_.
     bindS (liftS (field_get layout ''buffer'')) (\<lambda>buf_f.
     bindS (store_field L (OVal str_struct) (fst buf_f) (OVal str_data)) (\<lambda>_.
       emit_unit L (Store (OVal str_struct) field_ptr))))))))))))))"

definition read_field ::
  "llapi \<Rightarrow> ty \<Rightarrow> val \<Rightarrow> json_funcs \<Rightarrow> obj \<Rightarrow> obj \<Rightarrow> obj \<Rightarrow> string \<times> nat \<times> ty \<Rightarrow> unit cm" where
  "read_field L i64 arena_alloc jf event_ptr event_len event_struct fld =
     (case fld of (name, k, t) \<Rightarrow>
        bindS (key_constant L name) (\<lambda>key.
        bindS (struct_gep L event_struct k) (\<lambda>field_ptr.
          if is_str_type t then
            read_str_field L i64 arena_alloc jf event_ptr event_len (OVal key)
              (key_length i64 name) (OVal field_ptr)
          else if t = i64 then
            bindS (emit L (CallI (OVal (jf_get_int jf))
                     [event_ptr, event_len, OVal key, key_length i64 name])) (\<lambda>int_val.
              emit_unit L (Store (OVal int_val) (OVal field_ptr)))
          else raiseS (RuntimeError (''Unsupported event field type: '' @ name)))))"

section \<open>Serialization of the response\<close>

definition write_field ::
  "llapi \<Rightarrow> ty \<Rightarrow> json_funcs \<Rightarrow> obj \<Rightarrow> obj \<Rightarrow> string \<times> nat \<times> ty \<Rightarrow> obj \<Rightarrow> obj cm" where
  "write_field L i64 jf response_ptr response_struct fld pos =
     (case fld of (name, k, t) \<Rightarrow>
        bindS (key_constant L name) (\<lambda>key.
          if is_str_type t then
            bindS (struct_gep L response_struct k) (\<lambda>str_field_ptr.
            bindS (emit L (Load (OVal str_field_ptr))) (\<lambda>str_struct.
            bindS (layout_get ''str'') (\<lambda>layout.
            bindS (liftS (field_get layout ''buffer'')) (\<lambda>buf_f.
            bindS (struct_gep L (OVal str_struct) (fst buf_f)) (\<lambda>buf_ptr.
            bindS (emit L (Load (OVal buf_ptr))) (\<lambda>buf_val.
            bindS (liftS (field_get layout ''len'')) (\<lambda>len_f.
            bindS (struct_gep L (OVal str_struct) (fst len_f)) (\<lambda>len_ptr.
            bindS (emit L (Load (OVal len_ptr))) (\<lambda>len_val.
              emit_obj L (CallI (OVal (jf_write_str jf))
                [response_ptr, pos, OVal key, key_length i64 name, OVal buf_val, OVal len_val]))))))))))
          else if t = i64 then
            bindS (struct_gep L response_struct k) (\<lambda>int_field_ptr.
            bindS (emit L (Load (OVal int_field_ptr))) (\<lambda>int_val.
              emit_obj L (CallI (OVal (jf_write_int jf))
                [response_ptr, pos, OVal key, key_length i64 name, OVal int_val])))
          else raiseS (RuntimeError (''Unsupported response field type: '' @ name))))"

fun write_fields ::
  "llapi \<Rightarrow> ty \<Rightarrow> json_funcs \<Rightarrow> obj \<Rightarrow> obj \<Rightarrow> (string \<times> nat \<times> ty) list \<Rightarrow> obj \<Rightarrow> obj cm" where
  "write_fields L i64 jf response_ptr response_struct [] pos = retS pos"
| "write_fields L i64 jf response_ptr response_struct (fld # flds) pos =
     bindS (write_field L i64 jf response_ptr response_struct fld pos) (\<lambda>pos'.
       write_fields L i64 jf response_ptr response_struct flds pos')"

section \<open>The two entry functions\<close>

definition synthesize_init :: "llapi \<Rightarrow> unit cm" where
  "synthesize_init L =
     bindS (new_function L ''lambpie_init'' (FunT VoidT [] False)) (\<lambda>(f, fv).
     bindS (append_block f ''entry'') (\<lambda>entry.
     bindS (position_at_end entry) (\<lambda>_.
     bindS (modS (\<lambda>s. s\<lparr>cs_locals := [], cs_arena := ARENA_STATIC\<rparr>)) (\<lambda>_.
     bindS (getS cs_init_stmts) (\<lambda>init_stmts.
     bindS (iterS (visit_stmt L) init_stmts) (\<lambda>_.
     bindS (is_terminated L) (\<lambda>done.
       if done then retS () else emit_unit L RetVoid)))))))"

definition synthesize_handle ::
  "llapi \<Rightarrow> ty \<Rightarrow> ty \<Rightarrow> json_funcs \<Rightarrow> ty \<Rightarrow> layout \<Rightarrow> layout \<Rightarrow> unit cm" where
  "synthesize_handle L p i64 jf event_t event_layout response_layout =
     bindS (new_function L ''lambpie_handle'' (FunT i64 [p, i64, p, i64] False)) (\<lambda>(f, fv).
     bindS (append_block f ''entry'') (\<lambda>entry.
     bindS (position_at_end entry) (\<lambda>_.
     bindS (modS (\<lambda>s. s\<lparr>cs_locals := [], cs_arena := ARENA_REQ\<rparr>)) (\<lambda>_.
     let event_ptr = OVal (ArgV f 0 p); event_len = OVal (ArgV f 1 i64);
         response_ptr = OVal (ArgV f 2 p)
     in
     bindS (object_size L event_t i64) (\<lambda>sz.
     bindS (global_get ''lambpie_arena_alloc'') (\<lambda>arena_alloc.
     bindS (object_at L event_t ARENA_REQ arena_alloc sz) (\<lambda>event_struct.
     bindS (store_field L (OVal event_struct) 0 (i32c 1)) (\<lambda>_.
     bindS (iterS (read_field L i64 arena_alloc jf event_ptr event_len (OVal event_struct))
              (layout_fields event_layout)) (\<lambda>_.
     bindS (global_get ''handle'') (\<lambda>user_handle.
     bindS (emit L (CallI (OVal user_handle) [OVal event_struct])) (\<lambda>response_struct.
     bindS (emit_obj L (CallI (OVal (jf_open jf)) [response_ptr, OVal (ConstV i64 (CInt 0))])) (\<lambda>pos0.
     bindS (write_fields L i64 jf response_ptr (OVal response_struct)
              (layout_fields response_layout) pos0) (\<lambda>pos.
     bindS (emit_obj L (CallI (OVal (jf_close jf)) [response_ptr, pos])) (\<lambda>pos_final.
       emit_unit L (Ret pos_final)))))))))))))))"

text \<open>The event and response class names of \<open>handle()\<close>.\<close>

definition handle_types :: "fundef \<Rightarrow> (string \<times> string) res" where
  "handle_types h =
     (case h of (params, body, returns) \<Rightarrow>
       (case params of
          (n, Some annotation) # _ \<Rightarrow>
            (case returns of
               None \<Rightarrow> Inl (RuntimeError ''handle() must have a return type annotation'')
             | Some r \<Rightarrow>
                 bindR (target_name annotation) (\<lambda>event_type.
                 bindR (target_name r) (\<lambda>response_type. Inr (event_type, response_type))))
        | _ \<Rightarrow> Inl (RuntimeError ''handle() must have a typed event parameter'')))"

definition require_class :: "string \<Rightarrow> string \<Rightarrow> unit cm" where
  "require_class what C s =
     (if C \<in> set (dict_keys (cs_layouts s)) then Inr ((), s)
      else Inl (RuntimeError (what @ '' type not defined: '' @ C)))"

definition synthesize_lambda_entry :: "llapi \<Rightarrow> unit cm" where
  "synthesize_lambda_entry L =
     bindS (getS cs_handle) (\<lambda>node.
       case node of
         None \<Rightarrow> raiseS (RuntimeError ''No handle() function found'')
       | Some (params, body, returns) \<Rightarrow>
           bindS (liftS (handle_types (params, body, returns))) (\<lambda>(event_type, response_type).
           bindS (require_class ''Event'' event_type) (\<lambda>_.
           bindS (require_class ''Response'' response_type) (\<lambda>_.
           bindS (layout_get event_type) (\<lambda>event_layout.
           bindS (layout_get response_type) (\<lambda>response_layout.
           bindS (types_get event_type) (\<lambda>event_t.
           bindS (types_get response_type) (\<lambda>response_t.
           bindS (types_get ''__ptr__'') (\<lambda>p.
           bindS (types_get ''int'') (\<lambda>i64.
           bindS (visit_FunctionDef L None ''handle'' params returns (iterS (visit_stmt L) body)) (\<lambda>_.
           bindS (declare_json L p i64) (\<lambda>jf.
           bindS (synthesize_init L) (\<lambda>_.
             synthesize_handle L p i64 jf event_t event_layout response_layout)))))))))))))"

section \<open>Compilation\<close>

definition compile :: "llapi \<Rightarrow> stmt list \<Rightarrow> unit cm" where
  "compile L tree = bindS (visit_Module L tree) (\<lambda>_. synthesize_lambda_entry L)"

text \<open>Steps 3 and 4 of \<open>main\<close>: the builtins in front of the source, and the compiler run on
  the combined tree.\<close>

definition compile_program :: "llapi \<Rightarrow> string option \<Rightarrow> stmt list \<Rightarrow> stmt list \<Rightarrow> cstate res" where
  "compile_program L target_triple builtin_ast source_ast =
     bindR (bindS (compiler_init L target_triple)
              (\<lambda>_. compile L (builtin_ast @ source_ast)) empty_cstate) (\<lambda>(u, s). Inr s)"

section \<open>Metadata\<close>

text \<open>The type a field has in the metadata; \<open>MOther t\<close> is the printed LLVM type.\<close>

datatype mfield = MStr | MInt | MOther ty

record metadata =
  md_event_type :: string
  md_response_type :: string
  md_event_fields :: "(string, mfield) dict"
  md_response_fields :: "(string, mfield) dict"

definition fields_dict :: "ty \<Rightarrow> layout \<Rightarrow> (string, mfield) dict" where
  "fields_dict int_t layout =
     map (\<lambda>(n, k, t). (n, if is_str_type t then MStr else if t = int_t then MInt else MOther t))
       (filter (\<lambda>(n, k, t). n \<noteq> ''__ref_count__'') layout)"

definition get_metadata :: "metadata option cm" where
  "get_metadata =
     bindS (getS cs_handle) (\<lambda>node.
       case node of
         None \<Rightarrow> retS None
       | Some h \<Rightarrow>
           bindS (liftS (case h of (params, body, returns) \<Rightarrow>
              (case params of
                 (n, Some annotation) # _ \<Rightarrow>
                   bindR (target_name annotation) (\<lambda>event_type.
                     case returns of
                       Some r \<Rightarrow> bindR (target_name r) (\<lambda>response_type. Inr (event_type, response_type))
                     | None \<Rightarrow> Inl (AttributeError ''id''))
               | (n, None) # _ \<Rightarrow> Inl (AttributeError ''id'')
               | [] \<Rightarrow> Inl (IndexError ''list index out of range'')))) (\<lambda>(event_type, response_type).
           bindS (types_get ''int'') (\<lambda>int_t.
           bindS (layout_get event_type) (\<lambda>event_layout.
           bindS (layout_get response_type) (\<lambda>response_layout.
             retS (Some \<lparr>md_event_type = event_type, md_response_type = response_type,
                         md_event_fields = fields_dict int_t event_layout,
                         md_response_fields = fields_dict int_t response_layout\<rparr>))))))"

end
