(* ===== verification/CompilerFrames.thy ===== *)
theory CompilerFrames
  imports CompilerEntry
begin

text \<open>
  What one visit may change, once and for all: a chain of locales over a preorder \<open>R\<close> on
  compiler states. Each assumes that \<open>R\<close> links the states around some elementary operations
  and concludes that it links the states around every visitor built from them. Invariants,
  growth and frame properties of the compiler are interpretations.
\<close>

section \<open>Expressions\<close>

text \<open>Looking up names and types; the only change is the type a known class gets on first use.\<close>

locale type_frame = frame R for R :: "cstate \<Rightarrow> cstate \<Rightarrow> bool" +
  assumes R_lazy_type: "n \<in> set (dict_keys (cs_layouts s)) \<Longrightarrow> dict_get (cs_types s) n = None \<Longrightarrow>
      set_type n (PtrT (StructT n)) s = Inr (u, s') \<Longrightarrow> R s s'"
begin

lemma within_types_get [intro!]: "within (types_get k)"
  by (rule withinI) (auto simp: types_get_def R_refl split: option.splits)

lemma within_global_get [intro!]: "within (global_get k)"
  by (rule withinI) (auto simp: global_get_def R_refl split: option.splits)

lemma within_layout_get [intro!]: "within (layout_get k)"
  by (rule withinI) (auto simp: layout_get_def R_refl split: option.splits)

lemma within_get_type [intro!]: "within (get_type e)"
proof (induction e rule: get_type.induct)
  case (1 n)
  show ?case
  proof (rule withinI)
    fix s t s'
    assume run: "get_type (Name n) s = Inr (t, s')"
    show "R s s'"
    proof (cases "n = ''bytes''")
      case True
      then show ?thesis using run withinD [OF within_types_get] by auto
    next
      case False
      show ?thesis
      proof (cases "dict_get (cs_types s) n")
        case (Some u)
        then show ?thesis using run False by (simp add: R_refl)
      next
        case None
        then show ?thesis
          using run False R_lazy_type [of n s]
          by (auto split: if_splits)
      qed
    qed
  qed
next
  case (3 e slice)
  show ?case
  proof (cases e)
    case (Name head)
    note IH = 3 [OF Name]
    show ?thesis
    proof (cases "head = ''ptr''")
      case True
      then show ?thesis using IH(1) by (simp add: Name) auto
    next
      case False
      then show ?thesis using IH(2,3)
        by (cases slice) (auto simp: Name split: list.split expr.split)
    qed
  qed auto
qed auto

lemma within_get_type_opt [intro!]: "within (get_type_opt a)"
  unfolding get_type_opt_def by auto

end

text \<open>The names of literals: one of three prefixes and the counter.\<close>

definition literal_prefixes :: "string set" where
  "literal_prefixes = {''.str.'', ''.bytes.'', ''.key.''}"

lemma literal_prefix [simp]:
  "''.str.'' \<in> literal_prefixes" "''.bytes.'' \<in> literal_prefixes" "''.key.'' \<in> literal_prefixes"
  by (simp_all add: literal_prefixes_def)

locale expr_frame = type_frame R
  for L :: llapi and R :: "cstate \<Rightarrow> cstate \<Rightarrow> bool" +
  assumes R_emit: "\<not> terminator i \<Longrightarrow> emit L i s = Inr (v, s') \<Longrightarrow> R s s'"
    and R_literal: "p \<in> literal_prefixes \<Longrightarrow>
      bindS (next_name p) (\<lambda>n. new_data L n t bytes c) s = Inr (v, s') \<Longrightarrow> R s s'"
begin

lemma within_emit [intro!]: "\<not> terminator i \<Longrightarrow> within (emit L i)"
  by (rule withinI) (rule R_emit)

lemma within_emit_obj [intro!]: "\<not> terminator i \<Longrightarrow> within (emit_obj L i)"
  unfolding emit_obj_def by auto

lemma within_emit_unit [intro!]: "\<not> terminator i \<Longrightarrow> within (emit_unit L i)"
  unfolding emit_unit_def by auto

lemma within_literal [intro!]:
  assumes "p \<in> literal_prefixes"
  shows "within (bindS (next_name p) (\<lambda>n. bindS (new_data L n t bytes c) (\<lambda>v. retS (g v))))"
proof (rule withinI)
  fix s a s'
  assume "bindS (next_name p) (\<lambda>n. bindS (new_data L n t bytes c) (\<lambda>v. retS (g v))) s = Inr (a, s')"
  then obtain v where "bindS (next_name p) (\<lambda>n. new_data L n t bytes c) s = Inr (v, s')"
    by (auto simp: bindS_Inr_iff)
  then show "R s s'" by (rule R_literal [OF assms])
qed

lemma within_visit_Constant [intro!]: "within (visit_Constant L c)"
  unfolding visit_Constant_def by (auto split: const.split)

lemma within_visit_Name [intro!]: "within (visit_Name L n)"
  unfolding visit_Name_def by (auto split: ty.split)

lemma within_struct_gep [intro!]: "within (struct_gep L p k)"
  unfolding struct_gep_def by auto

lemma within_store_field [intro!]: "within (store_field L p k v)"
  unfolding store_field_def by auto

lemma within_object_size [intro!]: "within (object_size L t int_t)"
  unfolding object_size_def by auto

lemma within_object_at [intro!]: "within (object_at L t tag a sz)"
  unfolding object_at_def by auto

lemma within_alloc_object [intro!]: "within (alloc_object L t tag)"
  unfolding alloc_object_def by auto

lemma within_wrap [intro!]: "within (wrap_cstr_to_str L p)"
  unfolding wrap_cstr_to_str_def by (intro within_bind) auto

lemma within_coerce_arg [intro!]: "within (coerce_arg L v t)"
  unfolding coerce_arg_def by auto

lemma within_coerce_args [intro!]: "within (coerce_args L vs ts)"
proof (induction vs arbitrary: ts)
  case (Cons v vs)
  then show ?case by (cases ts) auto
qed auto

lemma within_call_init [intro!]: "within (call_init L f p args)"
  unfolding call_init_def by auto

lemma within_visit_attr [intro!]: "within (visit_attr L attr ob)"
  unfolding visit_attr_def by (auto split: obj.split)

lemma within_element_addr [intro!]: "within (element_addr L p idx)"
  unfolding element_addr_def by (auto split: ty.split)

lemma within_visit_binop [intro!]: "within (visit_binop L op l r)"
  unfolding visit_binop_def by auto

lemma within_visit_unaryop [intro!]: "within (visit_unaryop L op v)"
  unfolding visit_unaryop_def by (auto split: unaryop.split)

lemma within_visit_icmp [intro!]: "within (visit_icmp L op l r)"
  unfolding visit_icmp_def by auto

lemma within_visit_expr [intro!]: "within (visit_expr L e)"
proof (induction e)
  case (Call f args kws)
  have "within (mapS (visit_expr L) args)" using Call(2) by (rule within_map)
  then show ?case using Call(1) by (auto split: obj.split ty.split)
qed (auto split: list.split intro: within_map)

lemmas visit_expr_R = withinD [OF within_visit_expr]

end

section \<open>Statements\<close>

text \<open>The elementary operations of straight-line statements: leaving the function, then the local
  scope and the record of arena tags.\<close>

locale leave_frame = expr_frame L R for L R +
  assumes R_leave: "terminator i \<Longrightarrow> branch_targets i = [] \<Longrightarrow> emit L i s = Inr (v, s') \<Longrightarrow> R s s'"
begin

lemma within_leave [intro!]:
  assumes "branch_targets i = []"
  shows "within (emit L i)"
proof (cases "terminator i")
  case True
  then show ?thesis using assms by (rule withinI [OF R_leave])
qed (rule within_emit)

lemma within_leave_unit [intro!]: "branch_targets i = [] \<Longrightarrow> within (emit_unit L i)"
  unfolding emit_unit_def by auto

lemma within_cur_block [intro!]: "within cur_block"
  by (rule withinI) (auto simp: cur_block_def R_refl split: option.splits)

lemma within_cur_function [intro!]: "within cur_function"
  by (rule withinI) (auto simp: cur_function_def R_refl split: option.splits)

lemma within_is_terminated [intro!]: "within (is_terminated L)"
  unfolding is_terminated_def by auto

lemma within_Assign [intro!]: "within (visit_Assign L targs v)"
  unfolding visit_Assign_def by (auto split: list.split expr.split)

lemma within_Return [intro!]: "within (visit_Return L v)"
  unfolding visit_Return_def by auto

end

locale line_frame = leave_frame L R for L R +
  assumes R_locals: "R s (s\<lparr>cs_locals := l\<rparr>)"
    and R_arena_tags: "R s (s\<lparr>cs_arena_tags := l'\<rparr>)"
begin

lemma within_set_local [intro!]: "within (set_local n v)"
  unfolding set_local_def by (auto intro: R_locals)

lemma within_AnnAssign [intro!]: "within (visit_AnnAssign L target annotation v)"
  unfolding visit_AnnAssign_def
  by (intro within_bind within_mod) (auto intro: R_arena_tags split: ty.split)

lemma within_bind_param [intro!]: "within (bind_param L f p)"
  unfolding bind_param_def by auto

end

text \<open>With branches, blocks, the builder's position, and declarations of C functions.\<close>

locale stmt_frame = line_frame L R for L R +
  assumes R_branch: "branch_targets i \<noteq> [] \<Longrightarrow> emit L i s = Inr (v, s') \<Longrightarrow> R s s'"
    and R_block: "append_block f n s = Inr (b, s') \<Longrightarrow> R s s'"
    and R_position: "R s (s\<lparr>cs_builder := Some b\<rparr>)"
    and R_declare: "declare_function L n t s = Inr (v', s') \<Longrightarrow> R s s'"
begin

lemma within_emit_any [intro!]: "within (emit L i)"
proof (cases "branch_targets i = []")
  case False
  then show ?thesis by (rule withinI [OF R_branch])
qed (rule within_leave)

lemma within_emit_unit_any [intro!]: "within (emit_unit L i)"
  unfolding emit_unit_def by auto

lemma within_append_block [intro!]: "within (append_block f n)"
  by (rule withinI) (rule R_block)

lemma within_position [intro!]: "within (position_at_end b)"
  unfolding position_at_end_def by (auto intro: R_position)

lemma within_declare [intro!]: "within (declare_function L n t)"
  by (rule withinI) (rule R_declare)

lemma within_branch_if_open [intro!]: "within (branch_if_open L b)"
  unfolding branch_if_open_def by auto

lemma within_If:
  assumes "within body" and "\<And>m. orelse = Some m \<Longrightarrow> within m"
  shows "within (visit_If L test body orelse)"
  unfolding visit_If_def
  by (intro within_bind within_append_block within_position within_emit_unit_any
      within_visit_expr within_branch_if_open within_cur_function within_case_option within_ret
      assms)

lemma within_While:
  assumes "within body"
  shows "within (visit_While L test body)"
  unfolding visit_While_def
  by (intro within_bind within_append_block within_position within_emit_unit_any
      within_visit_expr within_branch_if_open within_cur_function assms)

lemma within_import [intro!]: "within (visit_ImportFrom L m names)"
  unfolding visit_ImportFrom_def import_c_name_def by (auto intro!: within_iter)

end

text \<open>With functions and classes as units.\<close>

locale visitor_frame = stmt_frame L R for L R +
  assumes R_function: "within run \<Longrightarrow>
      visit_FunctionDef L C n ps r run s = Inr ((), s') \<Longrightarrow> R s s'"
    and R_class_header: "class_header L C' body s = Inr ((), s') \<Longrightarrow> R s s'"
begin

lemma within_FunctionDef: "within run \<Longrightarrow> within (visit_FunctionDef L C n ps r run)"
  by (rule withinI) (auto intro: R_function)

lemma within_class_header [intro!]: "within (class_header L C body)"
  by (rule withinI) (auto intro: R_class_header)

lemma within_visit_stmt_body:
  "within (visit_stmt L st) \<and>
    (case st of FunctionDef n ps b r \<Rightarrow> within (iterS (visit_stmt L) b) | _ \<Rightarrow> True)"
  "case ch of ChildE e \<Rightarrow> True | ChildS st' \<Rightarrow> within (visit_stmt L st')"
proof (induction st and ch)
  case (FunctionDef n ps body r)
  have "within (iterS (visit_stmt L) body)" by (rule within_iter) (simp add: FunctionDef)
  then show ?case by (simp add: within_FunctionDef)
next
  case (ClassDef C body)
  have "within (case st of
        FunctionDef n ps fbody r \<Rightarrow> visit_FunctionDef L (Some C) n ps r (iterS (visit_stmt L) fbody)
      | _ \<Rightarrow> retS ())" if "st \<in> set body" for st
    using ClassDef [OF that] by (cases st) (auto intro: within_FunctionDef)
  then show ?case by (auto intro!: within_iter)
next
  case (If test body orelse)
  have "within (iterS (visit_stmt L) body)" "within (iterS (visit_stmt L) orelse)"
    by (rule within_iter, simp add: If)+
  then show ?case by (auto intro: within_If)
next
  case (While test body orelse)
  have "within (iterS (visit_stmt L) body)" by (rule within_iter) (simp add: While)
  then show ?case by (auto intro: within_While)
next
  case (OtherStmt c children)
  have "within (case ch of ChildE e \<Rightarrow> bindS (visit_expr L e) (\<lambda>_. retS ()) | ChildS st \<Rightarrow> visit_stmt L st)"
    if "ch \<in> set children" for ch
    using OtherStmt [OF that] by (auto split: child.splits)
  then show ?case by (auto intro!: within_iter)
qed (auto split: child.split)

lemmas within_visit_stmt = within_visit_stmt_body(1) [THEN conjunct1]

lemma within_block: "within (iterS (visit_stmt L) body)"
  by (rule within_iter) (rule within_visit_stmt)

end

end
