(* ===== verification/CompilerModule.thy ===== *)
theory CompilerModule
  imports CompilerFrames
begin

text \<open>
  The locale for whole functions, classes and entry points: over the statement frame it assumes
  that the relation links the states around a declaration, a class registration, a change of
  arena and so on, and concludes that it links the states around \<open>visit_FunctionDef\<close>,
  \<open>class_header\<close> and the synthesis of the entry points.
\<close>

section \<open>Layouts\<close>

text \<open>A layout fits a struct body: every field has an index of its own, inside the body, and the
  type the body has there.\<close>

definition layout_ok :: "layout \<Rightarrow> ty list \<Rightarrow> bool" where
  "layout_ok layout ts \<longleftrightarrow>
     distinct (dict_keys layout) \<and> distinct (map (fst \<circ> snd) layout) \<and>
     list_all (\<lambda>(n, k, t). k < length ts \<and> ts ! k = t) layout"

lemma layout_ok_get: "layout_ok l ts \<Longrightarrow> dict_get l n = Some (k, t) \<Longrightarrow> k < length ts \<and> ts ! k = t"
  by (auto simp: layout_ok_def list_all_iff dest!: map_of_SomeD)

lemma dict_set_cases:
  "(n, x) \<in> set (dict_set n' y d) \<Longrightarrow> (n, x) \<in> set d \<or> n = n' \<and> x = y"
  by (induction d) (auto split: if_splits)

lemma dict_set_index_set:
  "set (map (fst \<circ> snd) (dict_set n (k, t) l)) \<subseteq> insert k (set (map (fst \<circ> snd) l))"
proof
  fix j assume "j \<in> set (map (fst \<circ> snd) (dict_set n (k, t) l))"
  then obtain m u where "(m, j, u) \<in> set (dict_set n (k, t) l)" by auto
  from dict_set_cases [OF this] show "j \<in> insert k (set (map (fst \<circ> snd) l))" by force
qed

lemma dict_set_indices:
  assumes "distinct (map (fst \<circ> snd) l)" and "k \<notin> set (map (fst \<circ> snd) l)"
  shows "distinct (map (fst \<circ> snd) (dict_set n (k, t) l))"
  using assms
proof (induction l)
  case (Cons p l)
  obtain m j u where p: "p = (m, j, u)" by (cases p) auto
  show ?case using Cons dict_set_index_set [of n k t l] by (auto simp: p)
qed simp

lemma layout_ok_add:
  assumes "layout_ok l ts"
  shows "layout_ok (dict_set n (length ts, t) l) (ts @ [t])"
proof -
  have fresh: "length ts \<notin> set (map (fst \<circ> snd) l)"
    using assms by (fastforce simp: layout_ok_def list_all_iff)
  have "list_all (\<lambda>(n, k, u). k < length (ts @ [t]) \<and> (ts @ [t]) ! k = u) (dict_set n (length ts, t) l)"
    using assms by (auto simp: layout_ok_def list_all_iff nth_append dest!: dict_set_cases)
  moreover have "distinct (dict_keys (dict_set n (length ts, t) l))"
    using assms by (simp add: layout_ok_def)
  ultimately show ?thesis
    using dict_set_indices [OF _ fresh] assms by (simp add: layout_ok_def)
qed

lemma class_fields_loop_ok:
  assumes "class_fields_loop body l k ts s = Inr ((l', ts'), s')"
    and "layout_ok l ts" and "k = length ts"
  shows "layout_ok l' ts'"
  using assms
proof (induction body l k ts arbitrary: s rule: class_fields_loop.induct)
  case (2 target annotation v body l k ts)
  then show ?case by (auto simp: layout_ok_add)
qed auto

section \<open>Elementary operations\<close>

lemma emit_InrD:
  "emit L i s = Inr (v, s') \<Longrightarrow>
     \<exists>b t. cs_builder s = Some b \<and> build L (cs_structs s) (block_code s b) i = Some t \<and>
       v = InstrV (cs_next s) t \<and> s' = push_instr b i s"
  by (auto simp: emit_def split: option.splits)

lemma register_name_InrD:
  "register_name L n s = Inr (u, s') \<Longrightarrow> register L (cs_names s) n \<and> s' = s\<lparr>cs_names := cs_names s @ [n]\<rparr>"
  by (auto simp: register_name_def split: if_splits)

lemma new_function_InrD:
  "new_function L n t s = Inr ((k, v), s') \<Longrightarrow>
     register L (cs_names s) n \<and> k = length (cs_funcs s) \<and> v = FuncV n (PtrT t) \<and>
     s' = s\<lparr>cs_names := cs_names s @ [n], cs_funcs := cs_funcs s @ [\<lparr>fn_name = n, fn_type = t\<rparr>]\<rparr>"
  by (auto simp: new_function_def dest!: register_name_InrD)

lemma new_data_InrD:
  "new_data L n t bytes c s = Inr (v, s') \<Longrightarrow>
     \<exists>u. register L (cs_names s) n \<and> global_gep L t = Some u \<and> v = GlobalV n u \<and>
       s' = s\<lparr>cs_names := cs_names s @ [n],
              cs_data := cs_data s @ [\<lparr>d_name = n, d_type = t, d_init = bytes, d_const = c\<rparr>]\<rparr>"
  by (auto simp: new_data_def dest!: register_name_InrD split: option.splits)

lemma set_body_InrD:
  "set_body L C ts s = Inr (u, s') \<Longrightarrow>
     define_struct L (dict_get (cs_structs s) C) ts \<and> s' = s\<lparr>cs_structs := dict_set C ts (cs_structs s)\<rparr>"
  by (auto simp: set_body_def split: if_splits)

lemma next_name_InrD:
  "next_name p s = Inr (n, s') \<Longrightarrow>
     n = p @ nat_str (Suc (cs_counter s)) \<and> s' = s\<lparr>cs_counter := Suc (cs_counter s)\<rparr>"
  by (auto simp: next_name_def)

lemmas primitive_InrD = emit_InrD new_function_InrD new_data_InrD set_body_InrD next_name_InrD

section \<open>The fields of the event and the response\<close>

context expr_frame
begin

lemma within_key_constant [intro!]: "within (key_constant L f)"
  unfolding key_constant_def by (rule withinI, erule R_literal [rotated]) simp

lemma within_read_str_field [intro!]:
  "within (read_str_field L i64 a jf ep el key kl fp)"
  unfolding read_str_field_def
  by (intro within_bind within_emit within_emit_unit within_types_get within_object_size within_object_at
      within_layout_get within_lift within_store_field) simp_all

lemma within_read_field [intro!]: "within (read_field L i64 a jf ep el es fld)"
  unfolding read_field_def by auto

lemma within_write_field [intro!]: "within (write_field L i64 jf rp rs fld pos)"
  unfolding write_field_def
  by (intro within_case_prod within_bind within_key_constant within_if within_struct_gep within_emit
      within_layout_get within_lift within_raise within_emit_obj) simp_all

lemma within_write_fields [intro!]: "within (write_fields L i64 jf rp rs flds pos)"
  by (induction flds arbitrary: pos) auto

end

section \<open>Functions\<close>

lemma initial_layout_ok: "layout_ok [(''__ref_count__'', (0, IntT 32))] [IntT 32]"
  by (simp add: layout_ok_def)

locale function_frame = stmt_frame L R for L R +
  assumes R_new_function: "new_function L n t s = Inr (p, s') \<Longrightarrow> R s s'"
    and R_global: "R s (s\<lparr>cs_globals := dict_set n v (cs_globals s)\<rparr>)"
    and R_arena: "R s (s\<lparr>cs_arena := k\<rparr>)"
    and R_builder: "R s (s\<lparr>cs_builder := b'\<rparr>)"
begin

lemma within_new_function [intro!]: "within (new_function L n t)"
  by (rule withinI) (rule R_new_function)

lemma within_set_global [intro!]: "within (set_global n v)"
  unfolding set_global_def by (auto intro: R_global)

lemma within_arena: "within (modS (\<lambda>s. s\<lparr>cs_arena := k\<rparr>))"
  by (auto intro: R_arena)

lemma within_scopes: "within (modS (\<lambda>s. s\<lparr>cs_locals := [], cs_arena_tags := []\<rparr>))"
  by (rule within_mod) (rule R_trans [OF R_locals R_arena_tags])

lemma within_entry_scope: "within (modS (\<lambda>s. s\<lparr>cs_locals := [], cs_arena := k\<rparr>))"
  by (rule within_mod) (rule R_trans [OF R_locals R_arena])

lemma within_restore: "within (modS (\<lambda>s. s\<lparr>cs_builder := b, cs_locals := l\<rparr>))"
  by (rule within_mod) (rule R_trans [OF R_builder R_locals])

lemma within_clear_locals: "within (modS (\<lambda>s. s\<lparr>cs_locals := []\<rparr>))"
  by (auto intro: R_locals)

lemma within_FunctionDef_run:
  assumes "within run"
  shows "within (visit_FunctionDef L C n ps r run)"
  unfolding visit_FunctionDef_def Let_def
  by (intro within_bind within_get within_if within_case_prod within_case_option within_ret
      within_types_get within_get_type_opt within_map within_append_block within_position
      within_iter within_bind_param within_is_terminated within_emit_unit_any
      within_new_function within_set_global within_arena within_scopes assms)

lemma within_auto_init [intro!]: "within (generate_auto_init L C l)"
  unfolding generate_auto_init_def Let_def
  by (intro within_bind within_get within_case_prod within_ret within_append_block
      within_position within_iter within_lift within_emit_any within_emit_unit_any
      within_store_field within_new_function within_set_global within_clear_locals within_restore)

end

text \<open>With the registration of a class.\<close>

locale module_frame = function_frame L R for L R +
  assumes R_class: "define_struct L (dict_get (cs_structs s) C) ts \<Longrightarrow> layout_ok l ts \<Longrightarrow>
      R s (s\<lparr>cs_structs := dict_set C ts (cs_structs s),
             cs_types := dict_set C (PtrT (StructT C)) (cs_types s),
             cs_layouts := dict_set C l (cs_layouts s)\<rparr>)"
begin

lemma within_class_fields_loop [intro!]: "within (class_fields_loop body l k ts)"
  by (induction body l k ts rule: class_fields_loop.induct) auto

lemma within_class_header_body [intro!]: "within (class_header L C body)"
proof (rule withinI)
  fix s s' :: cstate and u
  assume "class_header L C body s = Inr (u, s')"
  then obtain l ts s1 u1 s2 where loop:
      "class_fields_loop body [(''__ref_count__'', (0, IntT 32))] 1 [IntT 32] s = Inr ((l, ts), s1)"
    and body: "set_body L C ts s1 = Inr (u1, s2)"
    and rest: "(if has_init body then retS () else generate_auto_init L C l)
      (s2\<lparr>cs_types := dict_set C (PtrT (StructT C)) (cs_types s2),
          cs_layouts := dict_set C l (cs_layouts s2)\<rparr>) = Inr ((), s')"
    unfolding class_header_def by (auto simp: set_type_def)
  let ?s3 = "s1\<lparr>cs_structs := dict_set C ts (cs_structs s1),
      cs_types := dict_set C (PtrT (StructT C)) (cs_types s1), cs_layouts := dict_set C l (cs_layouts s1)\<rparr>"
  have "R s s1" by (rule withinD [OF within_class_fields_loop loop])
  moreover have "R s1 ?s3"
    using set_body_InrD [OF body] class_fields_loop_ok [OF loop initial_layout_ok]
    by (intro R_class) auto
  moreover have "R ?s3 s'"
  proof (rule withinD)
    show "within (if has_init body then retS () else generate_auto_init L C l)" by auto
    show "(if has_init body then retS () else generate_auto_init L C l) ?s3 = Inr ((), s')"
      using rest set_body_InrD [OF body] by simp
  qed
  ultimately show "R s s'" by (blast intro: R_trans)
qed

end

sublocale module_frame \<subseteq> visitor_frame L R
proof unfold_locales
  fix run C n ps r s s'
  assume "within run" "visit_FunctionDef L C n ps r run s = Inr ((), s')"
  then show "R s s'" using withinD [OF within_FunctionDef_run] by blast
next
  fix C' body s s'
  assume "class_header L C' body s = Inr ((), s')"
  then show "R s s'" by (rule withinD [OF within_class_header_body])
qed

context module_frame
begin

lemma within_declare_c [intro!]: "within (declare_c L n r ts)"
  unfolding declare_c_def by auto

lemma within_declare_json [intro!]: "within (declare_json L p i64)"
  unfolding declare_json_def by (intro within_bind within_declare_c within_ret)

lemma within_synthesize_init [intro!]: "within (synthesize_init L)"
    unfolding synthesize_init_def
    by (auto intro!: within_block within_entry_scope)

lemma within_synthesize_handle [intro!]: "within (synthesize_handle L p i64 jf t el rl)"
    unfolding synthesize_handle_def Let_def
    by (intro within_bind within_entry_scope within_case_prod within_new_function
        within_append_block within_position within_object_size
        within_global_get within_object_at within_store_field
        within_iter within_read_field within_emit_any within_emit_unit_any
        within_write_fields) auto

lemma within_require_class [intro!]: "within (require_class w C)"
  by (rule withinI) (auto simp: require_class_def R_refl split: if_splits)

lemma within_synthesize_lambda_entry [intro!]: "within (synthesize_lambda_entry L)"
  unfolding synthesize_lambda_entry_def
  by (intro within_bind within_get within_case_option within_raise
      within_case_prod within_lift within_require_class within_layout_get
      within_types_get within_FunctionDef within_block within_declare_json
      within_synthesize_init within_synthesize_handle)

end

section \<open>The body of the entry function\<close>

text \<open>The body of \<open>lambpie_handle\<close>, after the arena is set.\<close>

definition handle_code ::
  "llapi \<Rightarrow> ty \<Rightarrow> ty \<Rightarrow> json_funcs \<Rightarrow> ty \<Rightarrow> layout \<Rightarrow> layout \<Rightarrow> nat \<Rightarrow> unit cm" where
  "handle_code L p i64 jf t el rl f =
     (let event_ptr = OVal (ArgV f 0 p); event_len = OVal (ArgV f 1 i64);
         response_ptr = OVal (ArgV f 2 p)
     in
     bindS (object_size L t i64) (\<lambda>sz.
     bindS (global_get ''lambpie_arena_alloc'') (\<lambda>arena_alloc.
     bindS (object_at L t ARENA_REQ arena_alloc sz) (\<lambda>event_struct.
     bindS (store_field L (OVal event_struct) 0 (i32c 1)) (\<lambda>_.
     bindS (iterS (read_field L i64 arena_alloc jf event_ptr event_len (OVal event_struct))
              (layout_fields el)) (\<lambda>_.
     bindS (global_get ''handle'') (\<lambda>user_handle.
     bindS (emit L (CallI (OVal user_handle) [OVal event_struct])) (\<lambda>response_struct.
     bindS (emit_obj L (CallI (OVal (jf_open jf)) [response_ptr, OVal (ConstV i64 (CInt 0))])) (\<lambda>pos0.
     bindS (write_fields L i64 jf response_ptr (OVal response_struct)
              (layout_fields rl) pos0) (\<lambda>pos.
     bindS (emit_obj L (CallI (OVal (jf_close jf)) [response_ptr, pos])) (\<lambda>pos_final.
       emit_unit L (Ret pos_final))))))))))))"

lemma synthesize_handle_code:
  "synthesize_handle L p i64 jf t el rl =
     bindS (new_function L ''lambpie_handle'' (FunT i64 [p, i64, p, i64] False)) (\<lambda>(f, fv).
     bindS (append_block f ''entry'') (\<lambda>entry.
     bindS (position_at_end entry) (\<lambda>_.
     bindS (modS (\<lambda>s. s\<lparr>cs_locals := [], cs_arena := ARENA_REQ\<rparr>)) (\<lambda>_.
       handle_code L p i64 jf t el rl f))))"
  by (simp add: synthesize_handle_def handle_code_def Let_def)

context leave_frame
begin

lemma within_handle_code [intro!]: "within (handle_code L p i64 jf t el rl f)"
  unfolding handle_code_def Let_def
  by (intro within_bind within_object_size within_global_get within_object_at within_store_field within_iter
      within_read_field within_leave within_emit_obj within_leave_unit within_write_fields) simp_all

end

end
