(* ===== verification/CompilerSteps.thy ===== *)
theory CompilerSteps
  imports CompilerModule
begin

text \<open>
  The compiler as a transition system: the atomic updates of its state with their guards, as an
  inductive relation, and the theorem that every visitor, the synthesis of the entry points and
  the whole compilation are sequences of these updates.
\<close>

section \<open>The transitions\<close>

inductive cstep :: "llapi \<Rightarrow> cstate \<Rightarrow> cstate \<Rightarrow> bool" for L :: llapi where
  step_emit: "\<lbrakk>cs_builder s = Some b; build L (cs_structs s) (block_code s b) i = Some t\<rbrakk> \<Longrightarrow>
     cstep L s (push_instr b i s)"
| step_block: "cstep L s (s\<lparr>cs_blocks := cs_blocks s @ [\<lparr>blk_fn = f, blk_name = n, blk_code = []\<rparr>]\<rparr>)"
| step_builder: "cstep L s (s\<lparr>cs_builder := b'\<rparr>)"
| step_function: "register L (cs_names s) n \<Longrightarrow>
     cstep L s (s\<lparr>cs_names := cs_names s @ [n],
                  cs_funcs := cs_funcs s @ [\<lparr>fn_name = n, fn_type = t\<rparr>]\<rparr>)"
| step_data: "\<lbrakk>register L (cs_names s) n; global_gep L t = Some u\<rbrakk> \<Longrightarrow>
     cstep L s (s\<lparr>cs_names := cs_names s @ [n],
                  cs_data := cs_data s @ [\<lparr>d_name = n, d_type = t, d_init = bytes, d_const = c\<rparr>]\<rparr>)"
| step_counter: "cstep L s (s\<lparr>cs_counter := Suc (cs_counter s)\<rparr>)"
| step_class: "\<lbrakk>define_struct L (dict_get (cs_structs s) C) ts; layout_ok l ts\<rbrakk> \<Longrightarrow>
     cstep L s (s\<lparr>cs_structs := dict_set C ts (cs_structs s),
                  cs_types := dict_set C (PtrT (StructT C)) (cs_types s),
                  cs_layouts := dict_set C l (cs_layouts s)\<rparr>)"
| step_lazy_type: "\<lbrakk>C \<in> set (dict_keys (cs_layouts s)); dict_get (cs_types s) C = None\<rbrakk> \<Longrightarrow>
     cstep L s (s\<lparr>cs_types := dict_set C (PtrT (StructT C)) (cs_types s)\<rparr>)"
| step_global: "cstep L s (s\<lparr>cs_globals := dict_set n v (cs_globals s)\<rparr>)"
| step_locals: "cstep L s (s\<lparr>cs_locals := l'\<rparr>)"
| step_arena: "cstep L s (s\<lparr>cs_arena := k\<rparr>)"
| step_arena_tags: "cstep L s (s\<lparr>cs_arena_tags := tags\<rparr>)"
| step_handle: "cstep L s (s\<lparr>cs_handle := h\<rparr>)"
| step_init_stmts: "cstep L s (s\<lparr>cs_init_stmts := sts\<rparr>)"
| step_target: "cstep L s (s\<lparr>cs_triple := tr, cs_data_layout := dl\<rparr>)"

abbreviation csteps :: "llapi \<Rightarrow> cstate \<Rightarrow> cstate \<Rightarrow> bool" where
  "csteps L \<equiv> (cstep L)\<^sup>*\<^sup>*"

lemma csteps1: "cstep L s t \<Longrightarrow> csteps L s t"
  by (rule r_into_rtranclp)

section \<open>Visitors as sequences of transitions\<close>

interpretation steps: expr_frame L "csteps L" for L
proof unfold_locales
  fix s t u
  show "csteps L s s" by simp
  show "csteps L s t \<Longrightarrow> csteps L t u \<Longrightarrow> csteps L s u" by (rule rtranclp_trans)
next
  fix i s v s'
  assume "emit L i s = Inr (v, s')"
  then show "csteps L s s'" by (auto dest!: emit_InrD intro: csteps1 step_emit)
next
  fix p n t bytes c s v s'
  assume "bindS (next_name p) (\<lambda>n. new_data L n t bytes c) s = Inr (v, s')"
  then obtain n s1 where run: "next_name p s = Inr (n, s1)" "new_data L n t bytes c s1 = Inr (v, s')"
    by auto
  have "cstep L s s1" using next_name_InrD [OF run(1)] by (auto intro: step_counter)
  moreover have "cstep L s1 s'" using new_data_InrD [OF run(2)] by (auto intro: step_data)
  ultimately show "csteps L s s'" by (meson rtranclp.rtrancl_into_rtrancl csteps1)
next
  fix n s u s'
  assume "n \<in> set (dict_keys (cs_layouts s))" "dict_get (cs_types s) n = None"
    "set_type n (PtrT (StructT n)) s = Inr (u, s')"
  then show "csteps L s s'" by (simp add: set_type_def csteps1 step_lazy_type del: set_map)
qed

interpretation steps: line_frame L "csteps L" for L
proof unfold_locales
  fix i s v s'
  assume "emit L i s = Inr (v, s')"
  then show "csteps L s s'" by (auto dest!: emit_InrD intro: csteps1 step_emit)
qed (auto intro: csteps1 step_locals step_arena_tags)

interpretation steps: stmt_frame L "csteps L" for L
proof unfold_locales
  fix i s v s'
  assume "emit L i s = Inr (v, s')"
  then show "csteps L s s'" by (auto dest!: emit_InrD intro: csteps1 step_emit)
next
  fix f n s b s'
  assume "append_block f n s = Inr (b, s')"
  then show "csteps L s s'" by (auto simp: append_block_def intro: csteps1 step_block)
next
  fix n t s v s'
  assume "declare_function L n t s = Inr (v, s')"
  then obtain k f s1 where run: "new_function L n t s = Inr ((k, f), s1)"
      "s' = s1\<lparr>cs_globals := dict_set n f (cs_globals s1)\<rparr>"
    by (auto simp: declare_function_def set_global_def)
  have "cstep L s s1" using new_function_InrD [OF run(1)] by (auto intro: step_function)
  moreover have "cstep L s1 s'" unfolding run(2) by (rule step_global)
  ultimately show "csteps L s s'" by (meson rtranclp.rtrancl_into_rtrancl csteps1)
qed (auto intro: csteps1 step_builder)

interpretation steps: module_frame L "csteps L" for L
proof unfold_locales
  fix n t s p s'
  assume "new_function L n t s = Inr (p, s')"
  then show "csteps L s s'"
    by (cases p) (auto dest!: new_function_InrD intro: csteps1 step_function)
qed (auto intro: csteps1 step_global step_arena step_builder step_class)

section \<open>Whole compilations\<close>

lemma steps_mod: "(\<And>s. cstep L s (f s)) \<Longrightarrow> steps.within L (modS f)"
  by (rule steps.within_mod) (rule csteps1)

lemma steps_visit_top [intro!]: "steps.within L (visit_top L st)"
proof -
  have "steps.within L (modS (\<lambda>s. s\<lparr>cs_init_stmts := f s\<rparr>))" for f
    by (rule steps_mod) (rule step_init_stmts)
  moreover have "steps.within L (modS (\<lambda>s. s\<lparr>cs_handle := h\<rparr>))" for h
    by (rule steps_mod) (rule step_handle)
  ultimately show ?thesis
    unfolding visit_top_def by (auto intro!: steps.within_visit_stmt simp del: visit_stmt.simps split: stmt.split)
qed

lemma steps_compile: "steps.within L (compile L tree)"
  unfolding compile_def visit_Module_def by (auto intro!: steps.within_iter)

lemma steps_compiler_init: "steps.within L (compiler_init L triple)"
proof -
  have "steps.within L (modS (\<lambda>s. s\<lparr>cs_triple := tr, cs_data_layout := d\<rparr>))" for tr d
    by (rule steps_mod) (rule step_target)
  moreover have "steps.within L (new_data L n t bytes c)" for n t bytes c
    by (rule steps.withinI) (auto dest!: new_data_InrD intro: csteps1 step_data)
  ultimately show ?thesis
    unfolding compiler_init_def Let_def
    by (auto split: option.split)
qed

lemma compile_program_steps:
  assumes "compile_program L triple builtin source = Inr s"
  shows "csteps L empty_cstate s"
proof -
  obtain u where "bindS (compiler_init L triple) (\<lambda>_. compile L (builtin @ source)) empty_cstate = Inr (u, s)"
    using assms by (auto simp: compile_program_def bindR_Inr_iff)
  moreover have "steps.within L (bindS (compiler_init L triple) (\<lambda>_. compile L (builtin @ source)))"
    by (rule steps.within_bind [OF steps_compiler_init steps_compile])
  ultimately show ?thesis by (rule steps.withinD [rotated])
qed

end
