(* ===== verification/CompilerInvariants.thy ===== *)
theory CompilerInvariants
  imports CompilerSteps
begin

text \<open>
  Invariants of the compiler's transitions, by rule induction, and what they give for every
  module \<open>compile_program\<close> returns: unique symbols and sound class layouts.
\<close>

section \<open>Laws of the library\<close>

text \<open>What \<open>llvmlite\<close> documents: \<open>Module.add_global\<close> refuses a name that is taken,
  \<open>set_body\<close> a struct that has a body, and \<open>is_terminated\<close> says whether the block
  has a terminator; a second terminator is refused.\<close>

definition unique_names :: "llapi \<Rightarrow> bool" where
  "unique_names L \<longleftrightarrow> (\<forall>names n. register L names n \<longrightarrow> n \<notin> set names)"

definition bodies_final :: "llapi \<Rightarrow> bool" where
  "bodies_final L \<longleftrightarrow> (\<forall>old new. \<not> define_struct L (Some old) new)"

lemma std_unique_names: "unique_names std_llapi"
  by (simp add: unique_names_def std_llapi_def)

lemma std_bodies_final: "bodies_final std_llapi"
  by (simp add: bodies_final_def std_llapi_def)

section \<open>Invariants\<close>

locale step_invariant =
  fixes L :: llapi and I :: "cstate \<Rightarrow> bool"
  assumes I_step: "cstep L s t \<Longrightarrow> I s \<Longrightarrow> I t"
    and I_start: "I empty_cstate"
begin

lemma I_steps: "csteps L s t \<Longrightarrow> I s \<Longrightarrow> I t"
  by (induction rule: rtranclp_induct) (auto intro: I_step)

lemma I_program: "compile_program L triple builtin source = Inr s \<Longrightarrow> I s"
  by (rule I_steps [OF compile_program_steps I_start])

end

text \<open>The symbols of a module: its functions and its private globals.\<close>

definition symbols :: "cstate \<Rightarrow> string list" where
  "symbols s = map fn_name (cs_funcs s) @ map d_name (cs_data s)"

definition names_inv :: "llapi \<Rightarrow> cstate \<Rightarrow> bool" where
  "names_inv L s \<longleftrightarrow> (unique_names L \<longrightarrow> distinct (symbols s) \<and> set (symbols s) = set (cs_names s))"

interpretation names: step_invariant L "names_inv L" for L
proof unfold_locales
  fix s t
  assume "cstep L s t" "names_inv L s"
  then show "names_inv L t"
  proof (induction rule: cstep.induct)
    case (step_emit s b i ty)
    then show ?case by (simp add: names_inv_def symbols_def push_instr_def)
  next
    case (step_function s n ty)
    then show ?case by (fastforce simp: names_inv_def symbols_def unique_names_def)
  next
    case (step_data s n ty u bytes c)
    then show ?case by (fastforce simp: names_inv_def symbols_def unique_names_def)
  qed (simp_all add: names_inv_def symbols_def)
qed (simp add: names_inv_def symbols_def empty_cstate_def)

definition layout_inv :: "cstate \<Rightarrow> string \<Rightarrow> layout \<Rightarrow> bool" where
  "layout_inv s C l \<longleftrightarrow>
     (\<exists>ts. dict_get (cs_structs s) C = Some ts \<and> layout_ok l ts) \<and>
     dict_get (cs_types s) C = Some (PtrT (StructT C))"

definition layouts_inv :: "llapi \<Rightarrow> cstate \<Rightarrow> bool" where
  "layouts_inv L s \<longleftrightarrow>
     (bodies_final L \<longrightarrow> (\<forall>C l. dict_get (cs_layouts s) C = Some l \<longrightarrow> layout_inv s C l))"

interpretation layouts: step_invariant L "layouts_inv L" for L
proof unfold_locales
  fix s t
  assume "cstep L s t" "layouts_inv L s"
  then show "layouts_inv L t"
  proof (induction rule: cstep.induct)
    case (step_class s C ts l)
    show ?case
      unfolding layouts_inv_def
    proof (intro impI allI)
      fix D m
      assume lib: "bodies_final L"
        and get: "dict_get (cs_layouts (s\<lparr>cs_structs := dict_set C ts (cs_structs s),
          cs_types := dict_set C (PtrT (StructT C)) (cs_types s),
          cs_layouts := dict_set C l (cs_layouts s)\<rparr>)) D = Some m"
      show "layout_inv (s\<lparr>cs_structs := dict_set C ts (cs_structs s),
          cs_types := dict_set C (PtrT (StructT C)) (cs_types s),
          cs_layouts := dict_set C l (cs_layouts s)\<rparr>) D m"
        using step_class get lib
        by (cases "D = C") (auto simp: layouts_inv_def layout_inv_def)
    qed
  qed (auto simp: layouts_inv_def layout_inv_def push_instr_def)
qed (simp add: layouts_inv_def empty_cstate_def)

end
