(* ===== verification/CompilerCode.thy ===== *)
theory CompilerCode
  imports CompilerModule
begin

text \<open>
  The code an operation appends to the builder's block, as a list of instructions: the form in
  which the properties say what the compiler generates.
\<close>

definition push_all :: "nat \<Rightarrow> instr list \<Rightarrow> cstate \<Rightarrow> cstate" where
  "push_all b code s = fold (push_instr b) code s"

lemma push_all_simps [simp]:
  "push_all b [] s = s"
  "push_all b (i # code) s = push_all b code (push_instr b i s)"
  by (simp_all add: push_all_def)

lemma push_all_append: "push_all b (c @ c') s = push_all b c' (push_all b c s)"
  by (simp add: push_all_def)

lemma push_instr_fields [simp]:
  "cs_next (push_instr b i s) = Suc (cs_next s)"
  "cs_builder (push_instr b i s) = cs_builder s"
  "cs_types (push_instr b i s) = cs_types s"
  "cs_globals (push_instr b i s) = cs_globals s"
  "cs_locals (push_instr b i s) = cs_locals s"
  "cs_layouts (push_instr b i s) = cs_layouts s"
  "cs_structs (push_instr b i s) = cs_structs s"
  "cs_arena (push_instr b i s) = cs_arena s"
  "cs_funcs (push_instr b i s) = cs_funcs s"
  "cs_data (push_instr b i s) = cs_data s"
  "cs_counter (push_instr b i s) = cs_counter s"
  "length (cs_blocks (push_instr b i s)) = length (cs_blocks s)"
  by (simp_all add: push_instr_def)

lemma push_all_fields [simp]:
  "cs_next (push_all b code s) = cs_next s + length code"
  "cs_builder (push_all b code s) = cs_builder s"
  "cs_types (push_all b code s) = cs_types s"
  "cs_globals (push_all b code s) = cs_globals s"
  "cs_locals (push_all b code s) = cs_locals s"
  "cs_layouts (push_all b code s) = cs_layouts s"
  "cs_structs (push_all b code s) = cs_structs s"
  "cs_arena (push_all b code s) = cs_arena s"
  "cs_funcs (push_all b code s) = cs_funcs s"
  "cs_data (push_all b code s) = cs_data s"
  "cs_counter (push_all b code s) = cs_counter s"
  "length (cs_blocks (push_all b code s)) = length (cs_blocks s)"
  by (induction code arbitrary: s) simp_all

lemma push_instr_block_code:
  "b < length (cs_blocks s) \<Longrightarrow>
     block_code (push_instr b i s) j = (if j = b then block_code s b @ [i] else block_code s j)"
  by (simp add: push_instr_def block_code_def)

lemma push_all_block_code:
  "b < length (cs_blocks s) \<Longrightarrow>
     block_code (push_all b code s) j = (if j = b then block_code s b @ code else block_code s j)"
  by (induction code arbitrary: s) (auto simp: push_instr_block_code)

text \<open>What an emission pushes, for a builder at the block \<open>b\<close>.\<close>

lemma emit_pushD:
  assumes "emit L i s = Inr (v, s')" and "cs_builder s = Some b"
  obtains t where "v = InstrV (cs_next s) t" and "s' = push_all b [i] s"
  using emit_InrD [OF assms(1)] assms(2) that by auto

lemma emit_unit_pushD:
  assumes "emit_unit L i s = Inr (u, s')" and "cs_builder s = Some b"
  shows "s' = push_all b [i] s"
proof -
  obtain v where "emit L i s = Inr (v, s')" using assms(1) by (auto simp: emit_unit_def)
  from emit_pushD [OF this assms(2)] show ?thesis .
qed

text \<open>The two instructions of a field store; \<open>k\<close> is the number the address gets.\<close>

definition store_code :: "obj \<Rightarrow> nat \<Rightarrow> obj \<Rightarrow> val \<Rightarrow> instr list" where
  "store_code p k v addr = [Gep p [i32c 0, i32c k] True, Store v (OVal addr)]"

lemma length_store_code [simp]: "length (store_code p k v addr) = 2"
  by (simp add: store_code_def)

lemma store_field_pushD:
  assumes "store_field L p k v s = Inr (u, s')" and "cs_builder s = Some b"
  obtains t where "s' = push_all b (store_code p k v (InstrV (cs_next s) t)) s"
proof -
  obtain q s1 where q: "emit L (Gep p [i32c 0, i32c k] True) s = Inr (q, s1)"
    and st: "emit_unit L (Store v (OVal q)) s1 = Inr (u, s')"
    using assms(1) by (auto simp: store_field_def struct_gep_def)
  obtain t where t: "q = InstrV (cs_next s) t" "s1 = push_all b [Gep p [i32c 0, i32c k] True] s"
    by (rule emit_pushD [OF q assms(2)])
  have "s' = push_all b [Store v (OVal q)] s1"
    by (rule emit_unit_pushD [OF st]) (simp add: t assms(2))
  then show ?thesis by (intro that [of t]) (simp add: t store_code_def)
qed

text \<open>A sequence of field stores into the object \<open>p\<close>: the addresses have every second
  number.\<close>

fun stores_code :: "obj \<Rightarrow> (nat \<times> obj) list \<Rightarrow> nat \<Rightarrow> ty list \<Rightarrow> instr list" where
  "stores_code p ((k, v) # fs) n (t # ts) = store_code p k v (InstrV n t) @ stores_code p fs (n + 2) ts"
| "stores_code p fs n ts = []"

lemma stores_pushD:
  assumes "iterS (\<lambda>x. store_field L p (idx x) (arg x)) xs s = Inr (u, s')"
    and "cs_builder s = Some b"
  shows "\<exists>ts. length ts = length xs \<and>
    s' = push_all b (stores_code p (map (\<lambda>x. (idx x, arg x)) xs) (cs_next s) ts) s"
  using assms
proof (induction xs arbitrary: s)
  case Nil
  then show ?case by simp
next
  case (Cons x xs)
  obtain u1 s1 where x: "store_field L p (idx x) (arg x) s = Inr (u1, s1)"
    and xs: "iterS (\<lambda>x. store_field L p (idx x) (arg x)) xs s1 = Inr (u, s')"
    using Cons.prems(1) by auto
  obtain t where s1: "s1 = push_all b (store_code p (idx x) (arg x) (InstrV (cs_next s) t)) s"
    by (rule store_field_pushD [OF x Cons.prems(2)])
  have "cs_builder s1 = Some b" by (simp add: s1 Cons.prems(2))
  from Cons.IH [OF xs this] obtain ts where "length ts = length xs"
    "s' = push_all b (stores_code p (map (\<lambda>x. (idx x, arg x)) xs) (cs_next s1) ts) s1"
    by blast
  then show ?case
    by (intro exI [of _ "t # ts"]) (simp add: s1 push_all_append)
qed

end
