(* ===== verification/CompilerSample.thy ===== *)
theory CompilerSample
  imports CompilerEntry
begin

text \<open>The compiler runs on a small handler (a loop, a branch, a local variable) with the concrete
  library: the instance the properties of whole compilations are applied to.\<close>

lemma digit_compiles:
  "case compile_program std_llapi None [] digit_pie of
     Inl e \<Rightarrow> False
   | Inr s \<Rightarrow> dict_keys (cs_layouts s) = [''Request'', ''Response''] \<and>
       map fn_name (cs_funcs s) =
         [''malloc'', ''memcpy'', ''lambpie_arena_alloc'', ''Request___init__'',
          ''Response___init__'', ''handle'', ''json_get_str'', ''json_get_int'', ''json_open'',
          ''json_write_str'', ''json_write_int'', ''json_close'', ''lambpie_init'',
          ''lambpie_handle'']"
  by code_simp

lemma digit_result:
  obtains s where "compile_program std_llapi None [] digit_pie = Inr s"
    and "dict_keys (cs_layouts s) = [''Request'', ''Response'']"
  using digit_compiles by (auto split: sum.splits)

end
