(* ===== verification/CompilerClasses.thy ===== *)
theory CompilerClasses
  imports CompilerInvariants CompilerCode CompilerSample
begin

text \<open>
  Type annotations and classes: what the invariants give for the classes of a compiled module, the
  layout of a class in the order of its annotations, the generated \<open>__init__\<close>, and the
  code of a field access.
\<close>

section \<open>Layouts of a compiled module\<close>

text \<open>C7: the layout the compiler keeps for a class agrees with the struct body it gave to LLVM, in
  every compiled module: each field has its own index inside the body, the body has the field's type
  at that index, and the class name stands for a pointer to that struct.\<close>

theorem class_layouts_sound:
  assumes "bodies_final L" and "compile_program L triple builtin source = Inr s"
    and "dict_get (cs_layouts s) C = Some l"
  shows "\<exists>ts. dict_get (cs_structs s) C = Some ts \<and> dict_get (cs_types s) C = Some (PtrT (StructT C)) \<and>
    distinct (map (fst \<circ> snd) l) \<and> (\<forall>n k t. (n, k, t) \<in> set l \<longrightarrow> k < length ts \<and> ts ! k = t)"
  using layouts.I_program [OF assms(2)] assms(1,3)
  by (fastforce simp: layouts_inv_def layout_inv_def layout_ok_def list_all_iff)

lemma class_layouts_sound_witness:
  "\<exists>s l ts. compile_program std_llapi None [] digit_pie = Inr s \<and>
     dict_get (cs_layouts s) ''Request'' = Some l \<and> dict_get (cs_structs s) ''Request'' = Some ts"
proof -
  obtain s where s: "compile_program std_llapi None [] digit_pie = Inr s"
    "dict_keys (cs_layouts s) = [''Request'', ''Response'']" by (rule digit_result)
  have "''Request'' \<in> set (dict_keys (cs_layouts s))" by (simp add: s(2))
  then obtain l where l: "dict_get (cs_layouts s) ''Request'' = Some l"
    by (auto simp: dict_keys_get simp del: set_map)
  from class_layouts_sound [OF std_bodies_final s(1) l] s(1) l show ?thesis by blast
qed

section \<open>Type annotations\<close>

definition types_cover :: "cstate \<Rightarrow> bool" where
  "types_cover s \<longleftrightarrow> (\<forall>C. dict_get (cs_types s) C = None \<longrightarrow> C \<notin> set (dict_keys (cs_layouts s)))"

interpretation cover: step_invariant L types_cover for L
proof unfold_locales
  fix s t
  assume "cstep L s t" "types_cover s"
  then show "types_cover t"
    by (induction rule: cstep.induct)
      (auto simp: types_cover_def push_instr_def dict_keys_get simp del: set_map)
qed (simp add: types_cover_def empty_cstate_def)

lemma get_type_pure:
  "get_type e s = Inr (t, s') \<Longrightarrow> types_cover s \<Longrightarrow> s' = s"
proof (induction e arbitrary: t rule: get_type.induct)
  case (1 n)
  then show ?case
    by (auto simp: types_get_def types_cover_def split: if_splits option.splits simp del: set_map)
next
  case (3 e slice)
  show ?case
  proof (cases e)
    case (Name head)
    note IH = 3(1-3) [OF Name]
    show ?thesis
    proof (cases "head = ''ptr''")
      case True
      then show ?thesis using IH(1) 3(4,5) by (auto simp: Name)
    next
      case False
      then show ?thesis using IH(2,3) 3(4,5)
        by (cases slice) (auto simp: Name split: list.splits expr.splits if_splits)
    qed
  qed (use 3(4) in auto)
qed (auto simp: types_get_def split: if_splits option.splits)

section \<open>The layout of a class\<close>

text \<open>The annotated fields of a class body, in order.\<close>

fun annotated :: "stmt list \<Rightarrow> (string \<times> expr) list" where
  "annotated [] = []"
| "annotated (AnnAssign (Name n) a v # body) = (n, a) # annotated body"
| "annotated (st # body) = annotated body"

lemma class_fields_loop_exact:
  assumes "class_fields_loop body l k ts s = Inr ((l', ts'), s')" and "types_cover s"
  shows "s' = s \<and> (\<exists>us. list_all2 (\<lambda>(n, a) t. get_type a s = Inr (t, s)) (annotated body) us \<and>
    ts' = ts @ us \<and>
    (distinct (dict_keys l @ map fst (annotated body)) \<longrightarrow>
      l' = l @ zip (map fst (annotated body)) (zip [k..<k + length us] us)))"
  using assms
proof (induction body l k ts rule: class_fields_loop.induct)
  case (2 target annotation v body l k ts)
  then obtain n t s1 where n: "target = Name n" and t: "get_type annotation s = Inr (t, s1)"
    and rest: "class_fields_loop body (dict_set n (k, t) l) (Suc k) (ts @ [t]) s1 = Inr ((l', ts'), s')"
    by (auto simp: target_name_def split: expr.splits)
  have s1: "s1 = s" by (rule get_type_pure [OF t 2(3)])
  note IH = 2(1) [OF rest [unfolded s1] 2(3)]
  from IH obtain us where us: "s' = s" "list_all2 (\<lambda>(n, a) t. get_type a s = Inr (t, s)) (annotated body) us"
    "ts' = (ts @ [t]) @ us"
    "distinct (dict_keys (dict_set n (k, t) l) @ map fst (annotated body)) \<longrightarrow>
      l' = dict_set n (k, t) l @ zip (map fst (annotated body)) (zip [Suc k..<Suc k + length us] us)"
    by auto
  have "[k..<k + length (t # us)] = k # [Suc k..<Suc k + length us]"
    by (simp add: upt_conv_Cons del: upt_Suc)
  then show ?case
    using us t s1 n
    by (intro conjI exI [of _ "t # us"]) (auto simp: dict_set_fresh simp del: upt_Suc)
qed (auto split: expr.splits)

text \<open>Everything but the registration of a class keeps the class tables.\<close>

definition keeps_classes :: "cstate \<Rightarrow> cstate \<Rightarrow> bool" where
  "keeps_classes s s' \<longleftrightarrow> cs_structs s' = cs_structs s \<and> cs_layouts s' = cs_layouts s"

interpretation keeps: function_frame L keeps_classes for L
  by unfold_locales
    (auto simp: keeps_classes_def push_instr_def append_block_def set_type_def declare_function_def
      set_global_def dest!: emit_InrD next_name_InrD new_data_InrD new_function_InrD)

lemma class_header_tables:
  assumes "class_header L C body s = Inr (u, s')"
  obtains l ts s1 where
    "class_fields_loop body [(''__ref_count__'', (0, IntT 32))] 1 [IntT 32] s = Inr ((l, ts), s1)"
    and "cs_structs s' = dict_set C ts (cs_structs s1)"
    and "cs_layouts s' = dict_set C l (cs_layouts s1)"
proof -
  obtain l ts s1 u1 s2 where loop:
      "class_fields_loop body [(''__ref_count__'', (0, IntT 32))] 1 [IntT 32] s = Inr ((l, ts), s1)"
    and body: "set_body L C ts s1 = Inr (u1, s2)"
    and rest: "(if has_init body then retS () else generate_auto_init L C l)
      (s2\<lparr>cs_types := dict_set C (PtrT (StructT C)) (cs_types s2),
          cs_layouts := dict_set C l (cs_layouts s2)\<rparr>) = Inr ((), s')"
    using assms unfolding class_header_def by (auto simp: set_type_def)
  have "keeps_classes (s2\<lparr>cs_types := dict_set C (PtrT (StructT C)) (cs_types s2),
      cs_layouts := dict_set C l (cs_layouts s2)\<rparr>) s'"
    by (rule keeps.withinD [OF keeps.within_if rest]) auto
  then show ?thesis
    using set_body_InrD [OF body] by (intro that [OF loop]) (auto simp: keeps_classes_def)
qed

text \<open>C8: the struct of a class is an \<open>i32\<close> reference count followed by its annotated
  fields in source order, each with the type its annotation denotes, and the layout gives the field
  number \<open>i\<close> (from 1) the index \<open>i\<close>.\<close>

theorem class_layout_exact:
  assumes "csteps L empty_cstate s" and "class_header L C body s = Inr ((), s')"
    and "distinct (''__ref_count__'' # map fst (annotated body))"
  shows "\<exists>us. list_all2 (\<lambda>(n, a) t. get_type a s = Inr (t, s)) (annotated body) us \<and>
    dict_get (cs_structs s') C = Some (IntT 32 # us) \<and>
    dict_get (cs_layouts s') C = Some ((''__ref_count__'', (0, IntT 32)) #
      zip (map fst (annotated body)) (zip [1..<Suc (length us)] us))"
proof -
  obtain l ts s1 where loop:
    "class_fields_loop body [(''__ref_count__'', (0, IntT 32))] 1 [IntT 32] s = Inr ((l, ts), s1)"
    and tables: "cs_structs s' = dict_set C ts (cs_structs s1)" "cs_layouts s' = dict_set C l (cs_layouts s1)"
    by (rule class_header_tables [OF assms(2)])
  have "types_cover s" by (rule cover.I_steps [OF assms(1) cover.I_start])
  from class_fields_loop_exact [OF loop this] obtain us where
    "list_all2 (\<lambda>(n, a) t. get_type a s = Inr (t, s)) (annotated body) us" "ts = IntT 32 # us"
    "l = (''__ref_count__'', (0, IntT 32)) # zip (map fst (annotated body)) (zip [1..<1 + length us] us)"
    using assms(3) by auto
  then show ?thesis by (intro exI [of _ us]) (simp add: tables del: upt_Suc)
qed

definition point_class :: "stmt list" where
  "point_class =
     [AnnAssign (Name ''x'') (Name ''int'') None,
      AnnAssign (Name ''name'') (Name ''bytes'') None,
      AnnAssign (Name ''y'') (Subscript (Name ''ptr'') (Name ''int'')) None]"

lemma point_class_header: "succeeds (class_header std_llapi ''Point'' point_class empty_cstate)"
  by code_simp

lemma class_layout_exact_witness:
  "\<exists>s' us. class_header std_llapi ''Point'' point_class empty_cstate = Inr ((), s') \<and>
    dict_get (cs_structs s') ''Point'' = Some (IntT 32 # us) \<and> length us = 3"
proof -
  obtain s' where s': "class_header std_llapi ''Point'' point_class empty_cstate = Inr ((), s')"
    using point_class_header by (auto simp: succeeds_iff)
  have "distinct (''__ref_count__'' # map fst (annotated point_class))" by code_simp
  from class_layout_exact [OF rtranclp.rtrancl_refl s' this] s' show ?thesis
    by (auto simp: point_class_def dest: list_all2_lengthD)
qed

section \<open>The generated constructor\<close>

text \<open>The body of a generated \<open>__init__\<close>, from a positioned builder: the instructions it appends.\<close>

lemma init_body_pushed:
  assumes "emit L (Alloca t) s2 = Inr (v3, s3)" and "emit_unit L (Store arg (OVal v3)) s3 = Inr (u4, s4)"
    and "emit L (Load (OVal v3)) s4 = Inr (v5, s5)" and "store_field L (OVal v5) k x s5 = Inr (u6, s6)"
    and "iterS (\<lambda>x. store_field L (OVal v5) (idx x) (val x)) xs s6 = Inr (u7, s7)"
    and "emit_unit L RetVoid s7 = Inr (u8, s8)" and b: "cs_builder s2 = Some b" "b < length (cs_blocks s2)"
  shows "\<exists>t5 ts. length ts = Suc (length xs) \<and> v5 = InstrV (cs_next s2 + 2) t5 \<and>
    s8 = push_all b ([Alloca t, Store arg (OVal v3), Load (OVal v3)] @
      stores_code (OVal v5) ((k, x) # map (\<lambda>x. (idx x, val x)) xs) (cs_next s2 + 3) ts @ [RetVoid]) s2"
proof -
  obtain t3 where s3: "v3 = InstrV (cs_next s2) t3" "s3 = push_all b [Alloca t] s2"
    by (rule emit_pushD [OF assms(1) b(1)]) (simp add: b)
  have s4: "s4 = push_all b [Store arg (OVal v3)] s3"
    by (rule emit_unit_pushD [OF assms(2)]) (simp add: s3 b)
  obtain t5 where s5: "v5 = InstrV (cs_next s2 + 2) t5" "s5 = push_all b [Load (OVal v3)] s4"
    by (rule emit_pushD [OF assms(3), of b]) (simp_all add: s4 s3 b)
  obtain t6 where s6: "s6 = push_all b (store_code (OVal v5) k x (InstrV (cs_next s2 + 3) t6)) s5"
    by (rule store_field_pushD [OF assms(4), of b]) (simp_all add: s5 s4 s3 b eval_nat_numeral)
  obtain ts where ts: "length ts = length xs"
    "s7 = push_all b (stores_code (OVal v5) (map (\<lambda>x. (idx x, val x)) xs) (cs_next s6) ts) s6"
    using stores_pushD [OF assms(5), of b] by (auto simp: s6 s5 s4 s3 b)
  have "s8 = push_all b [RetVoid] s7"
    by (rule emit_unit_pushD [OF assms(6)]) (simp add: ts s6 s5 s4 s3 b)
  then have "s8 = push_all b ([Alloca t, Store arg (OVal v3), Load (OVal v3)] @
      stores_code (OVal v5) ((k, x) # map (\<lambda>x. (idx x, val x)) xs) (cs_next s2 + 3) (t6 # ts) @ [RetVoid]) s2"
    unfolding ts(2) s6 s5(2) s4 s3(2) by (simp add: push_all_append b eval_nat_numeral)
  then show ?thesis using ts(1) s5(1) by (intro exI [of _ t5] exI [of _ "t6 # ts"]) simp
qed

text \<open>C9: for a class without \<open>__init__\<close> the compiler generates a function of one block that
  keeps \<open>self\<close> in a stack slot, sets the reference count to 1, stores the argument number
  \<open>i + 1\<close> into the field with the \<open>i\<close>-th smallest index, and returns; the builder
  and the local scope are what they were before.\<close>

theorem auto_init_code:
  assumes "generate_auto_init L C l s = Inr ((), s')"
  shows "\<exists>rc ts a self addr_types.
    dict_get l ''__ref_count__'' = Some rc \<and>
    cs_funcs s' = cs_funcs s @ [\<lparr>fn_name = C @ ''___init__'',
      fn_type = FunT VoidT (PtrT (StructT C) # map (snd \<circ> snd) (layout_fields l)) False\<rparr>] \<and>
    length addr_types = Suc (length (layout_fields l)) \<and>
    self = OVal (InstrV (cs_next s + 2) ts) \<and>
    block_code s' (length (cs_blocks s)) =
      [Alloca (PtrT (StructT C)), Store (OVal (ArgV (length (cs_funcs s)) 0 (PtrT (StructT C)))) a, Load a] @
      stores_code self
        ((fst rc, i32c 1) #
         map (\<lambda>(i, n, k, t). (k, OVal (ArgV (length (cs_funcs s)) (Suc i) t)))
           (zip [0..<length (layout_fields l)] (layout_fields l)))
        (cs_next s + 3) addr_types @ [RetVoid] \<and>
    cs_builder s' = cs_builder s \<and> cs_locals s' = cs_locals s"
proof -
  let ?fields = "layout_fields l" and ?self_t = "PtrT (StructT C)" and ?b = "length (cs_blocks s)"
  let ?f = "length (cs_funcs s)"
  let ?arg = "\<lambda>(i, n, k, t). OVal (ArgV ?f (Suc i) t)" and ?idx = "\<lambda>(i :: nat, n :: string, k :: nat, t :: ty). k"
  obtain f fv s1 s2 v3 s3 u4 s4 v5 s5 rc u6 s6 u7 s7 u8 s8 where
      func: "new_function L (C @ ''___init__'') (FunT VoidT (?self_t # map (\<lambda>(n, k, t). t) ?fields) False) s =
        Inr ((f, fv), s1)"
    and s2: "s2 = s1\<lparr>cs_globals := dict_set (C @ ''___init__'') fv (cs_globals s1),
        cs_blocks := cs_blocks s1 @ [\<lparr>blk_fn = f, blk_name = ''entry'', blk_code = []\<rparr>],
        cs_builder := Some (length (cs_blocks s1)), cs_locals := []\<rparr>"
    and alloca: "emit L (Alloca ?self_t) s2 = Inr (v3, s3)"
    and st: "emit_unit L (Store (OVal (ArgV f 0 ?self_t)) (OVal v3)) s3 = Inr (u4, s4)"
    and load: "emit L (Load (OVal v3)) s4 = Inr (v5, s5)"
    and rc: "field_get l ''__ref_count__'' = Inr rc"
    and set_rc: "store_field L (OVal v5) (fst rc) (i32c 1) s5 = Inr (u6, s6)"
    and loop: "iterS (\<lambda>(i, n, k, t). store_field L (OVal v5) k (OVal (ArgV f (Suc i) t)))
        (zip [0..<length ?fields] ?fields) s6 = Inr (u7, s7)"
    and ret: "emit_unit L RetVoid s7 = Inr (u8, s8)"
    and s': "s' = s8\<lparr>cs_builder := cs_builder s1, cs_locals := cs_locals s1\<rparr>"
    using assms
    by (auto simp: generate_auto_init_def Let_def set_global_def append_block_def position_at_end_def)
  have f: "f = ?f" "s1 = s\<lparr>cs_names := cs_names s @ [C @ ''___init__''],
      cs_funcs := cs_funcs s @ [\<lparr>fn_name = C @ ''___init__'',
        fn_type = FunT VoidT (?self_t # map (\<lambda>(n, k, t). t) ?fields) False\<rparr>]\<rparr>"
    using new_function_InrD [OF func] by simp_all
  have s2': "cs_builder s2 = Some ?b" "cs_next s2 = cs_next s" "length (cs_blocks s2) = Suc ?b"
    "block_code s2 ?b = []" "cs_funcs s2 = cs_funcs s1"
    by (simp_all add: s2 f(2) block_code_def)
  have "iterS (\<lambda>x. store_field L (OVal v5) (?idx x) (?arg x)) (zip [0..<length ?fields] ?fields) s6 = Inr (u7, s7)"
    using loop by (simp add: f(1) case_prod_unfold)
  from init_body_pushed [OF alloca st load set_rc this ret s2'(1)] obtain t5 ts where ts:
      "length ts = Suc (length ?fields)" "v5 = InstrV (cs_next s + 2) t5"
    and pushed: "s8 = push_all ?b ([Alloca ?self_t, Store (OVal (ArgV f 0 ?self_t)) (OVal v3), Load (OVal v3)] @
      stores_code (OVal v5) ((fst rc, i32c 1) # map (\<lambda>x. (?idx x, ?arg x)) (zip [0..<length ?fields] ?fields))
        (cs_next s + 3) ts @ [RetVoid]) s2"
    by (auto simp: s2')
  have "block_code s' ?b = block_code s8 ?b" by (simp add: s' block_code_def)
  also have "\<dots> = [Alloca ?self_t, Store (OVal (ArgV f 0 ?self_t)) (OVal v3), Load (OVal v3)] @
      stores_code (OVal v5) ((fst rc, i32c 1) # map (\<lambda>x. (?idx x, ?arg x)) (zip [0..<length ?fields] ?fields))
        (cs_next s + 3) ts @ [RetVoid]"
    unfolding pushed by (subst push_all_block_code) (simp_all only: s2' lessI if_True append_Nil refl if_cancel)
  finally have code: "block_code s' ?b = \<dots>" .
  have funcs: "cs_funcs s' = cs_funcs s1" by (simp only: s' pushed) (simp add: s2')
  have rest: "cs_builder s' = cs_builder s" "cs_locals s' = cs_locals s" by (simp_all add: s' f(2))
  show ?thesis
    apply (rule exI [of _ rc], rule exI [of _ t5], rule exI [of _ "OVal v3"], rule exI [of _ "OVal v5"],
        rule exI [of _ ts])
    using rc
    by (simp add: code funcs rest ts f case_prod_unfold comp_def field_get_def
        split: option.splits)
qed

lemma auto_init_instance:
  "succeeds (generate_auto_init std_llapi ''Point'' [(''__ref_count__'', (0, IntT 32)), (''x'', (1, IntT 64))]
     (empty_cstate\<lparr>cs_structs := [(''Point'', [IntT 32, IntT 64])]\<rparr>))"
  by code_simp

lemma auto_init_code_witness:
  "\<exists>s' rest. generate_auto_init std_llapi ''Point'' [(''__ref_count__'', (0, IntT 32)), (''x'', (1, IntT 64))]
     (empty_cstate\<lparr>cs_structs := [(''Point'', [IntT 32, IntT 64])]\<rparr>) = Inr ((), s') \<and>
     block_code s' 0 = Alloca (PtrT (StructT ''Point'')) # rest"
proof -
  obtain s' where s': "generate_auto_init std_llapi ''Point'' [(''__ref_count__'', (0, IntT 32)), (''x'', (1, IntT 64))]
     (empty_cstate\<lparr>cs_structs := [(''Point'', [IntT 32, IntT 64])]\<rparr>) = Inr ((), s')"
    using auto_init_instance by (auto simp: succeeds_iff)
  from auto_init_code [OF s'] s' show ?thesis by (auto simp: empty_cstate_def)
qed

section \<open>Attributes\<close>

text \<open>C10: an attribute that is no method reads the field of the class: an address computed with the
  layout's index, inside the struct, and a load from it, and nothing else is emitted.\<close>

theorem field_access_code:
  assumes "csteps L empty_cstate s" and "bodies_final L" and "cs_builder s = Some b"
    and "val_type v = PtrT (StructT C)"
    and "dict_get (cs_globals s) (C @ ''_'' @ attr) = None"
    and "dict_get (cs_layouts s) C = Some l" and "dict_get l attr = Some (k, t)"
    and "visit_attr L attr (OVal v) s = Inr (r, s')"
  shows "\<exists>ta tl ts. r = OVal (InstrV (cs_next s + 1) tl) \<and>
    s' = push_all b [Gep (OVal v) [i32c 0, i32c k] True, Load (OVal (InstrV (cs_next s) ta))] s \<and>
    dict_get (cs_structs s) C = Some ts \<and> k < length ts \<and> ts ! k = t"
proof -
  obtain q s1 where q: "struct_gep L (OVal v) k s = Inr (q, s1)" and ld: "emit_obj L (Load (OVal q)) s1 = Inr (r, s')"
    using assms(4-8) by (auto simp: visit_attr_def obj_type_def ty_pointee_def ty_name_def)
  obtain ta where ta: "q = InstrV (cs_next s) ta" "s1 = push_all b [Gep (OVal v) [i32c 0, i32c k] True] s"
    by (rule emit_pushD [OF q [unfolded struct_gep_def] assms(3)])
  obtain w where w: "emit L (Load (OVal q)) s1 = Inr (w, s')" "r = OVal w"
    using ld by (auto simp: emit_obj_def)
  obtain tl where tl: "w = InstrV (cs_next s1) tl" "s' = push_all b [Load (OVal q)] s1"
    by (rule emit_pushD [OF w(1)]) (simp add: ta assms(3))
  have "layout_inv s C l"
    using layouts.I_steps [OF assms(1) layouts.I_start] assms(2,6) by (simp add: layouts_inv_def)
  then obtain ts where "dict_get (cs_structs s) C = Some ts" "layout_ok l ts"
    by (auto simp: layout_inv_def)
  with layout_ok_get [OF _ assms(7)] show ?thesis
    by (intro exI [of _ ta] exI [of _ tl] exI [of _ ts]) (simp add: w tl ta)
qed

definition point_setup :: "unit cm" where
  "point_setup =
     bindS (class_header std_llapi ''Point'' point_class) (\<lambda>_.
     bindS (append_block 0 ''entry'') position_at_end)"

lemma point_setup_instance:
  "case point_setup empty_cstate of
     Inl e \<Rightarrow> False
   | Inr (u, s) \<Rightarrow>
       cs_builder s = Some 1 \<and> length (cs_blocks s) = 2 \<and>
       dict_get (cs_globals s) (''Point'' @ ''_'' @ ''x'') = None \<and>
       dict_get (cs_layouts s) ''Point'' =
         Some [(''__ref_count__'', (0, IntT 32)), (''x'', (1, IntT 64)), (''name'', (2, i8_ptr)),
               (''y'', (3, PtrT (IntT 64)))] \<and>
       succeeds (visit_attr std_llapi ''x'' (OVal (ArgV 0 0 (PtrT (StructT ''Point'')))) s)"
  by code_simp

lemma point_setup_result:
  obtains s r s' where "csteps std_llapi empty_cstate s" and "cs_builder s = Some 1"
    and "length (cs_blocks s) = 2"
    and "dict_get (cs_globals s) (''Point'' @ ''_'' @ ''x'') = None"
    and "dict_get (cs_layouts s) ''Point'' =
      Some [(''__ref_count__'', (0, IntT 32)), (''x'', (1, IntT 64)), (''name'', (2, i8_ptr)),
            (''y'', (3, PtrT (IntT 64)))]"
    and "visit_attr std_llapi ''x'' (OVal (ArgV 0 0 (PtrT (StructT ''Point'')))) s = Inr (r, s')"
proof -
  obtain u s where s: "point_setup empty_cstate = Inr (u, s)"
    using point_setup_instance by (auto split: sum.splits)
  have "steps.within std_llapi point_setup" unfolding point_setup_def by auto
  then have "csteps std_llapi empty_cstate s" using s by (rule steps.withinD)
  then show ?thesis
    using point_setup_instance that unfolding s by (auto simp: succeeds_iff)
qed

lemma field_access_code_witness:
  "\<exists>s s' r. csteps std_llapi empty_cstate s \<and>
     visit_attr std_llapi ''x'' (OVal (ArgV 0 0 (PtrT (StructT ''Point'')))) s = Inr (r, s') \<and>
     length (block_code s' 1) = length (block_code s 1) + 2"
proof -
  obtain s r s' where s: "csteps std_llapi empty_cstate s" "cs_builder s = Some 1"
    "length (cs_blocks s) = 2"
    "dict_get (cs_globals s) (''Point'' @ ''_'' @ ''x'') = None"
    "dict_get (cs_layouts s) ''Point'' =
      Some [(''__ref_count__'', (0, IntT 32)), (''x'', (1, IntT 64)), (''name'', (2, i8_ptr)),
            (''y'', (3, PtrT (IntT 64)))]"
    "visit_attr std_llapi ''x'' (OVal (ArgV 0 0 (PtrT (StructT ''Point'')))) s = Inr (r, s')"
    by (rule point_setup_result)
  have "val_type (ArgV 0 0 (PtrT (StructT ''Point''))) = PtrT (StructT ''Point'')"
    "dict_get [(''__ref_count__'', (0, IntT 32)), (''x'', (1, IntT 64)), (''name'', (2, i8_ptr)),
            (''y'', (3, PtrT (IntT 64)))] ''x'' = Some (1, IntT 64)" by simp_all
  from field_access_code [OF s(1) std_bodies_final s(2) this(1) s(4,5) this(2) s(6)]
  have "length (block_code s' 1) = length (block_code s 1) + 2"
    by (auto simp: push_instr_block_code s(3))
  with s(1,6) show ?thesis by blast
qed

end
