(* ===== verification/CompilerFlow.thy ===== *)
theory CompilerFlow
  imports CompilerInvariants
begin

text \<open>
  The control-flow graph the compiler builds: which blocks are left without a terminator, and
  where the branches go. The statement visitor leaves at most the block it ends in open; a
  function closes that one as well.
\<close>

section \<open>Open blocks and branch targets\<close>

definition terminator_law :: "llapi \<Rightarrow> bool" where
  "terminator_law L \<longleftrightarrow> (\<forall>code. terminated L code \<longleftrightarrow> list_ex terminator code)"

lemma std_terminator_law: "terminator_law std_llapi"
  by (simp add: terminator_law_def std_llapi_def)

definition open_blocks :: "cstate \<Rightarrow> nat set" where
  "open_blocks s = {b. b < length (cs_blocks s) \<and> \<not> list_ex terminator (block_code s b)}"

text \<open>A block of the function \<open>f\<close>.\<close>

definition block_of :: "nat \<Rightarrow> cstate \<Rightarrow> nat \<Rightarrow> bool" where
  "block_of f s b \<longleftrightarrow> b < length (cs_blocks s) \<and> blk_fn (cs_blocks s ! b) = f"

definition branches_ok :: "cstate \<Rightarrow> bool" where
  "branches_ok s \<longleftrightarrow>
     (\<forall>b < length (cs_blocks s). \<forall>i \<in> set (block_code s b). \<forall>b' \<in> set (branch_targets i).
        block_of (blk_fn (cs_blocks s ! b)) s b')"

text \<open>Blocks are only added, and never move to another function.\<close>

definition grows :: "cstate \<Rightarrow> cstate \<Rightarrow> bool" where
  "grows s s' \<longleftrightarrow> (\<forall>f b. block_of f s b \<longrightarrow> block_of f s' b)"

lemma grows_refl [simp]: "grows s s"
  by (simp add: grows_def)

lemma grows_trans: "grows s t \<Longrightarrow> grows t u \<Longrightarrow> grows s u"
  by (auto simp: grows_def)

lemma grows_block: "grows s s' \<Longrightarrow> block_of f s b \<Longrightarrow> block_of f s' b"
  by (simp add: grows_def)

text \<open>While the function \<open>f\<close> is compiled: the builder is at the block \<open>b\<close>, and only
  blocks in \<open>X\<close> are open.\<close>

definition building :: "nat \<Rightarrow> nat \<Rightarrow> nat set \<Rightarrow> cstate \<Rightarrow> bool" where
  "building f b X s \<longleftrightarrow> cs_builder s = Some b \<and> block_of f s b \<and> branches_ok s \<and> open_blocks s \<subseteq> X"

lemma building_mono: "building f b X s \<Longrightarrow> X \<subseteq> Y \<Longrightarrow> building f b Y s"
  by (auto simp: building_def)

lemma push_instr_blocks [simp]:
  "length (cs_blocks (push_instr b i s)) = length (cs_blocks s)"
  "blk_fn (cs_blocks (push_instr b i s) ! j) = blk_fn (cs_blocks s ! j)"
  "cs_builder (push_instr b i s) = cs_builder s"
  by (cases "b < length (cs_blocks s)"; cases "j = b"; simp add: push_instr_def list_update_beyond)+

lemma push_instr_code:
  "b < length (cs_blocks s) \<Longrightarrow>
     block_code (push_instr b i s) j = (if j = b then block_code s b @ [i] else block_code s j)"
  by (simp add: push_instr_def block_code_def)

lemma push_instr_block_of [simp]: "block_of f (push_instr b i s) j = block_of f s j"
  by (simp add: block_of_def)

lemma push_instr_open:
  "b < length (cs_blocks s) \<Longrightarrow>
     open_blocks (push_instr b i s) = open_blocks s - (if terminator i then {b} else {})"
  by (auto simp: open_blocks_def push_instr_code)

lemma push_instr_branches:
  assumes "branches_ok s" and "b < length (cs_blocks s)"
    and "\<forall>b' \<in> set (branch_targets i). block_of (blk_fn (cs_blocks s ! b)) s b'"
  shows "branches_ok (push_instr b i s)"
  using assms by (auto simp: branches_ok_def push_instr_code)

lemma emit_building:
  assumes "emit L i s = Inr (v, s')" and "building f b X s"
    and "\<forall>b' \<in> set (branch_targets i). block_of f s b'"
  shows "building f b (X - (if terminator i then {b} else {})) s' \<and> grows s s'"
  using assms push_instr_branches [of s b i] push_instr_open [of b s i]
  by (auto simp: building_def grows_def block_of_def dest!: emit_InrD)

lemma append_block_building:
  assumes "append_block f n s = Inr (b', s')" and "building f b X s"
  shows "building f b (insert b' X) s' \<and> grows s s' \<and> block_of f s' b'"
proof -
  have s': "b' = length (cs_blocks s)"
    "s' = s\<lparr>cs_blocks := cs_blocks s @ [\<lparr>blk_fn = f, blk_name = n, blk_code = []\<rparr>]\<rparr>"
    using assms(1) by (simp_all add: append_block_def)
  have old: "block_of g s' j" if "block_of g s j" for g j
    using that by (simp add: s' block_of_def nth_append)
  have code: "block_code s' j = (if j < length (cs_blocks s) then block_code s j else [])"
    if "j < length (cs_blocks s')" for j
    using that by (auto simp: s' block_code_def nth_append)
  have "open_blocks s' \<subseteq> insert b' (open_blocks s)"
    using code by (auto simp: open_blocks_def s' less_Suc_eq)
  moreover have "branches_ok s'"
    using assms(2) old
    by (auto simp: branches_ok_def building_def code split: if_splits)
       (simp add: s' nth_append)
  moreover have "block_of f s' b'" by (simp add: s' block_of_def)
  ultimately show ?thesis
    using assms(2) old by (auto simp: building_def grows_def s')
qed

section \<open>Statements\<close>

text \<open>A statement moves the builder to another block of the same function; of the blocks that were
  closed, and of the new ones, only that block can be open.\<close>

definition flow :: "cstate \<Rightarrow> cstate \<Rightarrow> bool" where
  "flow s s' \<longleftrightarrow>
     (\<forall>f b X. building f b X s \<longrightarrow> grows s s' \<and> (\<exists>b'. building f b' (insert b' (X - {b})) s'))"

lemma flowD: "flow s s' \<Longrightarrow> building f b X s \<Longrightarrow> grows s s' \<and> (\<exists>b'. building f b' (insert b' (X - {b})) s')"
  by (simp add: flow_def)

lemma flow_trans:
  assumes "flow s t" and "flow t u"
  shows "flow s u"
  unfolding flow_def
proof (intro allI impI)
  fix f b X
  assume s: "building f b X s"
  obtain b1 where t: "grows s t" "building f b1 (insert b1 (X - {b})) t"
    using flowD [OF assms(1) s] by auto
  obtain b2 where u: "grows t u" "building f b2 (insert b2 (insert b1 (X - {b}) - {b1})) u"
    using flowD [OF assms(2) t(2)] by auto
  have "building f b2 (insert b2 (X - {b})) u"
    by (rule building_mono [OF u(2)]) auto
  with grows_trans [OF t(1) u(1)] show "grows s u \<and> (\<exists>b'. building f b' (insert b' (X - {b})) u)"
    by auto
qed

lemma flow_same:
  assumes "cs_builder s' = cs_builder s" and "cs_blocks s' = cs_blocks s"
  shows "flow s s'"
proof -
  have "block_of f s' b = block_of f s b" "block_code s' b = block_code s b" for f b
    using assms(2) by (simp_all add: block_of_def block_code_def)
  then have "building f b X s' = building f b X s" for f b X
    using assms by (simp add: building_def branches_ok_def open_blocks_def)
  moreover have "grows s s'" using \<open>\<And>f b. block_of f s' b = block_of f s b\<close> by (simp add: grows_def)
  ultimately show ?thesis
    by (auto simp: flow_def intro: building_mono)
qed

lemma flow_emit:
  assumes "branch_targets i = []" and "emit L i s = Inr (v, s')"
  shows "flow s s'"
  unfolding flow_def
proof (intro allI impI)
  fix f b X
  assume s: "building f b X s"
  have "building f b (X - (if terminator i then {b} else {})) s' \<and> grows s s'"
    by (rule emit_building [OF assms(2) s]) (simp add: assms(1))
  moreover have "X - (if terminator i then {b} else {}) \<subseteq> insert b (X - {b})" by auto
  ultimately show "grows s s' \<and> (\<exists>b'. building f b' (insert b' (X - {b})) s')"
    by (meson building_mono)
qed

interpretation flow: expr_frame L flow for L
proof unfold_locales
  show "flow s s" for s by (rule flow_same) simp_all
  show "flow s t \<Longrightarrow> flow t u \<Longrightarrow> flow s u" for s t u by (rule flow_trans)
next
  fix i s v s'
  assume "\<not> terminator i" "emit L i s = Inr (v, s')"
  moreover then have "branch_targets i = []" by (cases i) auto
  ultimately show "flow s s'" by (blast intro: flow_emit)
next
  fix p n t bytes c s v s'
  assume "bindS (next_name p) (\<lambda>n. new_data L n t bytes c) s = Inr (v, s')"
  then show "flow s s'" by (auto dest!: next_name_InrD new_data_InrD intro!: flow_same)
next
  fix n s u s'
  assume "set_type n (PtrT (StructT n)) s = Inr (u, s')"
  then show "flow s s'" by (auto simp: set_type_def intro: flow_same)
qed

interpretation flow: line_frame L flow for L
  by unfold_locales (auto intro: flow_emit flow_same)

lemma flow_import [intro!]: "flow.within (visit_ImportFrom L m names)"
proof -
  have "flow.within (declare_function L n t)" for n t
    by (rule flow.withinI)
      (auto simp: declare_function_def set_global_def dest!: new_function_InrD intro!: flow_same)
  then show ?thesis
    unfolding visit_ImportFrom_def import_c_name_def by (auto intro!: flow.within_iter)
qed

text \<open>The position of the builder inside a visitor that started in \<open>s0\<close>, with the blocks
  \<open>J\<close> at hand as branch targets.\<close>

definition at_block :: "cstate \<Rightarrow> nat \<Rightarrow> nat set \<Rightarrow> nat \<Rightarrow> nat set \<Rightarrow> cstate \<Rightarrow> bool" where
  "at_block s0 f J b X s \<longleftrightarrow> building f b X s \<and> grows s0 s \<and> (\<forall>j\<in>J. block_of f s j)"

lemma at_emit:
  assumes "set (branch_targets i) \<subseteq> J"
  shows "hoare (at_block s0 f J b X) (emit_unit L i) (\<lambda>_. at_block s0 f J b (X - (if terminator i then {b} else {})))"
proof (rule hoareI)
  fix s a s'
  assume s: "at_block s0 f J b X s" and run: "emit_unit L i s = Inr (a, s')"
  obtain v where v: "emit L i s = Inr (v, s')" using run by (auto simp: emit_unit_def)
  have "building f b (X - (if terminator i then {b} else {})) s' \<and> grows s s'"
    by (rule emit_building [OF v]) (use s assms in \<open>auto simp: at_block_def\<close>)
  then show "at_block s0 f J b (X - (if terminator i then {b} else {})) s'"
    using s by (auto simp: at_block_def intro: grows_trans grows_block)
qed

lemma at_emit_terminator:
  assumes "set (branch_targets i) \<subseteq> J" and "terminator i"
  shows "hoare (at_block s0 f J b X) (emit_unit L i) (\<lambda>_. at_block s0 f J b (X - {b}))"
  using at_emit [OF assms(1), of s0 f b X L] assms(2) by simp

lemma at_append:
  "hoare (at_block s0 f J b X) (append_block f n) (\<lambda>j. at_block s0 f (insert j J) b (insert j X))"
proof (rule hoareI)
  fix s j s'
  assume s: "at_block s0 f J b X s" and run: "append_block f n s = Inr (j, s')"
  have "building f b (insert j X) s' \<and> grows s s' \<and> block_of f s' j"
    by (rule append_block_building [OF run]) (use s in \<open>simp add: at_block_def\<close>)
  then show "at_block s0 f (insert j J) b (insert j X) s'"
    using s by (auto simp: at_block_def intro: grows_trans grows_block)
qed

lemma at_position:
  "j \<in> J \<Longrightarrow> hoare (at_block s0 f J b X) (position_at_end j) (\<lambda>_. at_block s0 f J j X)"
  by (rule hoareI)
    (auto simp: at_block_def building_def position_at_end_def branches_ok_def open_blocks_def
      block_of_def block_code_def grows_def)

lemma at_flow:
  assumes "flow.within m"
  shows "hoare (at_block s0 f J b X) m (\<lambda>_ s. \<exists>b'. at_block s0 f J b' (insert b' (X - {b})) s)"
proof (rule hoareI)
  fix s a s'
  assume s: "at_block s0 f J b X s" and run: "m s = Inr (a, s')"
  have "flow s s'" by (rule flow.withinD [OF assms run])
  then obtain b' where "grows s s'" "building f b' (insert b' (X - {b})) s'"
    using s flowD [of s s' f b X] by (auto simp: at_block_def)
  then show "\<exists>b'. at_block s0 f J b' (insert b' (X - {b})) s'"
    using s by (auto simp: at_block_def intro!: exI [of _ b'] intro: grows_trans grows_block)
qed

lemma at_cur_function:
  "hoare (at_block s0 f J b X) cur_function (\<lambda>g s. g = f \<and> at_block s0 f J b X s)"
  by (rule hoareI) (auto simp: at_block_def building_def block_of_def cur_function_def)

lemma at_branch_if_open:
  assumes "terminator_law L" and "j \<in> J"
  shows "hoare (at_block s0 f J b X) (branch_if_open L j) (\<lambda>_. at_block s0 f J b (X - {b}))"
  unfolding branch_if_open_def
proof (rule hoare_bind)
  show "hoare (at_block s0 f J b X) (is_terminated L)
      (\<lambda>d s. (d \<longrightarrow> b \<notin> open_blocks s) \<and> at_block s0 f J b X s)"
    using assms(1)
    by (intro hoareI)
      (auto simp: is_terminated_def cur_block_def at_block_def building_def open_blocks_def terminator_law_def)
next
  fix d
  show "hoare (\<lambda>s. (d \<longrightarrow> b \<notin> open_blocks s) \<and> at_block s0 f J b X s)
      (if d then retS () else emit_unit L (Br j)) (\<lambda>_. at_block s0 f J b (X - {b}))"
  proof (cases d)
    case True
    then show ?thesis by (auto simp: hoare_def at_block_def building_def)
  next
    case False
    then show ?thesis using at_emit_terminator [of "Br j" J s0 f b X L] assms(2) by (simp add: hoare_def)
  qed
qed

lemma at_start: "building f b X s0 \<Longrightarrow> at_block s0 f {} b X s0"
  by (simp add: at_block_def)

lemma flow_of_hoare:
  assumes "\<And>s0 f b X. hoare (at_block s0 f {} b X) m (\<lambda>_ s. \<exists>J b'. at_block s0 f J b' (insert b' (X - {b})) s)"
  shows "flow.within m"
proof (rule flow.withinI)
  fix s a s'
  assume run: "m s = Inr (a, s')"
  show "flow s s'"
    unfolding flow_def
  proof (intro allI impI)
    fix f b X
    assume "building f b X s"
    from hoareD [OF assms at_start [OF this] run]
    show "grows s s' \<and> (\<exists>b'. building f b' (insert b' (X - {b})) s')"
      by (auto simp: at_block_def)
  qed
qed

lemma flow_While:
  assumes "terminator_law L" and "flow.within body"
  shows "flow.within (visit_While L test body)"
proof (rule flow_of_hoare)
  fix s0 f b X
  show "hoare (at_block s0 f {} b X) (visit_While L test body)
      (\<lambda>_ s. \<exists>J b'. at_block s0 f J b' (insert b' (X - {b})) s)"
    unfolding visit_While_def
    apply (rule hoare_bind [OF at_cur_function], rule hoare_fact, simp only:)
    apply (rule hoare_bind [OF at_append])+
    apply (rule hoare_bind [OF at_emit_terminator], simp, simp)
    apply (rule hoare_bind [OF at_position], simp)
    apply (rule hoare_bind [OF at_flow [OF flow.within_visit_expr]], rule hoare_ex)
    apply (rule hoare_bind [OF at_emit_terminator], simp, simp)
    apply (rule hoare_bind [OF at_position], simp)
    apply (rule hoare_bind [OF at_flow [OF assms(2)]], rule hoare_ex)
    apply (rule hoare_bind [OF at_branch_if_open [OF assms(1)]], simp)
    apply (rule hoare_weaken [OF at_position], simp)
    apply (intro exI, auto simp: at_block_def elim: building_mono)
    done
qed

lemma flow_If:
  assumes "terminator_law L" and "flow.within body"
    and "\<And>m. orelse = Some m \<Longrightarrow> flow.within m"
  shows "flow.within (visit_If L test body orelse)"
proof (rule flow_of_hoare)
  fix s0 f b X
  show "hoare (at_block s0 f {} b X) (visit_If L test body orelse)
      (\<lambda>_ s. \<exists>J b'. at_block s0 f J b' (insert b' (X - {b})) s)"
  proof (cases orelse)
    case None
    show ?thesis
      unfolding visit_If_def None option.case
      apply (rule hoare_bind [OF at_cur_function], rule hoare_fact, simp only:)
      apply (rule hoare_bind [OF at_append])+
      apply (rule hoare_ret_bind)
      apply (rule hoare_bind [OF at_append])
      apply (rule hoare_bind [OF at_emit_terminator], simp, simp)
      apply (rule hoare_bind [OF at_position], simp)
      apply (rule hoare_bind [OF at_flow [OF flow.within_visit_expr]], rule hoare_ex)
      apply (rule hoare_bind [OF at_emit_terminator], simp, simp)
      apply (rule hoare_bind [OF at_position], simp)
      apply (rule hoare_bind [OF at_flow [OF assms(2)]], rule hoare_ex)
      apply (rule hoare_bind [OF at_branch_if_open [OF assms(1)]], simp)
      apply (rule hoare_ret_bind)
      apply (rule hoare_weaken [OF at_position], simp)
      apply (intro exI, auto simp: at_block_def elim: building_mono)
      done
  next
    case (Some run_else)
    show ?thesis
      unfolding visit_If_def Some option.case
      apply (rule hoare_bind [OF at_cur_function], rule hoare_fact, simp only:)
      apply (rule hoare_bind [OF at_append])+
      apply (rule hoare_bind [OF at_emit_terminator], simp, simp)
      apply (rule hoare_bind [OF at_position], simp)
      apply (rule hoare_bind [OF at_flow [OF flow.within_visit_expr]], rule hoare_ex)
      apply (rule hoare_bind [OF at_emit_terminator], simp, simp)
      apply (rule hoare_bind [OF at_position], simp)
      apply (rule hoare_bind [OF at_flow [OF assms(2)]], rule hoare_ex)
      apply (rule hoare_bind [OF at_branch_if_open [OF assms(1)]], simp)
      apply (simp only: bindS_assoc)
      apply (rule hoare_bind [OF at_position], simp)
      apply (rule hoare_bind [OF at_flow [OF assms(3) [OF Some]]], rule hoare_ex)
      apply (rule hoare_bind [OF at_branch_if_open [OF assms(1)]], simp)
      apply (rule hoare_weaken [OF at_position], simp)
      apply (intro exI, auto simp: at_block_def elim: building_mono)
      done
  qed
qed

text \<open>Statements without a function or a class inside, the ones a function body can be made of.\<close>

fun flat :: "stmt \<Rightarrow> bool" where
  "flat (FunctionDef n ps body r) = False"
| "flat (ClassDef C body) = False"
| "flat (If test body orelse) = (list_all flat body \<and> list_all flat orelse)"
| "flat (While test body orelse) = list_all flat body"
| "flat (OtherStmt c children) =
     list_all (\<lambda>ch. case ch of ChildE e \<Rightarrow> True | ChildS st \<Rightarrow> flat st) children"
| "flat st = True"

lemma flow_visit_stmt:
  assumes "terminator_law L"
  shows "flat st \<Longrightarrow> flow.within (visit_stmt L st)"
    and "case ch of ChildE e \<Rightarrow> True | ChildS st' \<Rightarrow> flat st' \<longrightarrow> flow.within (visit_stmt L st')"
proof (induction st and ch)
  case (If test body orelse)
  have "flow.within (iterS (visit_stmt L) body)" "flow.within (iterS (visit_stmt L) orelse)"
    using If by (auto simp: list_all_iff intro!: flow.within_iter)
  then show ?case by (auto intro: flow_If [OF assms])
next
  case (While test body orelse)
  have "flow.within (iterS (visit_stmt L) body)"
    using While by (auto simp: list_all_iff intro!: flow.within_iter)
  then show ?case by (auto intro: flow_While [OF assms])
next
  case (OtherStmt c children)
  have "flow.within (case ch of ChildE e \<Rightarrow> bindS (visit_expr L e) (\<lambda>_. retS ()) | ChildS st \<Rightarrow> visit_stmt L st)"
    if "ch \<in> set children" for ch
    using OtherStmt(1) [OF that] OtherStmt(2) that by (cases ch) (auto simp: list_all_iff)
  then show ?case by (auto intro!: flow.within_iter)
qed (auto split: child.split)

lemma flow_body:
  "terminator_law L \<Longrightarrow> list_all flat body \<Longrightarrow> flow.within (iterS (visit_stmt L) body)"
  by (auto simp: list_all_iff intro!: flow.within_iter flow_visit_stmt)

end
