(* ===== verification/CompilerBodies.thy ===== *)
theory CompilerBodies
  imports CompilerModule
begin

text \<open>
  What holds between the top-level steps of a compilation, from what holds inside a function: the
  contract \<open>body_contract\<close> between a property of states between functions and the visitor of
  function bodies. It is instantiated with the closedness of blocks and with the absence of code
  behind a terminator.
\<close>

section \<open>Steps that leave the code alone\<close>

definition same_blocks :: "cstate \<Rightarrow> cstate \<Rightarrow> bool" where
  "same_blocks s s' \<longleftrightarrow> cs_blocks s' = cs_blocks s"

interpretation blocks: type_frame same_blocks
  by unfold_locales (auto simp: same_blocks_def set_type_def)

lemma blocks_mod [intro!]: "(\<And>s. cs_blocks (f s) = cs_blocks s) \<Longrightarrow> blocks.within (modS f)"
  by (rule blocks.within_mod) (simp add: same_blocks_def)

lemma blocks_new_function [intro!]: "blocks.within (new_function L n t)"
  by (rule blocks.withinI) (auto simp: same_blocks_def dest!: new_function_InrD)

lemma blocks_new_data [intro!]: "blocks.within (new_data L n t bytes c)"
  by (rule blocks.withinI) (auto simp: same_blocks_def dest!: new_data_InrD)

lemma blocks_set_global [intro!]: "blocks.within (set_global n v)"
  unfolding set_global_def by auto

lemma blocks_set_type [intro!]: "blocks.within (set_type n t)"
  unfolding set_type_def by auto

lemma blocks_set_body [intro!]: "blocks.within (set_body L C ts)"
  by (rule blocks.withinI) (auto simp: same_blocks_def dest!: set_body_InrD)

lemma blocks_declare [intro!]: "blocks.within (declare_function L n t)"
  unfolding declare_function_def by auto

lemma blocks_import [intro!]: "blocks.within (visit_ImportFrom L m names)"
  unfolding visit_ImportFrom_def import_c_name_def by (auto intro!: blocks.within_iter)

lemma blocks_declare_json [intro!]: "blocks.within (declare_json L p i64)"
  unfolding declare_json_def declare_c_def by auto

lemma blocks_require_class [intro!]: "blocks.within (require_class w C)"
  by (rule blocks.withinI) (auto simp: require_class_def same_blocks_def split: if_splits)

lemma blocks_class_fields_loop [intro!]: "blocks.within (class_fields_loop body l k ts)"
  by (induction body l k ts rule: class_fields_loop.induct) auto

lemma blocks_compiler_init [intro!]: "blocks.within (compiler_init L triple)"
  unfolding compiler_init_def Let_def by (auto split: option.split)

section \<open>Deferred statements\<close>

text \<open>Visiting leaves the statements put off to \<open>lambpie_init\<close> and the handler alone.\<close>

definition defers :: "cstate \<Rightarrow> cstate \<Rightarrow> bool" where
  "defers s s' \<longleftrightarrow> cs_init_stmts s' = cs_init_stmts s \<and> cs_handle s' = cs_handle s"

interpretation defers: module_frame L defers for L
  by unfold_locales
    (auto simp: defers_def push_instr_def append_block_def set_type_def declare_function_def
      set_global_def dest!: emit_InrD next_name_InrD new_data_InrD new_function_InrD)

lemma defers_new_data [intro!]: "defers.within (new_data L n t bytes c)"
  by (rule defers.withinI) (auto simp: defers_def dest!: new_data_InrD)

lemma defers_compiler_init: "defers.within (compiler_init L triple)"
  unfolding compiler_init_def Let_def
  by (auto simp: defers_def split: option.split)

text \<open>The statements put off to \<open>lambpie_init\<close> are assignments and expressions, and the body
  of the handler satisfies \<open>good\<close>.\<close>

definition deferrable :: "stmt \<Rightarrow> bool" where
  "deferrable st = (case st of AnnAssign t a v \<Rightarrow> True | Assign ts v \<Rightarrow> True | ExprStmt e \<Rightarrow> True | _ \<Rightarrow> False)"

definition deferred_with :: "(stmt list \<Rightarrow> bool) \<Rightarrow> cstate \<Rightarrow> bool" where
  "deferred_with good s \<longleftrightarrow> list_all deferrable (cs_init_stmts s) \<and>
     (case cs_handle s of None \<Rightarrow> True | Some (ps, body, r) \<Rightarrow> good body)"

lemma deferred_with_cong: "defers s s' \<Longrightarrow> deferred_with good s \<Longrightarrow> deferred_with good s'"
  by (simp add: defers_def deferred_with_def)

text \<open>The top-level statements the compiler is meant for: functions and classes whose bodies are
  \<open>good\<close>, imports, the statements deferred to \<open>lambpie_init\<close>, and the main block, which is
  skipped.\<close>

definition method_with :: "(stmt list \<Rightarrow> bool) \<Rightarrow> stmt \<Rightarrow> bool" where
  "method_with good st = (case st of FunctionDef n ps body r \<Rightarrow> good body | _ \<Rightarrow> True)"

definition top_with :: "(stmt list \<Rightarrow> bool) \<Rightarrow> stmt \<Rightarrow> bool" where
  "top_with good st \<longleftrightarrow> is_main_block st \<or>
     (case st of
        FunctionDef n ps body r \<Rightarrow> good body
      | ClassDef C body \<Rightarrow> list_all (method_with good) body
      | ImportFrom m names \<Rightarrow> True
      | AnnAssign t a v \<Rightarrow> True
      | Assign ts v \<Rightarrow> True
      | ExprStmt e \<Rightarrow> True
      | Pass \<Rightarrow> True
      | _ \<Rightarrow> False)"

lemma deferred_visit_top:
  assumes "top_with good st" and "visit_top L st s = Inr (u, s')" and "deferred_with good s"
  shows "deferred_with good s'"
proof (cases "visit_top L st = visit_stmt L st")
  case True
  then have "defers s s'" using assms(2) by (metis defers.withinD [OF defers.within_visit_stmt])
  then show ?thesis using assms(3) by (rule deferred_with_cong)
next
  case False
  then show ?thesis using assms
    by (auto simp: visit_top_def top_with_def deferred_with_def deferrable_def simp del: visit_stmt.simps
        split: if_splits stmt.splits)
qed

text \<open>\<open>synthesize_init\<close> with its statements as a parameter.\<close>

definition init_with :: "llapi \<Rightarrow> stmt list \<Rightarrow> unit cm" where
  "init_with L stmts =
     bindS (new_function L ''lambpie_init'' (FunT VoidT [] False)) (\<lambda>(f, fv).
     bindS (append_block f ''entry'') (\<lambda>entry.
     bindS (position_at_end entry) (\<lambda>_.
     bindS (modS (\<lambda>s. s\<lparr>cs_locals := [], cs_arena := ARENA_STATIC\<rparr>)) (\<lambda>_.
     bindS (iterS (visit_stmt L) stmts) (\<lambda>_.
     bindS (is_terminated L) (\<lambda>done.
     bindS (if done then retS () else emit_unit L RetVoid) retS))))))"

lemma synthesize_init_with: "synthesize_init L s = init_with L (cs_init_stmts s) s"
  by (cases "register L (cs_names s) ''lambpie_init''")
    (simp_all add: synthesize_init_def init_with_def bindS_def getS_def modS_def append_block_def
      position_at_end_def new_function_def register_name_def retS_def cong: sum.case_cong prod.case_cong
      split: sum.split)

section \<open>The contract\<close>

text \<open>\<open>P\<close> holds between functions. Inside the function \<open>f\<close> the straight code of an expression
  keeps \<open>Inside f\<close>, a body of \<open>good\<close> statements leads from it to \<open>Done f\<close>, and a terminator
  leads back to \<open>P\<close>, after a body only where the block needs one.\<close>

locale body_contract = expr_frame L R for L R +
  fixes P :: "cstate \<Rightarrow> bool" and Inside :: "nat \<Rightarrow> cstate \<Rightarrow> bool" and Done :: "nat \<Rightarrow> cstate \<Rightarrow> bool"
    and good :: "stmt list \<Rightarrow> bool"
  assumes P_blocks: "same_blocks s s' \<Longrightarrow> P s \<Longrightarrow> P s'"
    and R_scopes: "same_blocks s s' \<Longrightarrow> cs_builder s' = cs_builder s \<Longrightarrow> R s s'"
    and enter: "append_block f n s = Inr (b, s') \<Longrightarrow> P s \<Longrightarrow> Inside f (s'\<lparr>cs_builder := Some b\<rparr>)"
    and inside: "R s s' \<Longrightarrow> Inside f s \<Longrightarrow> Inside f s'"
    and body: "good stmts \<Longrightarrow> hoare (Inside f) (iterS (visit_stmt L) stmts) (\<lambda>_. Done f)"
    and leave: "terminator i \<Longrightarrow> branch_targets i = [] \<Longrightarrow> hoare (Inside f) (emit_unit L i) (\<lambda>_. P)"
    and close: "terminator i \<Longrightarrow> branch_targets i = [] \<Longrightarrow>
      hoare (Done f) (bindS (is_terminated L) (\<lambda>d. if d then retS () else emit_unit L i)) (\<lambda>_. P)"
    and good_deferrable: "list_all deferrable stmts \<Longrightarrow> good stmts"
begin

lemma hoare_blocks: "blocks.within m \<Longrightarrow> hoare P m (\<lambda>_. P)"
  by (rule hoareI) (auto dest: blocks.withinD intro: P_blocks)

lemma hoare_inside: "within m \<Longrightarrow> hoare (Inside f) m (\<lambda>_. Inside f)"
  by (rule hoareI) (auto dest: withinD intro: inside)

lemma hoare_enter:
  assumes "\<And>b. hoare (Inside f) (k b) Q"
  shows "hoare P (bindS (append_block f n) (\<lambda>b. bindS (position_at_end b) (\<lambda>_. k b))) Q"
proof (rule hoareI)
  fix s a u
  assume P: "P s" and run: "bindS (append_block f n) (\<lambda>b. bindS (position_at_end b) (\<lambda>_. k b)) s = Inr (a, u)"
  obtain b s' where b: "append_block f n s = Inr (b, s')" and k: "k b (s'\<lparr>cs_builder := Some b\<rparr>) = Inr (a, u)"
    using run by (auto simp: position_at_end_def)
  show "Q a u" by (rule hoareD [OF assms enter [OF b P] k])
qed

lemma hoare_close:
  assumes "terminator i" and "branch_targets i = []" and "hoare P (k ()) Q"
  shows "hoare (Done f) (bindS (is_terminated L) (\<lambda>d. bindS (if d then retS () else emit_unit L i) k)) Q"
proof -
  have "bindS (is_terminated L) (\<lambda>d. bindS (if d then retS () else emit_unit L i) k) =
      bindS (bindS (is_terminated L) (\<lambda>d. if d then retS () else emit_unit L i)) k"
    by (simp add: bindS_assoc)
  then show ?thesis using hoare_bind [OF close [OF assms(1,2)]] assms(3) by simp
qed

lemma within_scope [intro]: "(\<And>s. cs_blocks (g s) = cs_blocks s) \<Longrightarrow> (\<And>s. cs_builder (g s) = cs_builder s) \<Longrightarrow> within (modS g)"
  by (rule within_mod) (simp add: R_scopes same_blocks_def)

lemma within_param [intro!]: "within (bind_param L f p)"
  unfolding bind_param_def set_local_def by auto

lemma hoare_FunctionDef:
  assumes "good b"
  shows "hoare P (visit_FunctionDef L C n ps r (iterS (visit_stmt L) b)) (\<lambda>_. P)"
proof -
  have close_eq: "(if d then retS () else if t \<noteq> VoidT then emit_unit L Unreachable else emit_unit L RetVoid) =
      (if d then retS () else emit_unit L (if t \<noteq> VoidT then Unreachable else RetVoid))" for d t
    by simp
  have scopes: "within (modS (\<lambda>s. s\<lparr>cs_locals := [], cs_arena_tags := []\<rparr>))" by auto
  have params: "within (iterS (bind_param L f) xs)" for f xs by auto
  have saved: "hoare P (modS (\<lambda>s. s\<lparr>cs_arena := k\<rparr>)) (\<lambda>_. P)" for k by (rule hoare_blocks) auto
  have mode: "blocks.within (if C = None \<and> n = ''handle'' then modS (\<lambda>s. s\<lparr>cs_arena := ARENA_REQ\<rparr>) else retS ())"
    by auto
  have self: "blocks.within (case C of None \<Rightarrow> retS [] | Some D \<Rightarrow> bindS (types_get D) (\<lambda>t. retS [t]))"
    by auto
  have types: "blocks.within (mapS (\<lambda>(n, a). get_type_opt a) xs)" for xs :: params
    by (rule blocks.within_map) auto
  show ?thesis
    unfolding visit_FunctionDef_def Let_def close_eq
    apply (rule hoare_bind [OF hoare_blocks], rule blocks.within_get)
    apply (rule hoare_bind [OF hoare_blocks [OF mode]])
    apply (rule hoare_bind [OF hoare_blocks [OF blocks.within_get_type_opt]])
    apply (rule hoare_bind [OF hoare_blocks [OF self]])
    apply (rule hoare_bind [OF hoare_blocks [OF types]])
    apply (rule hoare_bind [OF hoare_blocks [OF blocks_new_function]])
    apply (simp only: split_paired_all prod.case)
    apply (rule hoare_bind [OF hoare_blocks [OF blocks_set_global]])
    apply (rule hoare_enter)
    apply (rule hoare_bind [OF hoare_inside [OF scopes]])
    apply (rule hoare_bind [OF hoare_inside [OF params]])
    apply (rule hoare_bind [OF body [OF assms]])
    apply (rule hoare_close, simp, simp, rule saved)
    done
qed

lemma hoare_auto_init: "hoare P (generate_auto_init L C l) (\<lambda>_. P)"
proof -
  have scope: "within (modS (\<lambda>s. s\<lparr>cs_locals := []\<rparr>))" by auto
  have fields: "within (iterS (\<lambda>(i, n, k, t). store_field L p k (v i t)) xs)"
    for p v and xs :: "(nat \<times> string \<times> nat \<times> ty) list"
    by auto
  have restore: "hoare P (modS (\<lambda>s. s\<lparr>cs_builder := b, cs_locals := l\<rparr>)) (\<lambda>_. P)" for b l
    by (rule hoare_blocks) auto
  note straight = hoare_bind [OF hoare_inside]
  show ?thesis
    unfolding generate_auto_init_def Let_def
    apply (rule hoare_bind [OF hoare_blocks [OF blocks_new_function]])
    apply (simp only: split_paired_all prod.case)
    apply (rule hoare_bind [OF hoare_blocks [OF blocks_set_global]])
    apply (rule hoare_bind [OF hoare_blocks [OF blocks.within_get]])
    apply (rule hoare_enter)
    apply (rule straight [OF scope])
    apply (rule straight [OF within_emit], simp)
    apply (rule straight [OF within_emit_unit], simp)
    apply (rule straight [OF within_emit], simp)
    apply (rule straight [OF within_lift])
    apply (rule straight [OF within_store_field])
    apply (rule straight [OF fields])
    apply (rule hoare_bind [OF leave], simp, simp, rule restore)
    done
qed

lemma hoare_class_header: "hoare P (class_header L C b) (\<lambda>_. P)"
  unfolding class_header_def
  by (auto intro!: hoare_bind [OF hoare_blocks] hoare_auto_init intro: hoare_blocks)

lemma hoare_init:
  assumes "good stmts"
  shows "hoare P (init_with L stmts) (\<lambda>_. P)"
proof -
  have scope: "within (modS (\<lambda>s. s\<lparr>cs_locals := [], cs_arena := k\<rparr>))" for k by auto
  show ?thesis
    unfolding init_with_def
    apply (rule hoare_bind [OF hoare_blocks [OF blocks_new_function]])
    apply (simp only: split_paired_all prod.case)
    apply (rule hoare_enter)
    apply (rule hoare_bind [OF hoare_inside [OF scope]])
    apply (rule hoare_bind [OF body [OF assms]])
    apply (rule hoare_close, simp, simp)
    apply (rule hoare_blocks, rule blocks.within_ret)
    done
qed

lemma hoare_handle: "hoare P (synthesize_handle L p i64 jf t el rl) (\<lambda>_. P)"
proof -
  have scope: "within (modS (\<lambda>s. s\<lparr>cs_locals := [], cs_arena := k\<rparr>))" for k by auto
  have reads: "within (iterS (read_field L i64 a jf ep el es) xs)" for a ep el es xs by auto
  note straight = hoare_bind [OF hoare_inside]
  show ?thesis
    unfolding synthesize_handle_def Let_def
    apply (rule hoare_bind [OF hoare_blocks [OF blocks_new_function]])
    apply (simp only: split_paired_all prod.case)
    apply (rule hoare_enter)
    apply (rule straight [OF scope])
    apply (rule straight [OF within_object_size])
    apply (rule straight [OF within_global_get])
    apply (rule straight [OF within_object_at])
    apply (rule straight [OF within_store_field])
    apply (rule straight [OF reads])
    apply (rule straight [OF within_global_get])
    apply (rule straight [OF within_emit], simp)
    apply (rule straight [OF within_emit_obj], simp)
    apply (rule straight [OF within_write_fields])
    apply (rule straight [OF within_emit_obj], simp)
    apply (rule leave; simp)
    done
qed

text \<open>Between top-level steps: \<open>P\<close>, with \<open>good\<close> deferred statements.\<close>

definition settled :: "cstate \<Rightarrow> bool" where
  "settled s \<longleftrightarrow> deferred_with good s \<and> P s"

lemma hoare_settled:
  assumes "hoare P m (\<lambda>_. P)" and "defers.within m"
  shows "hoare settled m (\<lambda>_. settled)"
  using assms by (auto simp: hoare_def settled_def dest: defers.withinD deferred_with_cong)

lemma settled_blocks: "blocks.within m \<Longrightarrow> defers.within m \<Longrightarrow> hoare settled m (\<lambda>_. settled)"
  by (rule hoare_settled [OF hoare_blocks])

lemma hoare_visit_top:
  assumes "top_with good st"
  shows "hoare P (visit_top L st) (\<lambda>_. P)"
proof (cases "is_main_block st")
  case True
  then show ?thesis by (auto simp: visit_top_def intro: hoare_blocks)
next
  case False
  have init: "hoare P (modS (\<lambda>s. s\<lparr>cs_init_stmts := g s\<rparr>)) (\<lambda>_. P)" for g by (rule hoare_blocks) auto
  show ?thesis
  proof (cases st)
    case (FunctionDef n ps b r)
    have saved: "hoare P (modS (\<lambda>s. s\<lparr>cs_handle := h\<rparr>)) (\<lambda>_. P)" for h by (rule hoare_blocks) auto
    show ?thesis using assms False FunctionDef hoare_FunctionDef [of b None n ps r] saved
      by (simp add: visit_top_def top_with_def)
  next
    case (ClassDef C b)
    have "hoare P (case st of
        FunctionDef n ps fbody r \<Rightarrow> visit_FunctionDef L (Some C) n ps r (iterS (visit_stmt L) fbody)
      | _ \<Rightarrow> retS ()) (\<lambda>_. P)" if "st \<in> set b" for st
      using assms False that ClassDef
      by (auto simp: top_with_def method_with_def list_all_iff intro!: hoare_FunctionDef
          intro: hoare_blocks split: stmt.split)
    then have "hoare P (iterS (\<lambda>st. case st of
        FunctionDef n ps fbody r \<Rightarrow> visit_FunctionDef L (Some C) n ps r (iterS (visit_stmt L) fbody)
      | _ \<Rightarrow> retS ()) b) (\<lambda>_. P)"
      by (rule hoare_iter)
    then show ?thesis using False ClassDef
      by (auto simp: visit_top_def intro!: hoare_bind [OF hoare_class_header])
  qed (use assms False init in \<open>auto simp: visit_top_def top_with_def intro: hoare_blocks\<close>)
qed

lemma hoare_settled_module:
  assumes "list_all (top_with good) tree"
  shows "hoare settled (visit_Module L tree) (\<lambda>_. settled)"
  unfolding visit_Module_def
proof (rule hoare_iter, rule hoareI)
  fix st s u s'
  assume st: "st \<in> set tree" and s: "settled s" and run: "visit_top L st s = Inr (u, s')"
  have top: "top_with good st" using assms st by (simp add: list_all_iff)
  then show "settled s'"
    using s hoareD [OF hoare_visit_top [OF top] _ run] deferred_visit_top [OF top run]
    by (auto simp: settled_def)
qed

lemma hoare_settled_init: "hoare settled (synthesize_init L) (\<lambda>_. settled)"
proof (rule hoareI)
  fix s u s'
  assume s: "settled s" and run: "synthesize_init L s = Inr (u, s')"
  have "defers s s'" by (rule defers.withinD [OF defers.within_synthesize_init run])
  moreover have "P s'"
    using hoareD [OF hoare_init [OF good_deferrable] _ run [unfolded synthesize_init_with]] s
    by (simp add: settled_def deferred_with_def)
  ultimately show "settled s'" using s by (auto simp: settled_def intro: deferred_with_cong)
qed

lemma hoare_settled_entry: "hoare settled (synthesize_lambda_entry L) (\<lambda>_. settled)"
proof -
  have start: "hoare settled (getS cs_handle) (\<lambda>h s. (h = None \<or> (\<exists>ps b r. h = Some (ps, b, r) \<and> good b)) \<and> settled s)"
    by (auto simp: hoare_def settled_def deferred_with_def split: option.splits)
  note keep = hoare_bind [OF settled_blocks]
  show ?thesis
    unfolding synthesize_lambda_entry_def
  proof (rule hoare_bind [OF start], rule hoare_fact, goal_cases)
    case (1 h)
    show ?case
    proof (cases h)
      case None
      then show ?thesis by (simp add: hoare_def)
    next
      case (Some d)
      then obtain ps b r where h: "h = Some (ps, b, r)" "good b" using 1 by auto
      show ?thesis
        unfolding h option.case prod.case
        apply (rule keep [OF blocks.within_lift defers.within_lift])
        apply (simp only: split_paired_all prod.case)
        apply (rule keep [OF blocks_require_class defers.within_require_class])+
        apply (rule keep [OF blocks.within_layout_get defers.within_layout_get])+
        apply (rule keep [OF blocks.within_types_get defers.within_types_get])+
        apply (rule hoare_bind [OF hoare_settled [OF hoare_FunctionDef [OF h(2)]
            defers.within_FunctionDef [OF defers.within_block]]])
        apply (rule keep [OF blocks_declare_json defers.within_declare_json])
        apply (rule hoare_bind [OF hoare_settled_init])
        apply (rule hoare_settled [OF hoare_handle defers.within_synthesize_handle])
        done
    qed
  qed
qed

text \<open>The whole compilation.\<close>

lemma program_contract:
  assumes "list_all (top_with good) (builtin @ source)" and "P empty_cstate"
    and "compile_program L triple builtin source = Inr s"
  shows "P s"
proof -
  have "hoare settled (bindS (compiler_init L triple) (\<lambda>_. compile L (builtin @ source))) (\<lambda>_. settled)"
    unfolding compile_def
    by (intro hoare_bind [OF settled_blocks [OF blocks_compiler_init defers_compiler_init]]
        hoare_bind [OF hoare_settled_module [OF assms(1)]] hoare_settled_entry)
  moreover have "settled empty_cstate"
    using assms(2) by (simp add: settled_def deferred_with_def empty_cstate_def)
  moreover obtain u where "bindS (compiler_init L triple) (\<lambda>_. compile L (builtin @ source)) empty_cstate = Inr (u, s)"
    using assms(3) by (auto simp: compile_program_def bindR_Inr_iff)
  ultimately have "settled s" by (rule hoareD)
  then show ?thesis by (simp add: settled_def)
qed

end

end
