(* ===== verification/CompilerModuleFlow.thy ===== *)
theory CompilerModuleFlow
  imports CompilerFlow CompilerBodies CompilerSample
begin

text \<open>
  Control flow of whole functions and modules: between functions no block is open and branches stay
  inside their function.
\<close>

section \<open>Functions\<close>

text \<open>Between functions every block is closed.\<close>

definition sealed :: "cstate \<Rightarrow> bool" where
  "sealed s \<longleftrightarrow> branches_ok s \<and> open_blocks s = {}"

definition in_function :: "nat \<Rightarrow> cstate \<Rightarrow> bool" where
  "in_function f s \<longleftrightarrow> (\<exists>b. building f b {b} s)"

lemma sealed_blocks_cong: "same_blocks s s' \<Longrightarrow> sealed s' = sealed s"
  by (simp add: same_blocks_def sealed_def branches_ok_def open_blocks_def block_of_def block_code_def)

lemma enter_function:
  assumes "append_block f n s = Inr (b, s')" and "sealed s"
  shows "in_function f (s'\<lparr>cs_builder := Some b\<rparr>)"
proof -
  have "block_of f s' b \<and> branches_ok s' \<and> open_blocks s' \<subseteq> {b}"
    using assms
    by (auto simp: append_block_def block_of_def sealed_def branches_ok_def open_blocks_def
        block_code_def nth_append less_Suc_eq)
  then have "building f b {b} (s'\<lparr>cs_builder := Some b\<rparr>)"
    by (auto simp: building_def block_of_def branches_ok_def open_blocks_def block_code_def)
  then show ?thesis by (auto simp: in_function_def)
qed

lemma in_function_flow: "flow s s' \<Longrightarrow> in_function f s \<Longrightarrow> in_function f s'"
  by (fastforce simp: in_function_def dest: flowD)

lemma leave_function:
  assumes "terminator i" and "branch_targets i = []" and s: "in_function f s" and run: "emit_unit L i s = Inr (u, s')"
  shows "sealed s'"
proof -
  obtain b where b: "building f b {b} s" using s by (auto simp: in_function_def)
  obtain v where v: "emit L i s = Inr (v, s')" using run by (auto simp: emit_unit_def)
  have "building f b ({b} - (if terminator i then {b} else {})) s' \<and> grows s s'"
    by (rule emit_building [OF v b]) (simp add: assms(2))
  then show ?thesis using assms(1) by (simp add: building_def sealed_def)
qed

lemma close_function:
  assumes "terminator_law L" and "terminator i" and "branch_targets i = []" and s: "in_function f s"
    and run: "bindS (is_terminated L) (\<lambda>d. if d then retS () else emit_unit L i) s = Inr (u, s')"
  shows "sealed s'"
proof -
  obtain d s1 where run: "is_terminated L s = Inr (d, s1)" "(if d then retS () else emit_unit L i) s1 = Inr (u, s')"
    using run by (rule bindS_InrE)
  have "s1 = s" using run(1) by (auto simp: is_terminated_def cur_block_def split: option.splits)
  note d = run [unfolded this]
  have "sealed s" if d
    using assms(1) s d(1) that
    by (auto simp: is_terminated_def cur_block_def in_function_def building_def open_blocks_def
        terminator_law_def sealed_def)
  then show ?thesis using d(2) leave_function [OF assms(2,3) s] by (cases d) auto
qed

text \<open>Statements without a function or a class inside keep to the function, so they satisfy the
  contract.\<close>

interpretation sealing: body_contract L flow "\<lambda>s. terminator_law L \<longrightarrow> sealed s"
  "\<lambda>f s. terminator_law L \<longrightarrow> in_function f s" "\<lambda>f s. terminator_law L \<longrightarrow> in_function f s" "list_all flat" for L
proof unfold_locales
  show "terminator_law L \<longrightarrow> sealed s'" if "same_blocks s s'" "terminator_law L \<longrightarrow> sealed s" for L s s'
    using that sealed_blocks_cong by blast
  show "flow s s'" if "same_blocks s s'" "cs_builder s' = cs_builder s" for s s'
    using that by (simp add: flow_same same_blocks_def)
  show "terminator_law L \<longrightarrow> in_function f (s'\<lparr>cs_builder := Some b\<rparr>)"
    if "append_block f n s = Inr (b, s')" "terminator_law L \<longrightarrow> sealed s" for L f n s b s'
    using that enter_function by blast
  show "terminator_law L \<longrightarrow> in_function f s'" if "flow s s'" "terminator_law L \<longrightarrow> in_function f s" for L s s' f
    using that in_function_flow by blast
  show "hoare (\<lambda>s. terminator_law L \<longrightarrow> in_function f s) (iterS (visit_stmt L) b) (\<lambda>_ s. terminator_law L \<longrightarrow> in_function f s)"
    if "list_all flat b" for L b f
    by (rule hoareI) (blast intro: in_function_flow flow.withinD [OF flow_body [OF _ that]])
  show "hoare (\<lambda>s. terminator_law L \<longrightarrow> in_function f s) (emit_unit L i) (\<lambda>_ s. terminator_law L \<longrightarrow> sealed s)"
    if "terminator i" "branch_targets i = []" for L i f
    using leave_function [OF that] by (auto simp: hoare_def)
  show "hoare (\<lambda>s. terminator_law L \<longrightarrow> in_function f s)
      (bindS (is_terminated L) (\<lambda>d. if d then retS () else emit_unit L i)) (\<lambda>_ s. terminator_law L \<longrightarrow> sealed s)"
    if "terminator i" "branch_targets i = []" for L i f
    by (rule hoareI, rule impI, erule close_function [OF _ that, rotated 2]) simp_all
  show "list_all flat b" if "list_all deferrable b" for b
    using that by (rule list.pred_mono_strong) (auto simp: deferrable_def split: stmt.splits)
qed

section \<open>Modules\<close>

text \<open>The top-level statements the compiler is meant for: functions and classes whose bodies have no
  functions or classes inside, imports, the statements deferred to \<open>lambpie_init\<close>, and
  the main block, which is skipped.\<close>

definition plain_method :: "stmt \<Rightarrow> bool" where
  "plain_method st = (case st of FunctionDef n ps body r \<Rightarrow> list_all flat body | _ \<Rightarrow> True)"

definition plain_top :: "stmt \<Rightarrow> bool" where
  "plain_top st \<longleftrightarrow> is_main_block st \<or>
     (case st of
        FunctionDef n ps body r \<Rightarrow> list_all flat body
      | ClassDef C body \<Rightarrow> list_all plain_method body
      | ImportFrom m names \<Rightarrow> True
      | AnnAssign t a v \<Rightarrow> True
      | Assign ts v \<Rightarrow> True
      | ExprStmt e \<Rightarrow> True
      | Pass \<Rightarrow> True
      | _ \<Rightarrow> False)"

lemma plain_top_with: "plain_top = top_with (list_all flat)"
proof -
  have "plain_method = method_with (list_all flat)"
    by (rule ext) (simp only: plain_method_def method_with_def)
  then show ?thesis by (intro ext) (simp only: plain_top_def top_with_def)
qed

text \<open>The deferred statements are assignments and expressions, and the handler keeps that shape.\<close>

definition deferred_ok :: "cstate \<Rightarrow> bool" where
  "deferred_ok s \<longleftrightarrow> list_all deferrable (cs_init_stmts s) \<and>
     (case cs_handle s of None \<Rightarrow> True | Some (ps, body, r) \<Rightarrow> list_all flat body)"

lemma deferred_ok_with: "deferred_ok = deferred_with (list_all flat)"
  by (simp add: fun_eq_iff deferred_ok_def deferred_with_def)

lemma deferred_ok_visit_top:
  "plain_top st \<Longrightarrow> visit_top L st s = Inr (u, s') \<Longrightarrow> deferred_ok s \<Longrightarrow> deferred_ok s'"
  unfolding plain_top_with deferred_ok_with by (rule deferred_visit_top)

lemma deferred_ok_cong: "defers s s' \<Longrightarrow> deferred_ok s \<Longrightarrow> deferred_ok s'"
  unfolding deferred_ok_with by (rule deferred_with_cong)

lemma sealed_program:
  assumes "terminator_law L" and "list_all plain_top (builtin @ source)"
    and "compile_program L triple builtin source = Inr s"
  shows "sealed s"
proof -
  have "sealed empty_cstate" by (simp add: sealed_def branches_ok_def open_blocks_def empty_cstate_def)
  then show ?thesis
    using sealing.program_contract [OF assms(2) [unfolded plain_top_with] _ assms(3)] assms(1) by blast
qed

section \<open>Well-formed control flow\<close>

text \<open>The builder refuses a second terminator in a block.\<close>

definition single_terminator :: "llapi \<Rightarrow> bool" where
  "single_terminator L \<longleftrightarrow>
     (\<forall>structs code i t. build L structs code i = Some t \<longrightarrow> terminator i \<longrightarrow> \<not> list_ex terminator code)"

lemma std_single_terminator: "single_terminator std_llapi"
  by (simp add: single_terminator_def std_llapi_def)

definition terminators_inv :: "llapi \<Rightarrow> cstate \<Rightarrow> bool" where
  "terminators_inv L s \<longleftrightarrow>
     (single_terminator L \<longrightarrow>
       (\<forall>b < length (cs_blocks s). length (filter terminator (block_code s b)) \<le> 1))"

interpretation terminators: step_invariant L "terminators_inv L" for L
proof unfold_locales
  fix s t
  assume "cstep L s t" "terminators_inv L s"
  then show "terminators_inv L t"
  proof (induction rule: cstep.induct)
    case (step_emit s b i ty)
    show ?case
    proof (cases "b < length (cs_blocks s)")
      case True
      have "filter terminator (block_code s b) = []" if "single_terminator L" "terminator i"
        using that step_emit(2) by (auto simp: single_terminator_def list_ex_iff filter_empty_conv)
      then show ?thesis
        using step_emit(3) True by (auto simp: terminators_inv_def push_instr_code)
    next
      case False
      then show ?thesis using step_emit(3)
        by (simp add: terminators_inv_def push_instr_def list_update_beyond block_code_def)
    qed
  next
    case (step_block s f n)
    then show ?case
      by (auto simp: terminators_inv_def block_code_def nth_append less_Suc_eq)
  qed (simp_all add: terminators_inv_def block_code_def)
qed (simp add: terminators_inv_def empty_cstate_def)

lemma sealed_blocks:
  assumes "sealed s" and "b < length (cs_blocks s)"
  shows "list_ex terminator (block_code s b)"
  using assms by (auto simp: sealed_def open_blocks_def)

end
