(* ===== verification/CompilerTidy.thy ===== *)
theory CompilerTidy
  imports CompilerModuleFlow
begin

text \<open>
  Where the terminator of a block stands. Nothing keeps the compiler from emitting code behind a
  \<open>return\<close>; for programs without such code, the terminator is the last instruction of every
  block.
\<close>

section \<open>Programs without code behind a return\<close>

text \<open>A statement after which the block is terminated: a \<open>return\<close>, or an unsupported statement
  whose last child is one. \<open>if\<close> and \<open>while\<close> end in a block of their own.\<close>

fun closes :: "stmt \<Rightarrow> bool" where
  "closes (Return v) = True"
| "closes (OtherStmt c children) =
     list_ex (\<lambda>ch. case ch of ChildE e \<Rightarrow> False | ChildS st \<Rightarrow> closes st) children"
| "closes st = False"

definition child_closes :: "child \<Rightarrow> bool" where
  "child_closes ch = (case ch of ChildE e \<Rightarrow> False | ChildS st \<Rightarrow> closes st)"

definition only_last :: "('a \<Rightarrow> bool) \<Rightarrow> 'a list \<Rightarrow> bool" where
  "only_last p xs \<longleftrightarrow> list_all (\<lambda>x. \<not> p x) (butlast xs)"

lemma only_last_simps [simp]:
  "only_last p []" "only_last p [x]" "only_last p (x # y # ys) \<longleftrightarrow> \<not> p x \<and> only_last p (y # ys)"
  by (simp_all add: only_last_def)


text \<open>In every statement list only the last statement closes, at every depth.\<close>

fun tidy :: "stmt \<Rightarrow> bool" where
  "tidy (FunctionDef n ps body r) = False"
| "tidy (ClassDef C body) = False"
| "tidy (If test body orelse) =
     (list_all tidy body \<and> only_last closes body \<and> list_all tidy orelse \<and> only_last closes orelse)"
| "tidy (While test body orelse) = (list_all tidy body \<and> only_last closes body)"
| "tidy (OtherStmt c children) =
     (list_all (\<lambda>ch. case ch of ChildE e \<Rightarrow> True | ChildS st \<Rightarrow> tidy st) children \<and> only_last child_closes children)"
| "tidy st = True"

definition tidy_body :: "stmt list \<Rightarrow> bool" where
  "tidy_body body \<longleftrightarrow> list_all tidy body \<and> only_last closes body"

section \<open>Blocks under construction\<close>

text \<open>No block has code behind a terminator; the builder is at a block, and the blocks \<open>J\<close>, other
  ones, are still empty. In \<open>writable\<close> the builder's block is open.\<close>

definition clean :: "cstate \<Rightarrow> bool" where
  "clean s \<longleftrightarrow> (\<forall>b < length (cs_blocks s). only_last terminator (block_code s b))"

definition ended :: "nat set \<Rightarrow> cstate \<Rightarrow> bool" where
  "ended J s \<longleftrightarrow> clean s \<and> (\<forall>j\<in>J. j < length (cs_blocks s) \<and> block_code s j = []) \<and>
     (\<exists>b. cs_builder s = Some b \<and> b < length (cs_blocks s) \<and> b \<notin> J)"

definition writable :: "nat set \<Rightarrow> cstate \<Rightarrow> bool" where
  "writable J s \<longleftrightarrow> ended J s \<and> (\<forall>b. cs_builder s = Some b \<longrightarrow> \<not> list_ex terminator (block_code s b))"

lemma writable_ended: "writable J s \<Longrightarrow> ended J s"
  by (simp add: writable_def)



lemma only_last_open: "\<not> list_ex p xs \<Longrightarrow> only_last p (xs @ [x])"
  by (simp add: only_last_def list_ex_iff list_all_iff)

lemma writable_emit:
  assumes "writable J s" and "emit L i s = Inr (v, s')"
  shows "ended J s' \<and> (terminator i \<or> writable J s')"
proof -
  obtain b where b: "cs_builder s = Some b" "s' = push_instr b i s"
    using assms(2) by (auto dest!: emit_InrD)
  have inside: "b < length (cs_blocks s)" "b \<notin> J" "\<not> list_ex terminator (block_code s b)"
    using assms(1) b(1) by (auto simp: writable_def ended_def)
  have "clean s'"
    using assms(1) inside only_last_open [OF inside(3), of i]
    by (auto simp: writable_def ended_def clean_def b(2) push_instr_code)
  then show ?thesis
    using assms(1) b inside by (auto simp: writable_def ended_def push_instr_code)
qed

lemma tidy_same_blocks:
  assumes "same_blocks s s'"
  shows "clean s' = clean s" and "cs_builder s' = cs_builder s \<Longrightarrow> writable J s' = writable J s"
  using assms by (simp_all add: same_blocks_def clean_def writable_def ended_def block_code_def)

definition keeps_writable :: "cstate \<Rightarrow> cstate \<Rightarrow> bool" where
  "keeps_writable s s' \<longleftrightarrow> (\<forall>J. writable J s \<longrightarrow> writable J s')"

lemma keeps_writable_same: "cs_blocks s' = cs_blocks s \<Longrightarrow> cs_builder s' = cs_builder s \<Longrightarrow> keeps_writable s s'"
  using tidy_same_blocks [of s s'] by (simp add: keeps_writable_def same_blocks_def)

interpretation writable: expr_frame L keeps_writable for L
proof unfold_locales
  show "keeps_writable s s" for s by (simp add: keeps_writable_def)
  show "keeps_writable s t \<Longrightarrow> keeps_writable t u \<Longrightarrow> keeps_writable s u" for s t u by (simp add: keeps_writable_def)
  show "keeps_writable s s'" if "\<not> terminator i" "emit L i s = Inr (v, s')" for i s v s'
    using that by (simp add: keeps_writable_def) (blast dest: writable_emit)
  show "keeps_writable s s'" if "bindS (next_name p) (\<lambda>n. new_data L n t bytes c) s = Inr (v, s')" for p n t bytes c s v s'
    using that by (auto dest!: next_name_InrD new_data_InrD intro!: keeps_writable_same)
  show "keeps_writable s s'" if "set_type n (PtrT (StructT n)) s = Inr (u, s')" for n s u s'
    using that by (auto simp: set_type_def intro: keeps_writable_same)
qed

lemma keeps_writable_local [intro!]: "writable.within (set_local n v)" "writable.within (modS (\<lambda>s. s\<lparr>cs_arena_tags := f s\<rparr>))"
  unfolding set_local_def by (auto intro!: writable.within_mod keeps_writable_same)

section \<open>Control flow\<close>












section \<open>Statements\<close>

definition after :: "bool \<Rightarrow> nat set \<Rightarrow> cstate \<Rightarrow> bool" where
  "after d J s \<longleftrightarrow> ended J s \<and> (d \<or> writable J s)"

lemma after_simps [simp]: "after True J = ended J" "after False J = writable J"
  by (auto simp: fun_eq_iff after_def writable_ended)









text \<open>The top-level statements with tidy bodies.\<close>

definition tidy_top :: "stmt \<Rightarrow> bool" where
  "tidy_top = top_with tidy_body"


section \<open>Well-formed control flow\<close>




text \<open>The limit of that: the code of a statement behind a \<open>return\<close> is emitted, behind the
  terminator, without an error.\<close>

definition behind_return :: stmt where
  "behind_return =
     FunctionDef ''f'' [] [Return (Some (Constant (CInt 1))),
       AnnAssign (Name ''x'') (Name ''int'') (Some (Constant (CInt 2)))] (Some (Name ''int''))"

lemma code_behind_return:
  "\<not> tidy_top behind_return"
  "\<exists>s s' t. compiler_init std_llapi None empty_cstate = Inr ((), s) \<and>
     visit_top std_llapi behind_return s = Inr ((), s') \<and>
     map snd (blk_code (last (cs_blocks s'))) =
       [Ret (OVal (ConstV (IntT 64) (CInt 1))), Alloca (IntT 64),
        Store (OVal (ConstV (IntT 64) (CInt 2))) (OVal (InstrV 1 t))]"
proof -
  show "\<not> tidy_top behind_return" by code_simp
  have "case bindS (compiler_init std_llapi None) (\<lambda>_. visit_top std_llapi behind_return) empty_cstate of
      Inl e \<Rightarrow> False
    | Inr (u, s') \<Rightarrow> map snd (blk_code (last (cs_blocks s'))) =
       [Ret (OVal (ConstV (IntT 64) (CInt 1))), Alloca (IntT 64),
        Store (OVal (ConstV (IntT 64) (CInt 2))) (OVal (InstrV 1 (PtrT (IntT 64))))]"
    by code_simp
  then show "\<exists>s s' t. compiler_init std_llapi None empty_cstate = Inr ((), s) \<and>
     visit_top std_llapi behind_return s = Inr ((), s') \<and>
     map snd (blk_code (last (cs_blocks s'))) =
       [Ret (OVal (ConstV (IntT 64) (CInt 1))), Alloca (IntT 64),
        Store (OVal (ConstV (IntT 64) (CInt 2))) (OVal (InstrV 1 t))]"
    by (auto split: sum.splits)
qed

end
