(* ===== verification/CompilerLiterals.thy ===== *)
theory CompilerLiterals
  imports CompilerBodies CompilerSample
begin

text \<open>
  The private globals of a module. Every string, bytes and key literal becomes one, under a prefix
  and the compiler's counter; the names never collide, so the library has no reason to refuse one.
\<close>

section \<open>Names from the counter\<close>

lemma digit_char: "of_char (char_of (48 + k mod 10) :: char) = (48 + k mod 10 :: nat)"
proof -
  have "48 + k mod 10 < 256" using mod_less_divisor [of 10 k] by linarith
  then show ?thesis by simp
qed

lemma last_nat_str: "of_char (last (nat_str k)) = (48 + k mod 10 :: nat)"
  by (subst nat_str.simps) (use digit_char [of k] in simp)

declare nat_str_nonempty [simp]

lemma nat_str_short: "length (nat_str k) = 1 \<longleftrightarrow> k < 10"
  by (subst nat_str.simps) simp

lemma nat_str_eq: "nat_str m = nat_str n \<longleftrightarrow> m = n"
proof
  show "nat_str m = nat_str n \<Longrightarrow> m = n"
  proof (induction m arbitrary: n rule: nat_str.induct)
    case (1 m)
    have d: "m mod 10 = n mod 10" using last_nat_str [of m] last_nat_str [of n] 1(2) by simp
    show ?case
    proof (cases "m < 10 \<or> n < 10")
      case True
      then have "m < 10" "n < 10" using nat_str_short [of m] nat_str_short [of n] 1(2) by auto
      then show ?thesis using d by simp
    next
      case False
      then have "nat_str (m div 10) = nat_str (n div 10)"
        using 1(2) nat_str.simps [of m] nat_str.simps [of n] by simp
      then have "m div 10 = n div 10" using 1(1) False by simp
      then show ?thesis using d by (metis div_mult_mod_eq)
    qed
  qed
qed simp

definition literal_name :: "nat \<Rightarrow> string \<Rightarrow> bool" where
  "literal_name c n \<longleftrightarrow> (\<exists>p \<in> literal_prefixes. \<exists>k. 0 < k \<and> k \<le> c \<and> n = p @ nat_str k)"

lemma literal_name_mono: "literal_name c n \<Longrightarrow> c \<le> c' \<Longrightarrow> literal_name c' n"
  by (auto simp: literal_name_def intro: le_trans)

lemma literal_name_next:
  assumes "p \<in> literal_prefixes"
  shows "literal_name (Suc c) (p @ nat_str (Suc c))" and "\<not> literal_name c (p @ nat_str (Suc c))"
    and "p @ nat_str (Suc c) \<noteq> ''.str.__main__''"
proof -
  show "literal_name (Suc c) (p @ nat_str (Suc c))" using assms by (auto simp: literal_name_def)
  show "\<not> literal_name c (p @ nat_str (Suc c))"
    using assms by (auto simp: literal_name_def literal_prefixes_def nat_str_eq simp del: append_assoc)
  show "p @ nat_str (Suc c) \<noteq> ''.str.__main__''"
  proof
    assume "p @ nat_str (Suc c) = ''.str.__main__''"
    then have "last (nat_str (Suc c)) = CHR ''_''" using last_appendR [OF nat_str_nonempty, of p "Suc c"] by simp
    then show False using last_nat_str [of "Suc c"] mod_less_divisor [of 10 "Suc c"] by simp
  qed
qed

section \<open>The invariant\<close>

definition data_named :: "cstate \<Rightarrow> bool" where
  "data_named s \<longleftrightarrow> distinct (map d_name (cs_data s)) \<and>
     (\<forall>n \<in> d_name ` set (cs_data s). n = ''.str.__main__'' \<or> literal_name (cs_counter s) n)"

definition keeps_named :: "cstate \<Rightarrow> cstate \<Rightarrow> bool" where
  "keeps_named s s' \<longleftrightarrow> (data_named s \<longrightarrow> data_named s')"

lemma keeps_named_same: "cs_data s' = cs_data s \<Longrightarrow> cs_counter s' = cs_counter s \<Longrightarrow> keeps_named s s'"
  by (simp add: keeps_named_def data_named_def)

lemma keeps_named_literal:
  assumes "p \<in> literal_prefixes" and "bindS (next_name p) (\<lambda>n. new_data L n t bytes c) s = Inr (v, s')"
  shows "keeps_named s s'"
proof -
  let ?n = "p @ nat_str (Suc (cs_counter s))"
  have s': "cs_data s' = cs_data s @ [\<lparr>d_name = ?n, d_type = t, d_init = bytes, d_const = c\<rparr>]"
    "cs_counter s' = Suc (cs_counter s)"
    using assms(2) by (auto dest!: next_name_InrD new_data_InrD)
  show ?thesis
    using literal_name_next [OF assms(1), of "cs_counter s"]
    by (auto simp: keeps_named_def data_named_def s' intro: literal_name_mono)
qed

interpretation named: module_frame L keeps_named for L
proof unfold_locales
  show "keeps_named s u" if "keeps_named s t" "keeps_named t u" for s t u
    using that by (simp add: keeps_named_def)
  show "keeps_named s s'"
    if "p \<in> literal_prefixes" "bindS (next_name p) (\<lambda>n. new_data L n t bytes c) s = Inr (v, s')" for p n t bytes c s v s' L
    using that by (rule keeps_named_literal)
qed (auto simp: set_type_def append_block_def declare_function_def set_global_def push_instr_def
  dest!: emit_InrD new_function_InrD intro: keeps_named_same)

lemma named_compile: "named.within (compile L tree)"
proof -
  have "named.within (visit_top L st)" for st
    unfolding visit_top_def
    by (auto intro!: named.within_visit_stmt named.within_mod keeps_named_same
        simp del: visit_stmt.simps split: stmt.split)
  then show ?thesis
    unfolding compile_def visit_Module_def by (auto intro!: named.within_iter)
qed

lemma named_compiler_init:
  assumes "compiler_init L triple empty_cstate = Inr (u, s)"
  shows "data_named s"
proof -
  let ?D = "\<lambda>xs s. map d_name (cs_data s) = xs"
  have declared: "hoare (?D xs) (declare_function L n t) (\<lambda>_. ?D xs)" for xs n t
    by (rule hoareI) (auto simp: declare_function_def set_global_def dest!: new_function_InrD)
  have data: "hoare (?D []) (new_data L n t bytes c) (\<lambda>_. ?D [n])" for n t bytes c
    by (rule hoareI) (auto dest!: new_data_InrD)
  have init: "hoare (?D []) (compiler_init L triple) (\<lambda>_. ?D [''.str.__main__''])"
    unfolding compiler_init_def Let_def
    apply (rule hoare_bind [where Q = "\<lambda>_. ?D []"], (simp add: hoare_def split: option.split)[1])
    apply (rule hoare_bind [where Q = "\<lambda>_. ?D []"], simp add: hoare_def)
    apply (rule hoare_bind [OF data])
    apply (rule hoare_bind [where Q = "\<lambda>_. ?D [''.str.__main__'']"], simp add: hoare_def set_global_def)
    apply (rule hoare_bind [OF declared])+
    apply (rule hoare_ret)
    done
  have "d_name ` set (cs_data s) = {''.str.__main__''}" "distinct (map d_name (cs_data s))"
    using hoareD [OF init _ assms] by (auto simp: empty_cstate_def simp flip: set_map)
  then show ?thesis by (simp add: data_named_def)
qed

section \<open>Unique names\<close>

text \<open>C11: the private globals of a compiled module (string and bytes literals, the keys of the event
  and the response) have pairwise different names, although the library is not asked to refuse a
  name that is taken: each is \<open>.str.\<close>, \<open>.bytes.\<close> or \<open>.key.\<close> and a number the
  compiler's counter has reached, or the name of the main module.\<close>

theorem literal_names_unique:
  assumes "compile_program L triple builtin source = Inr s"
  shows "distinct (map d_name (cs_data s)) \<and>
    (\<forall>d \<in> set (cs_data s). d_name d = ''.str.__main__'' \<or>
      (\<exists>p \<in> {''.str.'', ''.bytes.'', ''.key.''}. \<exists>k. 0 < k \<and> k \<le> cs_counter s \<and> d_name d = p @ nat_str k))"
proof -
  obtain u0 s0 u where "compiler_init L triple empty_cstate = Inr (u0, s0)" "compile L (builtin @ source) s0 = Inr (u, s)"
    using assms by (auto simp: compile_program_def bindR_Inr_iff)
  then have "data_named s"
    using named_compiler_init named.withinD [OF named_compile] by (auto simp: keeps_named_def)
  then show ?thesis by (simp add: data_named_def literal_name_def literal_prefixes_def)
qed

lemma literal_names_unique_witness:
  "\<exists>s. compile_program std_llapi None [] digit_pie = Inr s \<and> distinct (map d_name (cs_data s))"
proof -
  obtain s where s: "compile_program std_llapi None [] digit_pie = Inr s" by (rule digit_result)
  with literal_names_unique [OF s] show ?thesis by blast
qed

end
