(* ===== verification/CompilerErase.thy ===== *)
theory CompilerErase
  imports CompilerBodies CompilerSample
begin

text \<open>
  What the compiler ignores. Compiling a program and compiling what is left of it without the ignored
  parts has the same outcome, in the style of a verified program transformation: first equations
  between the visitors of a statement and of its erasure, then the whole compilation.
\<close>

section \<open>Erasure\<close>

text \<open>The keyword arguments of calls go.\<close>

fun erase_expr :: "expr \<Rightarrow> expr" where
  "erase_expr (BinOp l op r) = BinOp (erase_expr l) op (erase_expr r)"
| "erase_expr (UnaryOp op e) = UnaryOp op (erase_expr e)"
| "erase_expr (Compare l ops es) = Compare (erase_expr l) ops (map erase_expr es)"
| "erase_expr (Call f args kws) = Call (erase_expr f) (map erase_expr args) []"
| "erase_expr (Attribute e a) = Attribute (erase_expr e) a"
| "erase_expr (Subscript e i) = Subscript (erase_expr e) (erase_expr i)"
| "erase_expr (Index e) = Index (erase_expr e)"
| "erase_expr (Tuple es) = Tuple (map erase_expr es)"
| "erase_expr (OtherExpr c es) = OtherExpr c (map erase_expr es)"
| "erase_expr e = e"

definition or_pass :: "stmt list \<Rightarrow> stmt list" where
  "or_pass sts = (if sts = [] then [Pass] else sts)"

text \<open>The \<open>else\<close> of a loop and all targets of an assignment but the first go. A statement without a
  visitor (\<open>for\<close>, \<open>break\<close>, \<open>continue\<close>, \<open>try\<close>, \<open>with\<close>, \<open>i += 1\<close>, \<open>del\<close>,
  \<open>raise\<close>, \<open>assert\<close>) becomes the sequence of its parts: its expressions as expression
  statements and the statements inside, or \<open>pass\<close>. Of a class body the annotations of the fields
  and the methods are left.\<close>

fun erase_stmt :: "stmt \<Rightarrow> stmt list" where
  "erase_stmt (FunctionDef n ps body r) = [FunctionDef n ps (concat (map erase_stmt body)) r]"
| "erase_stmt (ClassDef C body) =
     [ClassDef C (map (\<lambda>st. case st of
        FunctionDef n ps fbody r \<Rightarrow> FunctionDef n ps (concat (map erase_stmt fbody)) r
      | AnnAssign t a v \<Rightarrow> AnnAssign t a None
      | _ \<Rightarrow> Pass) body)]"
| "erase_stmt (If test body orelse) =
     [If (erase_expr test) (concat (map erase_stmt body)) (concat (map erase_stmt orelse))]"
| "erase_stmt (While test body orelse) = [While (erase_expr test) (concat (map erase_stmt body)) []]"
| "erase_stmt (Return v) = [Return (map_option erase_expr v)]"
| "erase_stmt (ExprStmt e) = [ExprStmt (erase_expr e)]"
| "erase_stmt (AnnAssign t a v) = [AnnAssign t a (map_option erase_expr v)]"
| "erase_stmt (Assign ts v) = [Assign (map erase_expr (take 1 ts)) (erase_expr v)]"
| "erase_stmt (OtherStmt c children) =
     or_pass (concat (map (\<lambda>ch. case ch of ChildE e \<Rightarrow> [ExprStmt (erase_expr e)] | ChildS st \<Rightarrow> erase_stmt st) children))"
| "erase_stmt st = [st]"

definition erase_body :: "stmt list \<Rightarrow> stmt list" where
  "erase_body body = concat (map erase_stmt body)"



section \<open>Statements\<close>

lemma mapS_map: "mapS f (map g xs) = mapS (\<lambda>x. f (g x)) xs"
  by (induction xs) simp_all

lemma iterS_map: "iterS f (map g xs) = iterS (\<lambda>x. f (g x)) xs"
  by (induction xs) simp_all

lemma iterS_concat: "iterS f (concat xss) = iterS (iterS f) xss"
  by (induction xss) (simp_all add: iterS_append)

lemma bindS_ret_right [simp]: "bindS m retS = m"
  by (auto simp: bindS_def retS_def fun_eq_iff split: sum.split)

lemma mapS_same: "(\<And>x. x \<in> set xs \<Longrightarrow> f x = g x) \<Longrightarrow> mapS f xs = mapS g xs"
  by (rule mapS_cong) simp_all

lemma iterS_same: "(\<And>x. x \<in> set xs \<Longrightarrow> f x = g x) \<Longrightarrow> iterS f xs = iterS g xs"
  by (rule iterS_cong) simp_all

lemma visit_erase_expr: "visit_expr L (erase_expr e) = visit_expr L e"
proof (induction e)
  case (Compare l ops es)
  have "visit_expr L (erase_expr c) = visit_expr L c" if "c \<in> set es" for c using Compare(2) that by simp
  then show ?case using Compare(1) by (cases es) (simp_all cong: list.case_cong)
next
  case (Call f args kws)
  have args: "mapS (visit_expr L) (map erase_expr args) = mapS (visit_expr L) args"
    unfolding mapS_map using Call(2) by (rule mapS_same)
  show ?case unfolding erase_expr.simps visit_expr.simps args Call(1) ..
next
  case (Tuple es)
  then show ?case by (simp add: mapS_map cong: mapS_cong)
next
  case (OtherExpr c es)
  then show ?case by (simp add: mapS_map cong: mapS_cong)
qed simp_all

lemma erase_expr_name [simp]: "erase_expr e = Name n \<longleftrightarrow> e = Name n"
  by (cases e) simp_all

lemma visit_Assign_erase:
  "visit_Assign L (map erase_expr (take 1 ts)) (erase_expr v) = visit_Assign L ts v"
  by (cases ts) (auto simp: visit_Assign_def visit_erase_expr split: expr.split)

lemma visit_AnnAssign_erase:
  "visit_AnnAssign L t a (map_option erase_expr v) = visit_AnnAssign L t a v"
proof (cases v)
  case (Some e)
  show ?thesis unfolding Some visit_AnnAssign_def option.map option.case visit_erase_expr ..
qed simp

text \<open>What is left of a statement of a class body.\<close>

abbreviation erase_member :: "stmt \<Rightarrow> stmt" where
  "erase_member st \<equiv> (case st of
      FunctionDef n ps fbody r \<Rightarrow> FunctionDef n ps (concat (map erase_stmt fbody)) r
    | AnnAssign t a v \<Rightarrow> AnnAssign t a None
    | _ \<Rightarrow> Pass)"

lemma class_fields_loop_erase:
  "class_fields_loop (map erase_member body) l k ts = class_fields_loop body l k ts"
  by (induction body l k ts rule: class_fields_loop.induct) simp_all

lemma class_header_erase: "class_header L C (map erase_member body) = class_header L C body"
proof -
  have "has_init (map erase_member body) = has_init body"
    unfolding has_init_def by (induction body) (auto split: stmt.split)
  then show ?thesis by (simp add: class_header_def class_fields_loop_erase)
qed

lemma erase_body_run:
  assumes "\<And>st. st \<in> set body \<Longrightarrow> iterS (visit_stmt L) (erase_stmt st) = visit_stmt L st"
  shows "iterS (visit_stmt L) (concat (map erase_stmt body)) = iterS (visit_stmt L) body"
  unfolding iterS_concat iterS_map using assms by (rule iterS_same)

lemma erase_stmt_nonempty: "erase_stmt st \<noteq> []"
  by (cases st) (auto simp: or_pass_def)

lemma erase_nonempty: "concat (map erase_stmt body) = [] \<longleftrightarrow> body = []"
  by (cases body) (simp_all add: erase_stmt_nonempty)

lemma iterS_or_pass: "iterS (visit_stmt L) (or_pass sts) = iterS (visit_stmt L) sts"
  by (simp add: or_pass_def bindS_ret)

lemma visit_erase_both:
  "iterS (visit_stmt L) (erase_stmt st) = visit_stmt L st \<and>
    (case st of FunctionDef n ps body r \<Rightarrow>
       iterS (visit_stmt L) (concat (map erase_stmt body)) = iterS (visit_stmt L) body | _ \<Rightarrow> True)"
  "case ch of ChildE e \<Rightarrow> True | ChildS st' \<Rightarrow> iterS (visit_stmt L) (erase_stmt st') = visit_stmt L st'"
proof (induction st and ch)
  case (FunctionDef n ps body r)
  have "iterS (visit_stmt L) (concat (map erase_stmt body)) = iterS (visit_stmt L) body"
    by (rule erase_body_run) (use FunctionDef in blast)
  then show ?case by simp
next
  case (ClassDef C body)
  let ?visit = "\<lambda>st. case st of
      FunctionDef n ps fbody r \<Rightarrow> visit_FunctionDef L (Some C) n ps r (iterS (visit_stmt L) fbody)
    | _ \<Rightarrow> retS ()"
  have "iterS ?visit (map erase_member body) = iterS ?visit body"
    unfolding iterS_map
  proof (rule iterS_same)
    fix st assume "st \<in> set body"
    from ClassDef [OF this] show "?visit (erase_member st) = ?visit st" by (cases st) simp_all
  qed
  then show ?case by (simp add: class_header_erase)
next
  case (If test body orelse)
  have "iterS (visit_stmt L) (concat (map erase_stmt body)) = iterS (visit_stmt L) body"
    "iterS (visit_stmt L) (concat (map erase_stmt orelse)) = iterS (visit_stmt L) orelse"
    by (rule erase_body_run, use If in blast)+
  then show ?case
    using erase_nonempty [of orelse] by (simp add: visit_If_def visit_erase_expr)
next
  case (While test body orelse)
  have "iterS (visit_stmt L) (concat (map erase_stmt body)) = iterS (visit_stmt L) body"
    by (rule erase_body_run) (use While in blast)
  then show ?case by (simp add: visit_While_def visit_erase_expr)
next
  case (OtherStmt c children)
  show ?case
    by (simp add: iterS_or_pass iterS_concat iterS_map)
      (rule iterS_same, use OtherStmt in \<open>fastforce simp: visit_erase_expr split: child.splits\<close>)
qed (simp_all add: visit_erase_expr visit_Assign_erase [simplified] visit_AnnAssign_erase visit_Return_def
  split: option.split child.split)

lemmas visit_erase_stmt = visit_erase_both(1) [THEN conjunct1]

lemma visit_erase_body: "iterS (visit_stmt L) (erase_body body) = iterS (visit_stmt L) body"
  unfolding erase_body_def by (rule erase_body_run) (rule visit_erase_stmt)

section \<open>States\<close>

text \<open>The compiler saves the statements put off to \<open>lambpie_init\<close> and the handler; the erased
  program saves their erasures. Nothing else in the state differs.\<close>

definition erase_state :: "cstate \<Rightarrow> cstate" where
  "erase_state s = s\<lparr>
     cs_handle := map_option (\<lambda>(ps, body, r). (ps, erase_body body, r)) (cs_handle s),
     cs_init_stmts := erase_body (cs_init_stmts s)\<rparr>"

lemma erase_state_simps [simp]:
  "cs_types (erase_state s) = cs_types s" "cs_globals (erase_state s) = cs_globals s"
  "cs_locals (erase_state s) = cs_locals s" "cs_layouts (erase_state s) = cs_layouts s"
  "cs_arena_tags (erase_state s) = cs_arena_tags s" "cs_arena (erase_state s) = cs_arena s"
  "cs_counter (erase_state s) = cs_counter s" "cs_builder (erase_state s) = cs_builder s"
  "cs_structs (erase_state s) = cs_structs s" "cs_funcs (erase_state s) = cs_funcs s"
  "cs_blocks (erase_state s) = cs_blocks s" "cs_data (erase_state s) = cs_data s"
  "cs_names (erase_state s) = cs_names s" "cs_next (erase_state s) = cs_next s"
  "cs_triple (erase_state s) = cs_triple s" "cs_data_layout (erase_state s) = cs_data_layout s"
  by (simp_all add: erase_state_def)

text \<open>Computations with the same outcome from both states.\<close>

definition erased :: "('a \<times> cstate) res \<Rightarrow> ('a \<times> cstate) res" where
  "erased r = (case r of Inl e \<Rightarrow> Inl e | Inr (a, s) \<Rightarrow> Inr (a, erase_state s))"

definition oblivious :: "'a cm \<Rightarrow> bool" where
  "oblivious m \<longleftrightarrow> (\<forall>s. m (erase_state s) = erased (m s))"

lemma obliviousI: "(\<And>s. m (erase_state s) = erased (m s)) \<Longrightarrow> oblivious m"
  by (simp add: oblivious_def)

lemma obliviousD: "oblivious m \<Longrightarrow> m (erase_state s) = erased (m s)"
  by (simp add: oblivious_def)

lemma erased_simps [simp]: "erased (Inl e) = Inl e" "erased (Inr (a, s)) = Inr (a, erase_state s)"
  by (simp_all add: erased_def)

text \<open>Two computations, the second run from the erased state.\<close>

lemma erased_bind:
  assumes "m' (erase_state s) = erased (m s)" and "\<And>a s'. m s = Inr (a, s') \<Longrightarrow> f' a (erase_state s') = erased (f a s')"
  shows "bindS m' f' (erase_state s) = erased (bindS m f s)"
  using assms by (auto simp: bindS_def split: sum.split)

lemma oblivious_bind [intro!]: "oblivious m \<Longrightarrow> (\<And>a. oblivious (f a)) \<Longrightarrow> oblivious (bindS m f)"
  by (intro obliviousI erased_bind) (auto dest: obliviousD)

lemma oblivious_ret [intro!]: "oblivious (retS a)" and oblivious_raise [intro!]: "oblivious (raiseS e)"
  and oblivious_lift [intro!]: "oblivious (liftS r)"
  by (auto simp: oblivious_def retS_def raiseS_def liftS_def split: sum.split)

lemma oblivious_get [intro!]: "(\<And>s. f (erase_state s) = f s) \<Longrightarrow> oblivious (getS f)"
  by (simp add: oblivious_def getS_def)

lemma oblivious_mod [intro!]: "(\<And>s. f (erase_state s) = erase_state (f s)) \<Longrightarrow> oblivious (modS f)"
  by (simp add: oblivious_def modS_def)

lemma oblivious_map [intro]: "(\<And>x. x \<in> set xs \<Longrightarrow> oblivious (f x)) \<Longrightarrow> oblivious (mapS f xs)"
  by (induction xs) auto

lemma oblivious_iter [intro]: "(\<And>x. x \<in> set xs \<Longrightarrow> oblivious (f x)) \<Longrightarrow> oblivious (iterS f xs)"
  by (induction xs) auto

lemma oblivious_case_prod [intro!]: "(\<And>a b. p = (a, b) \<Longrightarrow> oblivious (f a b)) \<Longrightarrow> oblivious (case p of (a, b) \<Rightarrow> f a b)"
  by (cases p) simp

lemma oblivious_case_option [intro!]:
  "(x = None \<Longrightarrow> oblivious m) \<Longrightarrow> (\<And>y. x = Some y \<Longrightarrow> oblivious (f y)) \<Longrightarrow> oblivious (case_option m f x)"
  by (cases x) simp_all

lemma oblivious_if [intro!]: "(c \<Longrightarrow> oblivious m) \<Longrightarrow> (\<not> c \<Longrightarrow> oblivious n) \<Longrightarrow> oblivious (if c then m else n)"
  by simp

section \<open>Elementary operations\<close>

lemma oblivious_lookups [intro!]:
  "oblivious (types_get k)" "oblivious (global_get k)" "oblivious (layout_get k)"
  "oblivious cur_block" "oblivious cur_function" "oblivious (require_class w C)"
  by (auto simp: oblivious_def types_get_def global_get_def layout_get_def cur_block_def cur_function_def
      require_class_def split: option.split)

lemma erase_state_updates [simp]:
  "(erase_state s)\<lparr>cs_builder := x1\<rparr> = erase_state (s\<lparr>cs_builder := x1\<rparr>)"
  "(erase_state s)\<lparr>cs_blocks := x2\<rparr> = erase_state (s\<lparr>cs_blocks := x2\<rparr>)"
  "(erase_state s)\<lparr>cs_names := x3\<rparr> = erase_state (s\<lparr>cs_names := x3\<rparr>)"
  "(erase_state s)\<lparr>cs_funcs := x4\<rparr> = erase_state (s\<lparr>cs_funcs := x4\<rparr>)"
  "(erase_state s)\<lparr>cs_data := x5\<rparr> = erase_state (s\<lparr>cs_data := x5\<rparr>)"
  "(erase_state s)\<lparr>cs_types := x6\<rparr> = erase_state (s\<lparr>cs_types := x6\<rparr>)"
  "(erase_state s)\<lparr>cs_globals := x7\<rparr> = erase_state (s\<lparr>cs_globals := x7\<rparr>)"
  "(erase_state s)\<lparr>cs_locals := x8\<rparr> = erase_state (s\<lparr>cs_locals := x8\<rparr>)"
  "(erase_state s)\<lparr>cs_layouts := x9\<rparr> = erase_state (s\<lparr>cs_layouts := x9\<rparr>)"
  "(erase_state s)\<lparr>cs_arena_tags := x10\<rparr> = erase_state (s\<lparr>cs_arena_tags := x10\<rparr>)"
  "(erase_state s)\<lparr>cs_arena := x11\<rparr> = erase_state (s\<lparr>cs_arena := x11\<rparr>)"
  "(erase_state s)\<lparr>cs_counter := x12\<rparr> = erase_state (s\<lparr>cs_counter := x12\<rparr>)"
  "(erase_state s)\<lparr>cs_structs := x13\<rparr> = erase_state (s\<lparr>cs_structs := x13\<rparr>)"
  "(erase_state s)\<lparr>cs_next := x14\<rparr> = erase_state (s\<lparr>cs_next := x14\<rparr>)"
  "(erase_state s)\<lparr>cs_triple := x15\<rparr> = erase_state (s\<lparr>cs_triple := x15\<rparr>)"
  "(erase_state s)\<lparr>cs_data_layout := x16\<rparr> = erase_state (s\<lparr>cs_data_layout := x16\<rparr>)"
  by (simp_all add: erase_state_def)

lemma oblivious_updates [intro!]:
  "oblivious (emit L i)" "oblivious (append_block f n)" "oblivious (register_name L n)" "oblivious (set_body L C ts)"
  by (auto simp: oblivious_def emit_def push_instr_def block_code_def append_block_def register_name_def set_body_def
      split: option.split)

lemma oblivious_new_function [intro!]: "oblivious (new_function L n t)"
  unfolding new_function_def by (intro oblivious_bind oblivious_updates) (simp add: oblivious_def)

lemma oblivious_new_data [intro!]: "oblivious (new_data L n t bytes c)"
  unfolding new_data_def by (intro oblivious_bind oblivious_updates) (auto simp: oblivious_def split: option.split)

lemma oblivious_setters [intro!]:
  "oblivious (set_global n v)" "oblivious (set_local n v)" "oblivious (set_type n t)" "oblivious (position_at_end b)"
  "oblivious (next_name p)" "oblivious (emit_obj L i)" "oblivious (emit_unit L i)" "oblivious (is_terminated L)"
  unfolding set_global_def set_local_def set_type_def position_at_end_def next_name_def emit_obj_def emit_unit_def
    is_terminated_def
  by (auto simp: block_code_def)

section \<open>Visitors\<close>

lemma oblivious_get_type [intro!]: "oblivious (get_type e)"
proof (induction e rule: get_type.induct)
  case (3 e slice)
  show ?case
  proof (cases e)
    case (Name head)
    note IH = 3 [OF Name]
    show ?thesis
    proof (cases "head = ''ptr''")
      case True
      then show ?thesis using IH(1) by (simp add: Name) auto
    next
      case False
      then show ?thesis using IH(2,3)
        by (cases slice) (auto simp: Name split: list.split expr.split)
    qed
  qed auto
qed auto

lemma oblivious_get_type_opt [intro!]: "oblivious (get_type_opt a)"
  unfolding get_type_opt_def by auto

lemma oblivious_visit_Constant [intro!]: "oblivious (visit_Constant L c)"
  unfolding visit_Constant_def by (auto split: const.split)

lemma oblivious_visit_Name [intro!]: "oblivious (visit_Name L n)"
  unfolding visit_Name_def by (auto split: ty.split)

lemma oblivious_objects [intro!]:
  "oblivious (struct_gep L p k)" "oblivious (store_field L p k v)" "oblivious (object_size L t int_t)"
  "oblivious (object_at L t tag a sz)"
  unfolding store_field_def struct_gep_def object_size_def object_at_def by auto

lemma oblivious_alloc_object [intro!]: "oblivious (alloc_object L t tag)"
  unfolding alloc_object_def by auto

lemma oblivious_wrap [intro!]: "oblivious (wrap_cstr_to_str L p)"
  unfolding wrap_cstr_to_str_def by (intro oblivious_bind) auto

lemma oblivious_coerce_arg [intro!]: "oblivious (coerce_arg L v t)"
  unfolding coerce_arg_def by auto

lemma oblivious_coerce_args [intro!]: "oblivious (coerce_args L vs ts)"
  by (induction L vs ts rule: coerce_args.induct) auto

lemma oblivious_call_init [intro!]: "oblivious (call_init L f p args)"
  unfolding call_init_def by auto

lemma oblivious_visit_attr [intro!]: "oblivious (visit_attr L attr ob)"
  unfolding visit_attr_def by (auto split: obj.split)

lemma oblivious_element_addr [intro!]: "oblivious (element_addr L p idx)"
  unfolding element_addr_def by (auto split: ty.split)

lemma oblivious_operators [intro!]:
  "oblivious (visit_binop L op l r)" "oblivious (visit_unaryop L op' v)" "oblivious (visit_icmp L op'' l r)"
  unfolding visit_binop_def visit_unaryop_def visit_icmp_def by (auto split: unaryop.split)

lemma oblivious_visit_expr [intro!]: "oblivious (visit_expr L e)"
proof (induction e)
  case (Call f args kws)
  have "oblivious (mapS (visit_expr L) args)" using Call(2) by (rule oblivious_map)
  then show ?case using Call(1) by (auto split: obj.split ty.split)
qed (auto split: list.split intro: oblivious_map)

lemma oblivious_Assign [intro!]: "oblivious (visit_Assign L ts v)"
  unfolding visit_Assign_def by (auto split: list.split expr.split)

lemma oblivious_Return [intro!]: "oblivious (visit_Return L v)"
  unfolding visit_Return_def by auto

lemma oblivious_AnnAssign [intro!]: "oblivious (visit_AnnAssign L target annotation v)"
  unfolding visit_AnnAssign_def by (auto split: ty.split)

lemma oblivious_declare [intro!]: "oblivious (declare_function L n t)"
  unfolding declare_function_def by auto

lemma oblivious_import [intro!]: "oblivious (visit_ImportFrom L m names)"
  unfolding visit_ImportFrom_def import_c_name_def by (auto intro!: oblivious_iter)

lemma oblivious_branch_if_open [intro!]: "oblivious (branch_if_open L b)"
  unfolding branch_if_open_def by auto

lemma oblivious_If:
  assumes "oblivious body" and "\<And>m. orelse = Some m \<Longrightarrow> oblivious m"
  shows "oblivious (visit_If L test body orelse)"
  unfolding visit_If_def
  by (intro oblivious_bind oblivious_updates oblivious_setters oblivious_lookups oblivious_visit_expr
      oblivious_branch_if_open oblivious_case_option oblivious_ret assms)

lemma oblivious_While: "oblivious body \<Longrightarrow> oblivious (visit_While L test body)"
  unfolding visit_While_def
  by (intro oblivious_bind oblivious_updates oblivious_setters oblivious_lookups oblivious_visit_expr
      oblivious_branch_if_open)

lemma oblivious_bind_param [intro!]: "oblivious (bind_param L f p)"
  unfolding bind_param_def by auto

lemma oblivious_FunctionDef:
  assumes "oblivious run"
  shows "oblivious (visit_FunctionDef L C n ps r run)"
proof -
  have "oblivious (mapS (\<lambda>(n, a). get_type_opt a) xs)" for xs :: params by (rule oblivious_map) auto
  then show ?thesis
    unfolding visit_FunctionDef_def Let_def
    by (auto intro!: assms oblivious_iter)
qed

lemma oblivious_auto_init [intro!]: "oblivious (generate_auto_init L C l)"
  unfolding generate_auto_init_def Let_def by (auto intro!: oblivious_iter)

lemma oblivious_class_fields_loop [intro!]: "oblivious (class_fields_loop body l k ts)"
  by (induction body l k ts rule: class_fields_loop.induct) auto

lemma oblivious_class_header [intro!]: "oblivious (class_header L C body)"
  unfolding class_header_def by auto

lemma oblivious_stmt_body:
  "oblivious (visit_stmt L st) \<and>
    (case st of FunctionDef n ps b r \<Rightarrow> oblivious (iterS (visit_stmt L) b) | _ \<Rightarrow> True)"
  "case ch of ChildE e \<Rightarrow> True | ChildS st' \<Rightarrow> oblivious (visit_stmt L st')"
proof (induction st and ch)
  case (FunctionDef n ps body r)
  have "oblivious (iterS (visit_stmt L) body)" by (rule oblivious_iter) (simp add: FunctionDef)
  then show ?case by (simp add: oblivious_FunctionDef)
next
  case (ClassDef C body)
  have "oblivious (case st of
        FunctionDef n ps fbody r \<Rightarrow> visit_FunctionDef L (Some C) n ps r (iterS (visit_stmt L) fbody)
      | _ \<Rightarrow> retS ())" if "st \<in> set body" for st
    using ClassDef [OF that] by (cases st) (auto intro: oblivious_FunctionDef)
  then show ?case by (auto intro!: oblivious_iter)
next
  case (If test body orelse)
  have "oblivious (iterS (visit_stmt L) body)" "oblivious (iterS (visit_stmt L) orelse)"
    by (rule oblivious_iter, simp add: If)+
  then show ?case by (auto intro: oblivious_If)
next
  case (While test body orelse)
  have "oblivious (iterS (visit_stmt L) body)" by (rule oblivious_iter) (simp add: While)
  then show ?case by (auto intro: oblivious_While)
next
  case (OtherStmt c children)
  have "oblivious (case ch of ChildE e \<Rightarrow> bindS (visit_expr L e) (\<lambda>_. retS ()) | ChildS st \<Rightarrow> visit_stmt L st)"
    if "ch \<in> set children" for ch
    using OtherStmt [OF that] by (auto split: child.splits)
  then show ?case by (auto intro!: oblivious_iter)
qed (auto split: child.split)

lemmas oblivious_visit_stmt = oblivious_stmt_body(1) [THEN conjunct1]

lemma oblivious_body: "oblivious (iterS (visit_stmt L) body)"
  by (rule oblivious_iter) (rule oblivious_visit_stmt)

section \<open>Entry points\<close>

lemma oblivious_declare_json [intro!]: "oblivious (declare_json L p i64)"
  unfolding declare_json_def declare_c_def by auto

lemma oblivious_key_constant [intro!]: "oblivious (key_constant L f)"
  unfolding key_constant_def by auto

lemma oblivious_read_field [intro!]: "oblivious (read_field L i64 a jf ep el es fld)"
  unfolding read_field_def read_str_field_def by auto

lemma oblivious_write_field [intro!]: "oblivious (write_field L i64 jf rp rs fld pos)"
  unfolding write_field_def by auto

lemma oblivious_write_fields [intro!]: "oblivious (write_fields L i64 jf rp rs flds pos)"
  by (induction flds arbitrary: pos) auto

lemma oblivious_synthesize_handle [intro!]: "oblivious (synthesize_handle L p i64 jf t el rl)"
  unfolding synthesize_handle_def Let_def by (auto intro!: oblivious_iter)

lemma oblivious_init_with: "oblivious (init_with L stmts)"
  unfolding init_with_def by (auto intro!: oblivious_body)

lemma init_with_erase: "init_with L (erase_body stmts) = init_with L stmts"
  unfolding init_with_def visit_erase_body ..

lemma oblivious_synthesize_init [intro!]: "oblivious (synthesize_init L)"
proof (rule obliviousI)
  fix s
  have "cs_init_stmts (erase_state s) = erase_body (cs_init_stmts s)" by (simp add: erase_state_def)
  then show "synthesize_init L (erase_state s) = erased (synthesize_init L s)"
    by (simp add: synthesize_init_with init_with_erase obliviousD [OF oblivious_init_with])
qed





section \<open>Programs\<close>







text \<open>What erasure makes of a loop that counts: it does not count, and never breaks.\<close>

lemma erase_loop:
  "erase_stmt (While (Name ''b'')
      [OtherStmt ''AugAssign'' [ChildE (Name ''i''), ChildE (Constant (CInt 1))],
       If (Name ''c'') [OtherStmt ''Break'' []] []]
      [ExprStmt (Call (Name ''f'') [Name ''x''] [(''key'', Name ''y'')])]) =
   [While (Name ''b'')
      [ExprStmt (Name ''i''), ExprStmt (Constant (CInt 1)), If (Name ''c'') [Pass] []] []]"
  by (simp add: or_pass_def)

end
