(* ===== verification/CompilerArena.thy ===== *)
theory CompilerArena
  imports CompilerModuleFlow
begin

text \<open>
  The arena discipline: which arena the generated code allocates from. An allocation is a call
  whose first argument is an \<open>i32\<close> constant, the tag; no other call the compiler emits has
  such an argument, since source-level integers are 64 bits wide.
\<close>

section \<open>Tags\<close>

definition alloc_tag :: "instr \<Rightarrow> const option" where
  "alloc_tag i =
     (case i of
        CallI f args \<Rightarrow>
          (case args of OVal (ConstV (IntT w) c) # _ \<Rightarrow> if w = 32 then Some c else None | _ \<Rightarrow> None)
      | _ \<Rightarrow> None)"

definition tag_ok :: "nat \<Rightarrow> instr \<Rightarrow> bool" where
  "tag_ok k i \<longleftrightarrow> alloc_tag i = None \<or> alloc_tag i = Some (CInt (int k))"

text \<open>The instructions of a module, each with its block and number.\<close>

definition entries :: "cstate \<Rightarrow> (nat \<times> nat \<times> instr) set" where
  "entries s = {(b, e). b < length (cs_blocks s) \<and> e \<in> set (blk_code (cs_blocks s ! b))}"

definition allocates :: "nat \<Rightarrow> cstate \<Rightarrow> cstate \<Rightarrow> bool" where
  "allocates k s s' \<longleftrightarrow> (\<forall>(b, n, i) \<in> entries s' - entries s. tag_ok k i)"

lemma allocates_refl [simp]: "allocates k s s"
  by (simp add: allocates_def)

lemma allocates_trans: "allocates k s t \<Longrightarrow> allocates k t u \<Longrightarrow> allocates k s u"
  by (fastforce simp: allocates_def)

lemma allocates_same: "cs_blocks s' = cs_blocks s \<Longrightarrow> allocates k s s'"
  by (simp add: allocates_def entries_def)

lemma allocates_push:
  assumes "tag_ok k i"
  shows "allocates k s (push_instr b i s)"
proof (cases "b < length (cs_blocks s)")
  case True
  then show ?thesis
    using assms by (auto simp: allocates_def entries_def push_instr_def nth_list_update split: if_splits)
next
  case False
  then show ?thesis by (intro allocates_same) (simp add: push_instr_def list_update_beyond)
qed

lemma allocates_block:
  "append_block f n s = Inr (b, s') \<Longrightarrow> allocates k s s'"
  by (auto simp: append_block_def allocates_def entries_def nth_append split: if_splits)

section \<open>Values without tags\<close>

text \<open>No source value is an \<open>i32\<close> constant: the scopes hold none, and integer literals have
  the type \<open>int\<close> stands for.\<close>

fun plain_val :: "val \<Rightarrow> bool" where
  "plain_val (ConstV t c) = (t \<noteq> IntT 32)"
| "plain_val v = True"

fun plain_obj :: "obj \<Rightarrow> bool" where
  "plain_obj (OVal v) = plain_val v"
| "plain_obj (OMethod v m) = (plain_val v \<and> plain_val m)"
| "plain_obj _ = True"

definition plain_scopes :: "cstate \<Rightarrow> bool" where
  "plain_scopes s \<longleftrightarrow>
     (\<forall>n v. dict_get (cs_locals s) n = Some v \<longrightarrow> plain_val v) \<and>
     (\<forall>n v. dict_get (cs_globals s) n = Some v \<longrightarrow> plain_val v) \<and>
     dict_get (cs_types s) ''int'' \<noteq> Some (IntT 32)"

lemma tag_ok_call: "list_all plain_obj args \<Longrightarrow> tag_ok k (CallI f args)"
  by (cases args) (auto simp: tag_ok_def alloc_tag_def split: obj.split val.split ty.split)

lemma tag_ok_other [simp]:
  "tag_ok k (Alloca t)" "tag_ok k (Store v p)" "tag_ok k (Load p)" "tag_ok k (Bin oc a b)"
  "tag_ok k (Icmp c a b)" "tag_ok k (Gep p is ib)" "tag_ok k (PtrToInt p t)" "tag_ok k (Bitcast p t)"
  "tag_ok k (Ret v)" "tag_ok k RetVoid" "tag_ok k (Br b')" "tag_ok k (CBr v b1 b2)" "tag_ok k Unreachable"
  by (simp_all add: tag_ok_def alloc_tag_def)

section \<open>Computations that allocate from one arena\<close>

text \<open>From plain scopes, with the current arena \<open>k\<close>: the scopes stay plain, the arena stays,
  every new allocation has the tag \<open>k\<close>, and the result satisfies \<open>P\<close>.\<close>

definition in_arena :: "nat \<Rightarrow> ('a \<Rightarrow> bool) \<Rightarrow> 'a cm \<Rightarrow> bool" where
  "in_arena k P m \<longleftrightarrow>
     (\<forall>s r s'. plain_scopes s \<longrightarrow> cs_arena s = k \<longrightarrow> m s = Inr (r, s') \<longrightarrow>
        plain_scopes s' \<and> cs_arena s' = k \<and> allocates k s s' \<and> P r)"

lemma in_arenaI:
  assumes "\<And>s r s'. plain_scopes s \<Longrightarrow> cs_arena s = k \<Longrightarrow> m s = Inr (r, s') \<Longrightarrow>
    plain_scopes s' \<and> cs_arena s' = k \<and> allocates k s s' \<and> P r"
  shows "in_arena k P m"
  unfolding in_arena_def using assms by blast

lemma in_arenaD:
  "in_arena k P m \<Longrightarrow> plain_scopes s \<Longrightarrow> cs_arena s = k \<Longrightarrow> m s = Inr (r, s') \<Longrightarrow>
     plain_scopes s' \<and> cs_arena s' = k \<and> allocates k s s' \<and> P r"
  unfolding in_arena_def by blast

lemma in_arena_bind:
  assumes "in_arena k P m" and "\<And>a. P a \<Longrightarrow> in_arena k Q (f a)"
  shows "in_arena k Q (bindS m f)"
proof (rule in_arenaI)
  fix s r u
  assume s: "plain_scopes s" "cs_arena s = k" and run: "bindS m f s = Inr (r, u)"
  obtain a t where t: "m s = Inr (a, t)" "f a t = Inr (r, u)" using run by auto
  note m = in_arenaD [OF assms(1) s t(1)]
  have "in_arena k Q (f a)" using assms(2) m by blast
  from in_arenaD [OF this _ _ t(2)] m
  show "plain_scopes u \<and> cs_arena u = k \<and> allocates k s u \<and> Q r" by (blast intro: allocates_trans)
qed

lemma in_arena_weaken: "in_arena k P m \<Longrightarrow> (\<And>a. P a \<Longrightarrow> Q a) \<Longrightarrow> in_arena k Q m"
  unfolding in_arena_def by blast

abbreviation unrestricted :: "'a \<Rightarrow> bool" where
  "unrestricted \<equiv> \<lambda>_. True"

named_theorems arena_intros

lemma in_arena_ret [arena_intros]: "P a \<Longrightarrow> in_arena k P (retS a)"
  by (simp add: in_arena_def)

lemma in_arena_raise [arena_intros]: "in_arena k P (raiseS e)"
  by (simp add: in_arena_def)

lemma in_arena_get [arena_intros]: "in_arena k unrestricted (getS f)"
  by (simp add: in_arena_def)

lemma in_arena_lift [arena_intros]: "in_arena k unrestricted (liftS r)"
  by (simp add: in_arena_def)

lemma in_arena_get_arena: "in_arena k (\<lambda>a. a = k) (getS cs_arena)"
  by (simp add: in_arena_def)

lemma in_arena_get_local: "in_arena k (\<lambda>x. \<forall>v. x = Some v \<longrightarrow> plain_val v) (getS (\<lambda>s. dict_get (cs_locals s) n))"
  by (rule in_arenaI) (auto simp: plain_scopes_def)

lemma in_arena_get_global: "in_arena k (\<lambda>x. \<forall>v. x = Some v \<longrightarrow> plain_val v) (getS (\<lambda>s. dict_get (cs_globals s) n))"
  by (rule in_arenaI) (auto simp: plain_scopes_def)

lemma plain_scopes_same:
  "cs_locals s' = cs_locals s \<Longrightarrow> cs_globals s' = cs_globals s \<Longrightarrow> cs_types s' = cs_types s \<Longrightarrow>
     plain_scopes s' = plain_scopes s"
  by (simp add: plain_scopes_def)

lemma in_arena_emit: "tag_ok k i \<Longrightarrow> in_arena k plain_val (emit L i)"
proof (rule in_arenaI)
  fix s v s'
  assume tag: "tag_ok k i" and s: "plain_scopes s" "cs_arena s = k" and run: "emit L i s = Inr (v, s')"
  obtain b t where t: "v = InstrV (cs_next s) t" "s' = push_instr b i s" using emit_InrD [OF run] by auto
  have "plain_scopes s' = plain_scopes s"
    by (rule plain_scopes_same) (simp_all add: t push_instr_def)
  then show "plain_scopes s' \<and> cs_arena s' = k \<and> allocates k s s' \<and> plain_val v"
    using s allocates_push [OF tag, of s b] by (simp add: t) (simp add: push_instr_def)
qed

lemma in_arena_emit_obj: "tag_ok k i \<Longrightarrow> in_arena k plain_obj (emit_obj L i)"
  unfolding emit_obj_def by (rule in_arena_bind [OF in_arena_emit]) (auto intro: in_arena_ret)

lemma in_arena_emit_unit: "tag_ok k i \<Longrightarrow> in_arena k unrestricted (emit_unit L i)"
  unfolding emit_unit_def by (rule in_arena_bind [OF in_arena_emit]) (auto intro: in_arena_ret)

lemma in_arena_map:
  assumes "\<And>x. x \<in> set xs \<Longrightarrow> in_arena k P (f x)"
  shows "in_arena k (list_all P) (mapS f xs)"
  using assms
proof (induction xs)
  case (Cons x xs)
  show ?case
    unfolding mapS.simps
  proof (rule in_arena_bind)
    show "in_arena k P (f x)" by (rule Cons.prems) simp
  next
    fix y assume y: "P y"
    show "in_arena k (list_all P) (bindS (mapS f xs) (\<lambda>ys. retS (y # ys)))"
      by (rule in_arena_bind [OF Cons.IH]) (auto intro: in_arena_ret Cons.prems simp: y)
  qed
qed (simp add: in_arena_ret)

lemma in_arena_iter:
  assumes "\<And>x. x \<in> set xs \<Longrightarrow> in_arena k unrestricted (f x)"
  shows "in_arena k unrestricted (iterS f xs)"
  using assms
proof (induction xs)
  case (Cons x xs)
  have "in_arena k unrestricted (f x)" by (rule Cons.prems) simp
  moreover have "in_arena k unrestricted (iterS f xs)" by (rule Cons.IH, rule Cons.prems) simp
  ultimately show ?case unfolding iterS.simps by (rule in_arena_bind)
qed (simp add: in_arena_ret)

section \<open>Expressions\<close>

lemma in_arena_same:
  assumes "\<And>s r s'. m s = Inr (r, s') \<Longrightarrow> cs_locals s' = cs_locals s \<and> cs_globals s' = cs_globals s \<and>
    cs_types s' = cs_types s \<and> cs_arena s' = cs_arena s \<and> cs_blocks s' = cs_blocks s"
    and "\<And>s r s'. plain_scopes s \<Longrightarrow> m s = Inr (r, s') \<Longrightarrow> P r"
  shows "in_arena k P m"
proof (rule in_arenaI)
  fix s r s'
  assume s: "plain_scopes s" "cs_arena s = k" and run: "m s = Inr (r, s')"
  show "plain_scopes s' \<and> cs_arena s' = k \<and> allocates k s s' \<and> P r"
    using assms(1) [OF run] assms(2) [OF s(1) run] s plain_scopes_same [of s' s] allocates_same [of s' s k]
    by simp
qed

lemma in_arena_types_get: "in_arena k unrestricted (types_get n)"
  by (rule in_arena_same) (auto simp: types_get_def split: option.splits)

lemma in_arena_types_get_int: "in_arena k (\<lambda>t. t \<noteq> IntT 32) (types_get ''int'')"
  by (rule in_arena_same) (auto simp: types_get_def plain_scopes_def split: option.splits)

lemma in_arena_global_get: "in_arena k plain_val (global_get n)"
  by (rule in_arena_same) (auto simp: global_get_def plain_scopes_def split: option.splits)

lemma in_arena_layout_get: "in_arena k unrestricted (layout_get n)"
  by (rule in_arena_same) (auto simp: layout_get_def split: option.splits)

lemma in_arena_next_name: "in_arena k unrestricted (next_name p)"
  by (rule in_arena_same) (auto dest!: next_name_InrD)

lemma in_arena_new_data: "in_arena k plain_val (new_data L n t bytes c)"
  by (rule in_arena_same) (auto dest!: new_data_InrD)

lemma in_arena_new_function: "in_arena k (\<lambda>(i, f). plain_val f) (new_function L n t)"
  by (rule in_arena_same) (auto dest!: new_function_InrD)

lemma in_arena_set_type: "in_arena k unrestricted (set_type n (PtrT t))"
proof (rule in_arenaI)
  fix s u s'
  assume "plain_scopes s" "cs_arena s = k" "set_type n (PtrT t) s = Inr (u, s')"
  then show "plain_scopes s' \<and> cs_arena s' = k \<and> allocates k s s' \<and> True"
    by (auto simp: set_type_def plain_scopes_def intro: allocates_same)
qed

lemma in_arena_set_global: "plain_val v \<Longrightarrow> in_arena k unrestricted (set_global n v)"
proof (rule in_arenaI)
  fix s u s'
  assume "plain_val v" "plain_scopes s" "cs_arena s = k" "set_global n v s = Inr (u, s')"
  then show "plain_scopes s' \<and> cs_arena s' = k \<and> allocates k s s' \<and> True"
    by (auto simp: set_global_def plain_scopes_def intro: allocates_same)
qed

lemma in_arena_set_local: "plain_val v \<Longrightarrow> in_arena k unrestricted (set_local n v)"
proof (rule in_arenaI)
  fix s u s'
  assume "plain_val v" "plain_scopes s" "cs_arena s = k" "set_local n v s = Inr (u, s')"
  then show "plain_scopes s' \<and> cs_arena s' = k \<and> allocates k s s' \<and> True"
    by (auto simp: set_local_def plain_scopes_def intro: allocates_same)
qed

lemma in_arena_array: "in_arena k unrestricted m \<Longrightarrow>
    in_arena k unrestricted (bindS m (\<lambda>t. bindS (liftS (array_count c)) (\<lambda>n. retS (ArrT t n))))"
  by (intro in_arena_bind [of k unrestricted m] in_arena_bind [OF in_arena_lift] in_arena_ret) auto

lemma in_arena_get_type: "in_arena k unrestricted (get_type e)"
proof (induction e rule: get_type.induct)
  case (1 n)
  have "in_arena k unrestricted (bindS (set_type n (PtrT (StructT n))) (\<lambda>_. retS (PtrT (StructT n))))"
    by (intro in_arena_bind [OF in_arena_set_type] in_arena_ret) simp
  then show ?case
    by (auto intro!: in_arena_types_get in_arena_bind [OF in_arena_get] in_arena_ret in_arena_raise
        split: option.split)
next
  case (3 e slice)
  show ?case
  proof (cases e)
    case (Name head)
    note IH = 3 [OF Name]
    show ?thesis
    proof (cases "head = ''ptr''")
      case True
      then have "in_arena k unrestricted (get_type slice)" by (rule IH(1))
      then have "in_arena k unrestricted (bindS (get_type slice) (\<lambda>t. retS (PtrT t)))"
        by (rule in_arena_bind) (rule in_arena_ret, simp)
      then show ?thesis using True by (simp add: Name)
    next
      case False
      then show ?thesis using IH(2,3)
        by (cases slice) (auto simp: Name intro!: in_arena_raise in_arena_array split: list.split expr.split)
    qed
  qed (auto intro: in_arena_raise)
qed (auto intro: in_arena_types_get in_arena_raise)

lemma in_arena_get_type_opt: "in_arena k unrestricted (get_type_opt a)"
  by (auto simp: get_type_opt_def intro: in_arena_raise in_arena_get_type split: option.split)

lemma in_arena_Constant: "in_arena k plain_obj (visit_Constant L c)"
proof -
  have int: "in_arena k plain_obj (bindS (types_get ''int'') (\<lambda>t. retS (OVal (ConstV t c))))"
    by (rule in_arena_bind [OF in_arena_types_get_int]) (auto intro: in_arena_ret)
  have lit: "in_arena k plain_obj (bindS (next_name p) (\<lambda>n. bindS (new_data L n t bs b) (\<lambda>v. retS (OVal v))))"
    for p t bs b
    by (intro in_arena_bind [OF in_arena_next_name] in_arena_bind [OF in_arena_new_data] in_arena_ret) simp
  have str: "in_arena k plain_obj (bindS (liftS r) (\<lambda>bytes.
      bindS (next_name p) (\<lambda>n. bindS (new_data L n t bytes b) (\<lambda>v. retS (OVal v)))))" for r p t b
    by (rule in_arena_bind [OF in_arena_lift lit])
  show ?thesis
    using int lit str by (cases c) (auto simp: visit_Constant_def intro: in_arena_ret)
qed

lemma in_arena_Name: "in_arena k plain_obj (visit_Name L n)"
  unfolding visit_Name_def
proof (rule in_arena_bind [OF in_arena_get_local], goal_cases)
  case (1 loc)
  show ?case
  proof (cases loc)
    case (Some alloc)
    then show ?thesis using 1
      by (auto intro!: in_arena_ret in_arena_emit_obj split: ty.split)
  next
    case None
    show ?thesis
      unfolding None option.case
    proof (rule in_arena_bind [OF in_arena_get_global], goal_cases)
      case (1 glob)
      then show ?case
        by (cases glob) (auto intro!: in_arena_ret in_arena_raise in_arena_bind [OF in_arena_get]
            split: option.split)
    qed
  qed
qed

lemma in_arena_struct_gep: "in_arena k plain_val (struct_gep L p i)"
  unfolding struct_gep_def by (rule in_arena_emit) simp

lemma in_arena_store_field: "in_arena k unrestricted (store_field L p i v)"
  unfolding store_field_def by (intro in_arena_bind [OF in_arena_struct_gep] in_arena_emit_unit) simp

lemma in_arena_object_size: "in_arena k plain_val (object_size L t int_t)"
  unfolding object_size_def by (rule in_arena_bind [OF in_arena_emit in_arena_emit]) simp_all

lemma in_arena_object_at: "in_arena k plain_val (object_at L t k a sz)"
proof -
  have "tag_ok k (CallI (OVal a) [i32c k, OVal sz])" by (simp add: tag_ok_def alloc_tag_def)
  then show ?thesis
    unfolding object_at_def by (intro in_arena_bind [OF in_arena_emit in_arena_emit]) simp_all
qed

lemma in_arena_alloc_object: "in_arena k plain_val (alloc_object L t k)"
  unfolding alloc_object_def
  by (intro in_arena_bind [OF in_arena_types_get] in_arena_bind [OF in_arena_object_size]
      in_arena_bind [OF in_arena_global_get] in_arena_object_at)

lemma in_arena_wrap:
  assumes "plain_obj p"
  shows "in_arena k plain_obj (wrap_cstr_to_str L p)"
  unfolding wrap_cstr_to_str_def
  apply (rule in_arena_bind [OF in_arena_types_get])
  apply (rule in_arena_bind [OF in_arena_get_arena], simp only:)
  apply (rule in_arena_bind [OF in_arena_alloc_object])
  apply (rule in_arena_bind [OF in_arena_layout_get])
  apply (rule in_arena_bind [OF in_arena_lift])
  apply (rule in_arena_bind [OF in_arena_store_field])
  apply (rule in_arena_bind [OF in_arena_global_get])
  apply (rule in_arena_bind [OF in_arena_emit], rule tag_ok_call, simp add: assms)
  apply (rule in_arena_bind [OF in_arena_lift])
  apply (rule in_arena_bind [OF in_arena_store_field])
  apply (rule in_arena_bind [OF in_arena_lift])
  apply (rule in_arena_bind [OF in_arena_store_field])
  apply (rule in_arena_ret, simp)
  done

lemma in_arena_coerce_arg: "plain_obj v \<Longrightarrow> in_arena k plain_obj (coerce_arg L v t)"
  by (auto simp: coerce_arg_def intro!: in_arena_bind [OF in_arena_lift] in_arena_wrap in_arena_ret)

lemma in_arena_coerce_args: "list_all plain_obj vs \<Longrightarrow> in_arena k (list_all plain_obj) (coerce_args L vs ts)"
proof (induction vs arbitrary: ts)
  case (Cons v vs)
  show ?case
  proof (cases ts)
    case (Cons t ts')
    have tail: "in_arena k (list_all plain_obj) (coerce_args L vs ts')" using Cons.IH Cons.prems by simp
    show ?thesis
      unfolding Cons coerce_args.simps
      by (rule in_arena_bind [OF in_arena_coerce_arg], use Cons.prems in simp,
          rule in_arena_bind [OF tail], rule in_arena_ret, simp)
  qed (auto intro: in_arena_raise)
qed (auto intro: in_arena_ret)

lemma in_arena_call_init:
  assumes "list_all plain_obj args" and "plain_val p"
  shows "in_arena k unrestricted (call_init L f p args)"
  unfolding call_init_def
  by (rule in_arena_bind [OF in_arena_lift], rule in_arena_bind [OF in_arena_coerce_args [OF assms(1)]],
      rule in_arena_emit_unit, rule tag_ok_call, simp add: assms)

lemma in_arena_attr:
  assumes "plain_obj ob"
  shows "in_arena k plain_obj (visit_attr L attr ob)"
  unfolding visit_attr_def
proof (rule in_arena_bind [OF in_arena_lift], rule in_arena_bind [OF in_arena_get_global], goal_cases)
  case (1 type_name meth)
  have field: "in_arena k plain_obj
     (bindS (getS (\<lambda>s. dict_get (cs_layouts s) type_name)) (\<lambda>layout.
        case Option.bind layout (\<lambda>l. dict_get l attr) of
          Some (i, t) \<Rightarrow> bindS (struct_gep L ob i) (\<lambda>p. emit_obj L (Load (OVal p)))
        | None \<Rightarrow> raiseS e))" for e
    by (rule in_arena_bind [OF in_arena_get])
      (auto intro!: in_arena_bind [OF in_arena_struct_gep] in_arena_emit_obj in_arena_raise split: option.split)
  show ?case
    using 1 assms field by (cases ob; cases meth) (auto intro: in_arena_ret)
qed

lemma in_arena_element_addr: "in_arena k plain_val (element_addr L p idx)"
  unfolding element_addr_def
  by (rule in_arena_bind [OF in_arena_lift]) (auto intro!: in_arena_emit split: ty.split)

lemma in_arena_binop: "in_arena k plain_obj (visit_binop L op l r)"
  by (auto simp: visit_binop_def intro: in_arena_emit_obj in_arena_raise split: option.split)

lemma in_arena_unaryop: "plain_obj v \<Longrightarrow> in_arena k plain_obj (visit_unaryop L op v)"
  by (auto simp: visit_unaryop_def intro!: in_arena_bind [OF in_arena_lift] in_arena_emit_obj
      in_arena_raise in_arena_ret split: unaryop.split)

lemma in_arena_icmp: "in_arena k plain_obj (visit_icmp L op l r)"
  by (auto simp: visit_icmp_def intro: in_arena_emit_obj in_arena_raise split: option.split)

lemma in_arena_call: "list_all plain_obj vs \<Longrightarrow> in_arena k plain_obj (emit_obj L (CallI f vs))"
  by (rule in_arena_emit_obj) (rule tag_ok_call)

lemma in_arena_call_expr:
  assumes callee: "in_arena k plain_obj (visit_expr L f)" and sub: "\<And>e. e \<in> set args \<Longrightarrow> in_arena k plain_obj (visit_expr L e)"
  shows "in_arena k plain_obj (visit_expr L (Call f args kws))"
proof -
  have args: "in_arena k (list_all plain_obj) (mapS (visit_expr L) args)"
    by (rule in_arena_map) (rule sub)
  have call: "in_arena k plain_obj (bindS (mapS (visit_expr L) args) (\<lambda>vs. emit_obj L (CallI g vs)))" for g
    by (rule in_arena_bind [OF args in_arena_call])
  have meth: "in_arena k plain_obj (bindS (mapS (visit_expr L) args) (\<lambda>vs. emit_obj L (CallI g (OVal ob # vs))))"
    if "plain_val ob" for g ob
    by (rule in_arena_bind [OF args in_arena_call]) (use that in simp)
  have init: "in_arena k plain_obj (bindS (mapS (visit_expr L) args) (\<lambda>raw_args.
      bindS (call_init L init_func p raw_args) (\<lambda>_. retS (OVal p))))" if "plain_val p" for init_func p
    by (rule in_arena_bind [OF args], rule in_arena_bind [OF in_arena_call_init])
      (use that in \<open>auto intro: in_arena_ret\<close>)
  have object: "in_arena k plain_obj
      (bindS (getS cs_arena) (\<lambda>tag.
       bindS (alloc_object L t tag) (\<lambda>p.
       bindS (getS (\<lambda>s. dict_get (cs_globals s) n)) (\<lambda>init.
         case init of
           None \<Rightarrow> retS (OVal p)
         | Some init_func \<Rightarrow>
             bindS (mapS (visit_expr L) args) (\<lambda>raw_args.
             bindS (call_init L init_func p raw_args) (\<lambda>_. retS (OVal p)))))))" for t n
    by (rule in_arena_bind [OF in_arena_get_arena], simp only:,
        rule in_arena_bind [OF in_arena_alloc_object], rule in_arena_bind [OF in_arena_get])
      (auto intro: init in_arena_ret split: option.split)
  show ?thesis unfolding visit_expr.simps
  proof (rule in_arena_bind [OF callee])
    fix callee :: obj
    assume plain: "plain_obj callee"
    show "in_arena k plain_obj (case callee of
         OMethod ob m \<Rightarrow>
           bindS (mapS (visit_expr L) args) (\<lambda>vs. emit_obj L (CallI (OVal m) (OVal ob # vs)))
       | OType (PtrT (StructT C)) \<Rightarrow>
           bindS (getS cs_arena) (\<lambda>tag.
           bindS (alloc_object L (PtrT (StructT C)) tag) (\<lambda>obj_ptr.
           bindS (getS (\<lambda>s. dict_get (cs_globals s) (C @ ''___init__''))) (\<lambda>init.
             case init of
               None \<Rightarrow> retS (OVal obj_ptr)
             | Some init_func \<Rightarrow>
                 bindS (mapS (visit_expr L) args) (\<lambda>raw_args.
                 bindS (call_init L init_func obj_ptr raw_args) (\<lambda>_.
                   retS (OVal obj_ptr))))))
       | _ \<Rightarrow> bindS (mapS (visit_expr L) args) (\<lambda>vs. emit_obj L (CallI callee vs)))"
    proof (cases callee)
      case (OType t)
      then show ?thesis
        using call object by (auto split: ty.split)
    qed (use call meth plain in auto)
  qed
qed

lemma in_arena_visit_expr: "in_arena k plain_obj (visit_expr L e)"
proof (induction e)
  case (BinOp l op r)
  then show ?case by (auto intro!: in_arena_bind [OF BinOp(1)] in_arena_bind [OF BinOp(2)] in_arena_binop)
next
  case (UnaryOp op e)
  show ?case unfolding visit_expr.simps
    by (rule in_arena_bind [OF UnaryOp]) (rule in_arena_unaryop)
next
  case (Compare l ops cs)
  have "in_arena k plain_obj (bindS (visit_expr L c) (visit_icmp L op lhs))" if "c \<in> set cs" for c op lhs
    by (rule in_arena_bind [OF Compare(2) [OF that]]) (rule in_arena_icmp)
  then show ?case
    by (auto intro!: in_arena_bind [OF Compare(1)] in_arena_raise split: list.split)
next
  case (Call f args kws)
  show ?case by (rule in_arena_call_expr [OF Call(1,2)])
next
  case (Attribute e attr)
  show ?case unfolding visit_expr.simps
    by (rule in_arena_bind [OF Attribute]) (rule in_arena_attr)
next
  case (Subscript e i)
  show ?case unfolding visit_expr.simps
    by (rule in_arena_bind [OF Subscript(1)], rule in_arena_bind [OF Subscript(2)],
        rule in_arena_bind [OF in_arena_element_addr], rule in_arena_emit_obj) simp
next
  case (Tuple es)
  show ?case unfolding visit_expr.simps
    by (rule in_arena_bind [OF in_arena_map]) (auto intro: Tuple in_arena_ret)
next
  case (OtherExpr c es)
  show ?case unfolding visit_expr.simps
    by (rule in_arena_bind [OF in_arena_map]) (auto intro: OtherExpr in_arena_ret)
qed (simp_all add: in_arena_Name in_arena_Constant)

section \<open>Statements\<close>

lemma in_arena_tags: "in_arena k unrestricted (modS (\<lambda>s. s\<lparr>cs_arena_tags := f s\<rparr>))"
  by (rule in_arena_same) auto

lemma in_arena_position: "in_arena k unrestricted (position_at_end b)"
  unfolding position_at_end_def by (rule in_arena_same) auto

lemma in_arena_append: "in_arena k unrestricted (append_block f n)"
proof (rule in_arenaI)
  fix s b s'
  assume s: "plain_scopes s" "cs_arena s = k" and run: "append_block f n s = Inr (b, s')"
  show "plain_scopes s' \<and> cs_arena s' = k \<and> allocates k s s' \<and> True"
    using s allocates_block [OF run, of k] run by (auto simp: append_block_def plain_scopes_def)
qed

lemma in_arena_cur_function: "in_arena k unrestricted cur_function"
  by (rule in_arena_same) (auto simp: cur_function_def split: option.splits)

lemma in_arena_is_terminated: "in_arena k unrestricted (is_terminated L)"
  unfolding is_terminated_def
  by (rule in_arena_same) (auto simp: cur_block_def split: option.splits)

lemma in_arena_branch_if_open: "in_arena k unrestricted (branch_if_open L b)"
  unfolding branch_if_open_def
  by (rule in_arena_bind [OF in_arena_is_terminated]) (auto intro: in_arena_ret in_arena_emit_unit)

lemma in_arena_AnnAssign: "in_arena k unrestricted (visit_AnnAssign L target annotation v)"
proof -
  have store: "in_arena k unrestricted (bindS (visit_expr L e) (\<lambda>w. emit_unit L (Store w p)))" for e p
    by (rule in_arena_bind [OF in_arena_visit_expr in_arena_emit_unit]) simp
  show ?thesis
    unfolding visit_AnnAssign_def
    apply (rule in_arena_bind [OF in_arena_lift])
    apply (rule in_arena_bind [OF in_arena_get_type])
    apply (rule in_arena_bind [OF in_arena_emit], simp)
    apply (rule in_arena_bind [OF in_arena_set_local], assumption)
    apply (rule in_arena_bind [where P = unrestricted])
     apply (auto intro: in_arena_ret in_arena_raise store split: option.split ty.split) []
    apply (rule in_arena_tags)
    done
qed

lemma in_arena_Assign: "in_arena k unrestricted (visit_Assign L targs v)"
proof -
  have store: "in_arena k unrestricted (bindS (visit_expr L e) (\<lambda>w. emit_unit L (Store w p)))" for e p
    by (rule in_arena_bind [OF in_arena_visit_expr in_arena_emit_unit]) simp
  have sub: "in_arena k unrestricted
     (bindS (visit_expr L e) (\<lambda>p. bindS (visit_expr L i) (\<lambda>idx. bindS (element_addr L p idx) (\<lambda>addr.
        bindS (visit_expr L v) (\<lambda>w. emit_unit L (Store w (OVal addr)))))))" for e i
    by (rule in_arena_bind [OF in_arena_visit_expr], rule in_arena_bind [OF in_arena_visit_expr],
        rule in_arena_bind [OF in_arena_element_addr], rule store)
  show ?thesis
    unfolding visit_Assign_def
    by (auto intro!: in_arena_raise sub store in_arena_bind [OF in_arena_get] split: list.split expr.split option.split)
qed

lemma in_arena_Return: "in_arena k unrestricted (visit_Return L v)"
  unfolding visit_Return_def
  by (auto intro!: in_arena_emit_unit in_arena_bind [OF in_arena_visit_expr] split: option.split)

lemma in_arena_branch: "in_arena k unrestricted (emit_unit L (Br b))" "in_arena k unrestricted (emit_unit L (CBr v b b'))"
  by (rule in_arena_emit_unit, simp)+

lemmas in_arena_steps =
  in_arena_bind [OF in_arena_cur_function] in_arena_bind [OF in_arena_append]
  in_arena_bind [OF in_arena_branch(1)] in_arena_bind [OF in_arena_branch(2)]
  in_arena_bind [OF in_arena_position] in_arena_bind [OF in_arena_visit_expr]
  in_arena_bind [OF in_arena_branch_if_open]

lemma in_arena_While:
  assumes "in_arena k unrestricted body"
  shows "in_arena k unrestricted (visit_While L test body)"
  unfolding visit_While_def
  by (intro in_arena_steps in_arena_bind [OF assms] in_arena_position)

lemma in_arena_If:
  assumes "in_arena k unrestricted body" and "\<And>m. orelse = Some m \<Longrightarrow> in_arena k unrestricted m"
  shows "in_arena k unrestricted (visit_If L test body orelse)"
proof (cases orelse)
  case None
  show ?thesis
    unfolding visit_If_def None option.case
    by (intro in_arena_steps in_arena_bind [OF assms(1)] in_arena_bind [OF in_arena_ret [of unrestricted]]
        in_arena_position) simp_all
next
  case (Some m)
  show ?thesis
    unfolding visit_If_def Some option.case bindS_assoc
    by (intro in_arena_steps in_arena_bind [OF assms(1)] in_arena_bind [OF assms(2) [OF Some]]
        in_arena_position)
qed

lemma in_arena_declare: "in_arena k plain_val (declare_function L n t)"
  unfolding declare_function_def
  by (rule in_arena_bind [OF in_arena_new_function])
    (auto intro!: in_arena_bind [OF in_arena_set_global] in_arena_ret)

lemma in_arena_import: "in_arena k unrestricted (visit_ImportFrom L m names)"
proof -
  have "in_arena k unrestricted (import_c_name L n)" for n
    unfolding import_c_name_def
    by (auto intro!: in_arena_bind [OF in_arena_get] in_arena_ret in_arena_bind [OF in_arena_types_get]
        in_arena_raise in_arena_bind [OF in_arena_declare] split: option.split)
  then show ?thesis
    by (auto simp: visit_ImportFrom_def intro: in_arena_iter in_arena_raise)
qed

lemma in_arena_visit_stmt:
  shows "flat st \<Longrightarrow> in_arena k unrestricted (visit_stmt L st)"
    and "case ch of ChildE e \<Rightarrow> True | ChildS st' \<Rightarrow> flat st' \<longrightarrow> in_arena k unrestricted (visit_stmt L st')"
proof (induction st and ch)
  case (If test body orelse)
  have "in_arena k unrestricted (iterS (visit_stmt L) body)"
    "in_arena k unrestricted (iterS (visit_stmt L) orelse)"
    using If by (auto simp: list_all_iff intro!: in_arena_iter)
  then show ?case by (auto intro: in_arena_If)
next
  case (While test body orelse)
  have "in_arena k unrestricted (iterS (visit_stmt L) body)"
    using While by (auto simp: list_all_iff intro!: in_arena_iter)
  then show ?case by (auto intro: in_arena_While)
next
  case (OtherStmt c children)
  have "in_arena k unrestricted
      (case ch of ChildE e \<Rightarrow> bindS (visit_expr L e) (\<lambda>_. retS ()) | ChildS st \<Rightarrow> visit_stmt L st)"
    if "ch \<in> set children" for ch
    using OtherStmt(1) [OF that] OtherStmt(2) that
    by (cases ch) (auto simp: list_all_iff intro: in_arena_bind [OF in_arena_visit_expr] in_arena_ret)
  then show ?case by (auto intro: in_arena_iter)
next
  case (ExprStmt e)
  show ?case by (auto intro: in_arena_bind [OF in_arena_visit_expr] in_arena_ret)
qed (auto intro: in_arena_import in_arena_Return in_arena_AnnAssign in_arena_Assign in_arena_ret split: child.split)

lemma in_arena_body: "list_all flat body \<Longrightarrow> in_arena k unrestricted (iterS (visit_stmt L) body)"
  by (auto simp: list_all_iff intro: in_arena_iter in_arena_visit_stmt)

section \<open>Functions\<close>

lemma in_arena_bind_param: "in_arena k unrestricted (bind_param L f p)"
  unfolding bind_param_def
  by (cases p) (auto intro!: in_arena_bind [OF in_arena_emit] in_arena_bind [OF in_arena_emit_unit]
      in_arena_set_local)

lemma in_arena_scopes: "in_arena k unrestricted (modS (\<lambda>s. s\<lparr>cs_locals := [], cs_arena_tags := []\<rparr>))"
proof (rule in_arenaI)
  fix s u s'
  assume "plain_scopes s" "cs_arena s = k"
    "modS (\<lambda>s. s\<lparr>cs_locals := [], cs_arena_tags := []\<rparr>) s = Inr (u, s')"
  then show "plain_scopes s' \<and> cs_arena s' = k \<and> allocates k s s' \<and> True"
    by (auto simp: plain_scopes_def intro: allocates_same)
qed

text \<open>The part of \<open>visit_FunctionDef\<close> between setting and restoring the arena.\<close>

definition function_core ::
  "llapi \<Rightarrow> string option \<Rightarrow> string \<Rightarrow> params \<Rightarrow> expr option \<Rightarrow> unit cm \<Rightarrow> unit cm" where
  "function_core L class_name name params returns run_body =
     (let func_name = (case class_name of None \<Rightarrow> name | Some C \<Rightarrow> C @ ''_'' @ name);
          ast_args = filter (\<lambda>(n, a). n \<noteq> ''self'') params
      in
        bindS (get_type_opt returns) (\<lambda>return_type.
        bindS (case class_name of
                 None \<Rightarrow> retS []
               | Some C \<Rightarrow> bindS (types_get C) (\<lambda>t. retS [t])) (\<lambda>self_types.
        bindS (mapS (\<lambda>(n, a). get_type_opt a) ast_args) (\<lambda>arg_types.
        bindS (new_function L func_name (FunT return_type (self_types @ arg_types) False)) (\<lambda>(f, fv).
        bindS (set_global func_name fv) (\<lambda>_.
        bindS (append_block f ''entry'') (\<lambda>entry.
        bindS (position_at_end entry) (\<lambda>_.
        bindS (modS (\<lambda>s. s\<lparr>cs_locals := [], cs_arena_tags := []\<rparr>)) (\<lambda>_.
        bindS (iterS (bind_param L f)
                 (zip [0..<length (self_types @ arg_types)]
                   (zip ((if class_name = None then [] else [''self'']) @ map fst ast_args)
                        (self_types @ arg_types)))) (\<lambda>_.
        bindS run_body (\<lambda>_.
        bindS (is_terminated L) (\<lambda>done.
          if done then retS ()
          else if return_type \<noteq> VoidT then emit_unit L Unreachable
          else emit_unit L RetVoid))))))))))))"

lemma visit_FunctionDef_core:
  "visit_FunctionDef L C n ps r run =
     bindS (getS cs_arena) (\<lambda>saved.
     bindS (if C = None \<and> n = ''handle'' then modS (\<lambda>s. s\<lparr>cs_arena := ARENA_REQ\<rparr>) else retS ()) (\<lambda>_.
     bindS (function_core L C n ps r run) (\<lambda>_. modS (\<lambda>s. s\<lparr>cs_arena := saved\<rparr>))))"
  by (simp add: visit_FunctionDef_def function_core_def Let_def bindS_assoc case_prod_unfold)

lemma in_arena_function_core:
  assumes "in_arena k unrestricted run"
  shows "in_arena k unrestricted (function_core L C n ps r run)"
proof -
  have self: "in_arena k unrestricted (case C of None \<Rightarrow> retS [] | Some D \<Rightarrow> bindS (types_get D) (\<lambda>t. retS [t]))"
    by (auto intro: in_arena_ret in_arena_bind [OF in_arena_types_get] split: option.split)
  have types: "in_arena k (list_all unrestricted) (mapS (\<lambda>(n, a). get_type_opt a) xs)" for xs :: params
    by (rule in_arena_map) (auto intro: in_arena_get_type_opt)
  have params: "in_arena k unrestricted (iterS (bind_param L f) xs)" for f xs
    by (rule in_arena_iter) (rule in_arena_bind_param)
  show ?thesis
    unfolding function_core_def Let_def
    apply (rule in_arena_bind [OF in_arena_get_type_opt])
    apply (rule in_arena_bind [OF self])
    apply (rule in_arena_bind [OF types])
    apply (rule in_arena_bind [OF in_arena_new_function])
    apply (simp only: split_paired_all prod.case)
    apply (rule in_arena_bind [OF in_arena_set_global], assumption)
    apply (rule in_arena_bind [OF in_arena_append])
    apply (rule in_arena_bind [OF in_arena_position])
    apply (rule in_arena_bind [OF in_arena_scopes])
    apply (rule in_arena_bind [OF params])
    apply (rule in_arena_bind [OF assms])
    apply (rule in_arena_bind [OF in_arena_is_terminated])
    apply (auto intro: in_arena_ret in_arena_emit_unit)
    done
qed

lemma in_arena_FunctionDef:
  assumes "\<not> (C = None \<and> n = ''handle'')" and "in_arena k unrestricted run"
  shows "in_arena k unrestricted (visit_FunctionDef L C n ps r run)"
proof -
  have restore: "in_arena k unrestricted (modS (\<lambda>s. s\<lparr>cs_arena := k\<rparr>))"
    by (rule in_arenaI) (auto simp: plain_scopes_def intro: allocates_same)
  show ?thesis
    unfolding visit_FunctionDef_core
    by (rule in_arena_bind [OF in_arena_get_arena], simp only:)
      (use assms(1) in \<open>auto simp: bindS_ret intro!: in_arena_bind [OF in_arena_function_core [OF assms(2)]] restore\<close>)
qed

lemma handle_in_request_arena:
  assumes "in_arena ARENA_REQ unrestricted run" and "plain_scopes s"
    and "visit_FunctionDef L None ''handle'' ps r run s = Inr (u, s')"
  shows "plain_scopes s' \<and> cs_arena s' = cs_arena s \<and> allocates ARENA_REQ s s'"
proof -
  let ?s1 = "s\<lparr>cs_arena := ARENA_REQ\<rparr>"
  obtain u2 s2 where core: "function_core L None ''handle'' ps r run ?s1 = Inr (u2, s2)"
    and s': "s' = s2\<lparr>cs_arena := cs_arena s\<rparr>"
    using assms(3) by (auto simp: visit_FunctionDef_core)
  have "plain_scopes ?s1" using assms(2) by (simp add: plain_scopes_def)
  from in_arenaD [OF in_arena_function_core [OF assms(1)] this _ core]
  have s2: "plain_scopes s2" "allocates ARENA_REQ ?s1 s2" by simp_all
  have "plain_scopes s'" using s2(1) by (simp add: s' plain_scopes_def)
  moreover have "allocates ARENA_REQ s s'"
    using s2(2) by (simp add: s' allocates_def entries_def)
  ultimately show ?thesis by (simp add: s')
qed

section \<open>Classes and modules\<close>

lemma in_arena_auto_init: "in_arena k unrestricted (generate_auto_init L C l)"
proof -
  have saved: "in_arena k (\<lambda>(b, l). \<forall>n v. dict_get l n = Some v \<longrightarrow> plain_val v)
      (getS (\<lambda>s. (cs_builder s, cs_locals s)))"
    by (rule in_arenaI) (auto simp: plain_scopes_def)
  have clear: "in_arena k unrestricted (modS (\<lambda>s. s\<lparr>cs_locals := []\<rparr>))"
    by (rule in_arenaI) (auto simp: plain_scopes_def intro: allocates_same)
  have restore: "in_arena k unrestricted (modS (\<lambda>s. s\<lparr>cs_builder := fst p, cs_locals := snd p\<rparr>))"
    if "case p of (b, l) \<Rightarrow> \<forall>n v. dict_get l n = Some v \<longrightarrow> plain_val v" for p
    by (rule in_arenaI) (use that in \<open>auto simp: plain_scopes_def intro: allocates_same\<close>)
  have fields: "in_arena k unrestricted (iterS (\<lambda>(i, n, j, t). store_field L p j (v i t)) xs)"
    for p v and xs :: "(nat \<times> string \<times> nat \<times> ty) list"
    by (rule in_arena_iter) (auto intro: in_arena_store_field)
  show ?thesis
    unfolding generate_auto_init_def Let_def
    apply (rule in_arena_bind [OF in_arena_new_function])
    apply (simp only: split_paired_all prod.case)
    apply (rule in_arena_bind [OF in_arena_set_global], assumption)
    apply (rule in_arena_bind [OF saved])
    apply (rule in_arena_bind [OF in_arena_append])
    apply (rule in_arena_bind [OF in_arena_position])
    apply (rule in_arena_bind [OF clear])
    apply (rule in_arena_bind [OF in_arena_emit], simp)
    apply (rule in_arena_bind [OF in_arena_emit_unit], simp)
    apply (rule in_arena_bind [OF in_arena_emit], simp)
    apply (rule in_arena_bind [OF in_arena_lift])
    apply (rule in_arena_bind [OF in_arena_store_field])
    apply (rule in_arena_bind [OF fields])
    apply (rule in_arena_bind [OF in_arena_emit_unit], simp)
    apply (rule restore, simp only: split_paired_all prod.case)
    done
qed

lemma in_arena_class_fields_loop: "in_arena k unrestricted (class_fields_loop body l i ts)"
  by (induction body l i ts rule: class_fields_loop.induct)
    (auto intro: in_arena_ret in_arena_bind [OF in_arena_lift] in_arena_bind [OF in_arena_get_type])

lemma in_arena_class_header: "in_arena k unrestricted (class_header L C body)"
proof -
  have body: "in_arena k unrestricted (set_body L C ts)" for ts
    by (rule in_arena_same) (auto dest!: set_body_InrD)
  have layout: "in_arena k unrestricted (modS (\<lambda>s. s\<lparr>cs_layouts := dict_set C l (cs_layouts s)\<rparr>))" for l
    by (rule in_arena_same) auto
  show ?thesis
    unfolding class_header_def
    apply (rule in_arena_bind [OF in_arena_class_fields_loop])
    apply (simp only: split_paired_all prod.case)
    apply (rule in_arena_bind [OF body])
    apply (rule in_arena_bind [OF in_arena_set_type])
    apply (rule in_arena_bind [OF layout])
    apply (auto intro: in_arena_ret in_arena_auto_init)
    done
qed

lemma in_arena_visit_top:
  assumes "plain_top st"
  shows "in_arena k unrestricted (visit_top L st)"
proof -
  have deferred: "in_arena k unrestricted (modS (\<lambda>s. s\<lparr>cs_init_stmts := f s\<rparr>))"
    "in_arena k unrestricted (modS (\<lambda>s. s\<lparr>cs_handle := h\<rparr>))" for f h
    by (rule in_arena_same; auto)+
  show ?thesis
  proof (cases "is_main_block st")
    case True
    then show ?thesis by (auto simp: visit_top_def intro: in_arena_ret)
  next
    case False
    show ?thesis
    proof (cases st)
      case (FunctionDef n ps body r)
      then show ?thesis using assms False deferred
        by (auto simp: visit_top_def plain_top_def intro!: in_arena_FunctionDef in_arena_body)
    next
      case (ClassDef C body)
      have "in_arena k unrestricted (case st of
          FunctionDef n ps fbody r \<Rightarrow> visit_FunctionDef L (Some C) n ps r (iterS (visit_stmt L) fbody)
        | _ \<Rightarrow> retS ())" if "st \<in> set body" for st
        using assms False that ClassDef
        by (auto simp: plain_top_def plain_method_def list_all_iff intro: in_arena_ret
            intro!: in_arena_FunctionDef in_arena_body split: stmt.split)
      then show ?thesis using assms False ClassDef
        by (auto simp: visit_top_def intro!: in_arena_iter in_arena_bind [OF in_arena_class_header])
    qed (use assms False deferred in \<open>auto simp: visit_top_def plain_top_def intro: in_arena_import in_arena_ret\<close>)
  qed
qed

lemma in_arena_Module: "list_all plain_top tree \<Longrightarrow> in_arena k unrestricted (visit_Module L tree)"
  unfolding visit_Module_def by (auto simp: list_all_iff intro: in_arena_iter in_arena_visit_top)

lemma in_arena_compiler_init: "in_arena k unrestricted (compiler_init L triple)"
proof -
  have target: "in_arena k unrestricted (modS (\<lambda>s. s\<lparr>cs_triple := tr, cs_data_layout := dl\<rparr>))" for tr dl
    by (rule in_arena_same) auto
  show ?thesis
    unfolding compiler_init_def Let_def
    apply (rule in_arena_bind [where P = unrestricted])
     apply (auto intro: in_arena_ret in_arena_raise split: option.split) []
    apply (rule in_arena_bind [OF target])
    apply (rule in_arena_bind [OF in_arena_new_data])
    apply (rule in_arena_bind [OF in_arena_set_global], assumption)
    apply (rule in_arena_bind [OF in_arena_declare])+
    apply (rule in_arena_ret, simp)
    done
qed

section \<open>Entry points\<close>

lemma in_arena_key_constant: "in_arena k plain_val (key_constant L f)"
  unfolding key_constant_def by (rule in_arena_bind [OF in_arena_next_name in_arena_new_data])

lemma tag_ok_arg: "plain_obj v \<Longrightarrow> tag_ok k (CallI f (v # vs))"
  by (auto simp: tag_ok_def alloc_tag_def split: obj.split val.split ty.split)

lemma in_arena_declare_json: "in_arena k unrestricted (declare_json L p i64)"
proof -
  have "in_arena k plain_val (declare_c L n r ts)" for n r ts
    unfolding declare_c_def by (rule in_arena_bind [OF in_arena_new_function]) (auto intro: in_arena_ret)
  note c = in_arena_bind [OF this]
  show ?thesis
    unfolding declare_json_def by (intro c in_arena_ret) simp
qed

lemma in_arena_read_str_field:
  assumes "plain_obj ep"
  shows "in_arena ARENA_REQ unrestricted (read_str_field L i64 a jf ep el key kl fp)"
  unfolding read_str_field_def
  apply (rule in_arena_bind [OF in_arena_emit], simp)
  apply (rule in_arena_bind [OF in_arena_emit], rule tag_ok_arg [OF assms])
  apply (rule in_arena_bind [OF in_arena_emit], simp)
  apply (rule in_arena_bind [OF in_arena_types_get])
  apply (rule in_arena_bind [OF in_arena_object_size])
  apply (rule in_arena_bind [OF in_arena_object_at])
  apply (rule in_arena_bind [OF in_arena_layout_get])
  apply (rule in_arena_bind [OF in_arena_lift])
  apply (rule in_arena_bind [OF in_arena_store_field])
  apply (rule in_arena_bind [OF in_arena_lift])
  apply (rule in_arena_bind [OF in_arena_store_field])
  apply (rule in_arena_bind [OF in_arena_lift])
  apply (rule in_arena_bind [OF in_arena_store_field])
  apply (rule in_arena_emit_unit, simp)
  done

lemma in_arena_read_field:
  assumes "plain_obj ep"
  shows "in_arena ARENA_REQ unrestricted (read_field L i64 a jf ep el es fld)"
  unfolding read_field_def
  by (cases fld)
    (auto intro!: in_arena_bind [OF in_arena_key_constant] in_arena_bind [OF in_arena_struct_gep]
      in_arena_read_str_field in_arena_bind [OF in_arena_emit] tag_ok_arg in_arena_emit_unit
      in_arena_raise assms)

lemma in_arena_write_field:
  assumes "plain_obj rp"
  shows "in_arena k plain_obj (write_field L i64 jf rp rs fld pos)"
proof -
  obtain n j t where fld: "fld = (n, j, t)" by (cases fld) auto
  have call: "in_arena k plain_obj (emit_obj L (CallI f (rp # vs)))" for f vs
    by (rule in_arena_emit_obj) (rule tag_ok_arg [OF assms])
  note step = in_arena_bind [OF in_arena_struct_gep] in_arena_bind [OF in_arena_emit]
    in_arena_bind [OF in_arena_layout_get] in_arena_bind [OF in_arena_lift]
  show ?thesis
    unfolding write_field_def fld prod.case
    by (rule in_arena_bind [OF in_arena_key_constant])
      (auto intro!: step call in_arena_raise)
qed

lemma in_arena_write_fields:
  assumes "plain_obj rp" and "plain_obj pos"
  shows "in_arena k plain_obj (write_fields L i64 jf rp rs flds pos)"
  using assms(2)
proof (induction flds arbitrary: pos)
  case (Cons fld flds)
  show ?case unfolding write_fields.simps
    by (rule in_arena_bind [OF in_arena_write_field [OF assms(1)]]) (rule Cons.IH)
qed (simp add: in_arena_ret)

lemma synthesize_init_static:
  assumes "list_all flat (cs_init_stmts s)" and "plain_scopes s" and "cs_arena s = ARENA_STATIC"
    and "synthesize_init L s = Inr (u, s')"
  shows "plain_scopes s' \<and> cs_arena s' = ARENA_STATIC \<and> allocates ARENA_STATIC s s'"
proof -
  have scope: "in_arena ARENA_STATIC unrestricted (modS (\<lambda>s. s\<lparr>cs_locals := [], cs_arena := ARENA_STATIC\<rparr>))"
    by (rule in_arenaI) (auto simp: plain_scopes_def intro: allocates_same)
  have finish: "in_arena ARENA_STATIC unrestricted (if d then retS () else emit_unit L RetVoid)" for d
    by (auto intro: in_arena_ret in_arena_emit_unit)
  have "in_arena ARENA_STATIC unrestricted (init_with L (cs_init_stmts s))"
    unfolding init_with_def
    apply (rule in_arena_bind [OF in_arena_new_function])
    apply (simp only: split_paired_all prod.case)
    apply (rule in_arena_bind [OF in_arena_append])
    apply (rule in_arena_bind [OF in_arena_position])
    apply (rule in_arena_bind [OF scope])
    apply (rule in_arena_bind [OF in_arena_body [OF assms(1)]])
    apply (rule in_arena_bind [OF in_arena_is_terminated])
    apply (rule in_arena_bind [OF finish])
    apply (rule in_arena_ret, simp)
    done
  from in_arenaD [OF this assms(2,3)] assms(4) show ?thesis by (simp add: synthesize_init_with)
qed

lemma synthesize_handle_request:
  assumes "plain_scopes s" and "synthesize_handle L p i64 jf t el rl s = Inr (u, s')"
  shows "allocates ARENA_REQ s s'"
proof -
  obtain f fv s1 b s2 where run: "new_function L ''lambpie_handle'' (FunT i64 [p, i64, p, i64] False) s = Inr ((f, fv), s1)"
    "append_block f ''entry'' s1 = Inr (b, s2)"
    "handle_code L p i64 jf t el rl f (s2\<lparr>cs_builder := Some b, cs_locals := [], cs_arena := ARENA_REQ\<rparr>) = Inr (u, s')"
    using assms(2) by (auto simp: synthesize_handle_code position_at_end_def)
  let ?s3 = "s2\<lparr>cs_builder := Some b, cs_locals := [], cs_arena := ARENA_REQ\<rparr>"
  have s1: "plain_scopes s1" "allocates ARENA_REQ s s1"
    using new_function_InrD [OF run(1)] assms(1)
    by (auto simp: plain_scopes_def intro: allocates_same)
  have s2: "plain_scopes s2" "allocates ARENA_REQ s1 s2"
    using run(2) s1(1) allocates_block [OF run(2)] by (auto simp: append_block_def plain_scopes_def)
  have s3: "plain_scopes ?s3" "cs_arena ?s3 = ARENA_REQ" "allocates ARENA_REQ s2 ?s3"
    using s2(1) by (auto simp: plain_scopes_def intro: allocates_same)
  have reads: "in_arena ARENA_REQ unrestricted (iterS (read_field L i64 a jf (OVal (ArgV f 0 p)) ln es) xs)"
    for a ln es xs
    by (rule in_arena_iter) (rule in_arena_read_field, simp)
  have "in_arena ARENA_REQ unrestricted (handle_code L p i64 jf t el rl f)"
    unfolding handle_code_def Let_def
    apply (rule in_arena_bind [OF in_arena_object_size])
    apply (rule in_arena_bind [OF in_arena_global_get])
    apply (rule in_arena_bind [OF in_arena_object_at])
    apply (rule in_arena_bind [OF in_arena_store_field])
    apply (rule in_arena_bind [OF reads])
    apply (rule in_arena_bind [OF in_arena_global_get])
    apply (rule in_arena_bind [OF in_arena_emit], rule tag_ok_arg, simp)
    apply (rule in_arena_bind [OF in_arena_emit_obj], rule tag_ok_arg, simp)
    apply (rule in_arena_bind [OF in_arena_write_fields], simp, assumption)
    apply (rule in_arena_bind [OF in_arena_emit_obj], rule tag_ok_arg, simp)
    apply (rule in_arena_emit_unit, simp)
    done
  from in_arenaD [OF this s3(1,2) run(3)] have "allocates ARENA_REQ ?s3 s'" by simp
  with s1(2) s2(2) s3(3) show ?thesis by (blast intro: allocates_trans)
qed

section \<open>The discipline\<close>

lemma module_phase:
  assumes "list_all plain_top tree"
    and "bindS (compiler_init L triple) (\<lambda>_. visit_Module L tree) empty_cstate = Inr (u, s1)"
  shows "deferred_ok s1 \<and> plain_scopes s1 \<and> cs_arena s1 = ARENA_STATIC \<and> allocates ARENA_STATIC empty_cstate s1"
proof -
  have start: "plain_scopes empty_cstate" "cs_arena empty_cstate = ARENA_STATIC" "deferred_ok empty_cstate"
    by (simp_all add: plain_scopes_def empty_cstate_def initial_types_def deferred_ok_def)
  have "in_arena ARENA_STATIC unrestricted (bindS (compiler_init L triple) (\<lambda>_. visit_Module L tree))"
    by (rule in_arena_bind [OF in_arena_compiler_init in_arena_Module [OF assms(1)]])
  note arena = in_arenaD [OF this start(1,2) assms(2)]
  obtain u0 s0 where init: "compiler_init L triple empty_cstate = Inr (u0, s0)"
    and body: "visit_Module L tree s0 = Inr (u, s1)"
    using assms(2) by auto
  from defers.withinD [OF defers_compiler_init init] have "deferred_ok s0" using start(3) by (rule deferred_ok_cong)
  with assms(1) body have "deferred_ok s1"
  proof (induction tree arbitrary: s0)
    case (Cons st tree)
    then obtain u2 s2 where "visit_top L st s0 = Inr (u2, s2)" "visit_Module L tree s2 = Inr (u, s1)"
      by (auto simp: visit_Module_def)
    with Cons show ?case by (auto dest: deferred_ok_visit_top)
  qed (simp add: visit_Module_def)
  with arena show ?thesis by simp
qed

lemma entry_phases:
  assumes "synthesize_lambda_entry L s1 = Inr (u, s)"
  obtains ps body r s2 p i64 jf s3 t el rl where "cs_handle s1 = Some (ps, body, r)"
    and "visit_FunctionDef L None ''handle'' ps r (iterS (visit_stmt L) body) s1 = Inr ((), s2)"
    and "bindS (declare_json L p i64) (\<lambda>jf. bindS (synthesize_init L) (\<lambda>_. retS jf)) s2 = Inr (jf, s3)"
    and "synthesize_handle L p i64 jf t el rl s3 = Inr (u, s)"
proof -
  have pure: "\<And>n s t s'. types_get n s = Inr (t, s') \<Longrightarrow> s' = s" "\<And>n s t s'. layout_get n s = Inr (t, s') \<Longrightarrow> s' = s"
    "\<And>w n s t s'. require_class w n s = Inr (t, s') \<Longrightarrow> s' = s"
    by (auto simp: types_get_def layout_get_def require_class_def split: option.splits if_splits)
  show ?thesis
    using assms that
    by (fastforce simp: synthesize_lambda_entry_def bindS_Inr_iff split: option.splits dest: pure)
qed

text \<open>C13: the arenas of a compiled module. The code of the top-level functions and methods other than
  \<open>handle\<close> and of \<open>lambpie_init\<close> allocates from the static arena (tag 0) only, that
  of \<open>handle\<close> and of \<open>lambpie_handle\<close> from the request arena (tag 1) only: the
  compilation goes through states after the module, after \<open>handle\<close> and after
  \<open>lambpie_init\<close> between which every new allocation has that tag.\<close>

theorem arena_discipline:
  assumes "list_all plain_top (builtin @ source)"
    and "compile_program L triple builtin source = Inr s"
  shows "\<exists>s1 s2 s3 ps body r.
    bindS (compiler_init L triple) (\<lambda>_. visit_Module L (builtin @ source)) empty_cstate = Inr ((), s1) \<and>
    cs_handle s1 = Some (ps, body, r) \<and>
    visit_FunctionDef L None ''handle'' ps r (iterS (visit_stmt L) body) s1 = Inr ((), s2) \<and>
    (\<exists>p i64 jf. bindS (declare_json L p i64) (\<lambda>jf. bindS (synthesize_init L) (\<lambda>_. retS jf)) s2 = Inr (jf, s3)) \<and>
    allocates ARENA_STATIC empty_cstate s1 \<and> allocates ARENA_REQ s1 s2 \<and>
    allocates ARENA_STATIC s2 s3 \<and> allocates ARENA_REQ s3 s"
proof -
  let ?module = "bindS (compiler_init L triple) (\<lambda>_. visit_Module L (builtin @ source))"
  obtain s1 where m: "?module empty_cstate = Inr ((), s1)" and entry: "synthesize_lambda_entry L s1 = Inr ((), s)"
    using assms(2) by (auto simp: compile_program_def compile_def bindR_Inr_iff bindS_Inr_iff)
  note s1 = module_phase [OF assms(1) m]
  obtain ps body r s2 p i64 jf s3 t el rl where h: "cs_handle s1 = Some (ps, body, r)"
    and s2: "visit_FunctionDef L None ''handle'' ps r (iterS (visit_stmt L) body) s1 = Inr ((), s2)"
    and s3: "bindS (declare_json L p i64) (\<lambda>jf. bindS (synthesize_init L) (\<lambda>_. retS jf)) s2 = Inr (jf, s3)"
    and s4: "synthesize_handle L p i64 jf t el rl s3 = Inr ((), s)"
    by (rule entry_phases [OF entry])
  have flat: "list_all flat body" using s1 h by (simp add: deferred_ok_def)
  have s2': "plain_scopes s2 \<and> cs_arena s2 = ARENA_STATIC \<and> allocates ARENA_REQ s1 s2"
    using handle_in_request_arena [OF in_arena_body [OF flat] _ s2] s1 by simp
  have "deferred_ok s2"
    using deferred_ok_cong [OF defers.withinD [OF defers.within_FunctionDef [OF defers.within_block] s2]] s1
    by simp
  moreover obtain jf' s2b where j: "declare_json L p i64 s2 = Inr (jf', s2b)" and i: "synthesize_init L s2b = Inr ((), s3)"
    using s3 by auto
  moreover have "defers s2 s2b" by (rule defers.withinD [OF defers.within_declare_json j])
  ultimately have flat_init: "list_all flat (cs_init_stmts s2b)"
    by (intro sealing.good_deferrable) (auto simp: deferred_ok_def defers_def)
  have s2b: "plain_scopes s2b \<and> cs_arena s2b = ARENA_STATIC \<and> allocates ARENA_STATIC s2 s2b"
    using in_arenaD [OF in_arena_declare_json _ _ j] s2' by simp
  have s3': "plain_scopes s3 \<and> allocates ARENA_STATIC s2b s3"
    using synthesize_init_static [OF flat_init _ _ i] s2b by simp
  have "allocates ARENA_REQ s3 s" using synthesize_handle_request [OF _ s4] s3' by simp
  moreover have "allocates ARENA_STATIC s2 s3" using s2b s3' by (blast intro: allocates_trans)
  moreover have "allocates ARENA_STATIC empty_cstate s1" "allocates ARENA_REQ s1 s2"
    using s1 s2' by simp_all
  ultimately show ?thesis
    by (intro exI conjI) (rule m h s2 s3 | assumption)+
qed

lemma arena_discipline_witness:
  "\<exists>s s1 s2 s3. compile_program std_llapi None [] digit_pie = Inr s \<and>
    allocates ARENA_STATIC empty_cstate s1 \<and> allocates ARENA_REQ s1 s2 \<and>
    allocates ARENA_STATIC s2 s3 \<and> allocates ARENA_REQ s3 s"
proof -
  obtain s where s: "compile_program std_llapi None [] digit_pie = Inr s" by (rule digit_result)
  have "list_all plain_top ([] @ digit_pie)" by code_simp
  from arena_discipline [OF this s] s show ?thesis by blast
qed

end
