(* ===== verification/CompilerSource.thy ===== *)
theory CompilerSource
  imports CompilerModuleFlow
begin

text \<open>
  What the compiler makes of particular source constructs: programs without a handler, and string
  literals.
\<close>

section \<open>Programs without a handler\<close>

definition top_handle :: "stmt \<Rightarrow> bool" where
  "top_handle st = (case st of FunctionDef n ps body r \<Rightarrow> n = ''handle'' | _ \<Rightarrow> False)"

lemma visit_top_no_handle:
  assumes "\<not> top_handle st" and "visit_top L st s = Inr (u, s')" and "cs_handle s = None"
  shows "cs_handle s' = None"
proof (cases "visit_top L st = visit_stmt L st")
  case True
  then have "defers s s'" using assms(2) by (metis defers.withinD [OF defers.within_visit_stmt])
  then show ?thesis using assms(3) by (simp add: defers_def)
next
  case False
  then show ?thesis using assms
    by (auto simp: visit_top_def top_handle_def simp del: visit_stmt.simps split: if_splits stmt.splits)
qed

lemma visit_Module_no_handle:
  "list_all (\<lambda>st. \<not> top_handle st) tree \<Longrightarrow> visit_Module L tree s = Inr (u, s') \<Longrightarrow>
     cs_handle s = None \<Longrightarrow> cs_handle s' = None"
proof (induction tree arbitrary: s)
  case (Cons st tree)
  then show ?case
    unfolding visit_Module_def by (auto dest: visit_top_no_handle)
qed (simp add: visit_Module_def)

lemma compiler_init_handle:
  assumes "compiler_init L triple s = Inr (u, s')"
  shows "cs_handle s' = cs_handle s"
  using defers.withinD [OF defers_compiler_init assms] by (simp add: defers_def)

text \<open>C28: a program without a top-level function \<open>handle\<close> is never compiled, whatever
  functions and methods it has; the class-based handler of the README is such a program.\<close>

theorem no_handle_rejected:
  assumes "list_all (\<lambda>st. \<not> top_handle st) (builtin @ source)"
  shows "\<not> succeeds (compile_program L triple builtin source)"
proof
  assume "succeeds (compile_program L triple builtin source)"
  then obtain s u0 s0 u1 s1 where init: "compiler_init L triple empty_cstate = Inr (u0, s0)"
    and body: "visit_Module L (builtin @ source) s0 = Inr (u1, s1)"
    and entry: "synthesize_lambda_entry L s1 = Inr ((), s)"
    by (auto simp: succeeds_iff compile_program_def compile_def bindR_Inr_iff)
  have "cs_handle s0 = None" using compiler_init_handle [OF init] by (simp add: empty_cstate_def)
  then have "cs_handle s1 = None" by (rule visit_Module_no_handle [OF assms body])
  then show False using entry by (simp add: synthesize_lambda_entry_def raiseS_def)
qed

lemma no_handle_rejected_witness:
  "\<not> succeeds (compile_program std_llapi None builtins_pie readme_pie)"
proof (rule no_handle_rejected)
  show "list_all (\<lambda>st. \<not> top_handle st) (builtins_pie @ readme_pie)"
    by (simp add: builtins_pie_def readme_pie_def top_handle_def)
qed

section \<open>Literals\<close>

lemma utf8_char_length:
  "utf8_char c = Inr bs \<Longrightarrow> 1 \<le> length bs \<and> (length bs = 1 \<longleftrightarrow> c < 128)"
  by (auto simp: utf8_char_def split: if_splits)

lemma utf8_length:
  assumes "utf8 cs = Inr bs"
  shows "length cs \<le> length bs \<and> (length bs = length cs \<longleftrightarrow> (\<forall>c \<in> set cs. c < 128))"
proof -
  obtain bss where bss: "mapR utf8_char cs = Inr bss" "bs = concat bss"
    using assms by (auto simp: utf8_def bindR_Inr_iff)
  from bss(1) have "list_all2 (\<lambda>c b. utf8_char c = Inr b) cs bss" by (simp add: mapR_Inr_iff)
  then have "length cs \<le> length (concat bss) \<and>
      (length (concat bss) = length cs \<longleftrightarrow> (\<forall>c \<in> set cs. c < 128))"
    by (induction rule: list_all2_induct) (auto dest: utf8_char_length)
  then show ?thesis by (simp add: bss(2))
qed

text \<open>C24: the private global of a string literal holds the UTF-8 encoding of the text and a final
  NUL, but its declared length counts code points: the declared length is the length of the
  initializer exactly when the literal is ASCII.\<close>

theorem string_literal_length:
  assumes "visit_Constant L (CStr cps) s = Inr (r, s')"
  shows "\<exists>d. cs_data s' = cs_data s @ [d] \<and> utf8 (cps @ [0]) = Inr (d_init d) \<and>
    d_type d = ArrT (IntT 8) (int (length cps) + 1) \<and>
    (d_type d = ArrT (IntT 8) (int (length (d_init d))) \<longleftrightarrow> (\<forall>c \<in> set cps. c < 128))"
proof -
  obtain bs n s1 v where u: "utf8 (cps @ [0]) = Inr bs" and n: "next_name ''.str.'' s = Inr (n, s1)"
    and d: "new_data L n (ArrT (IntT 8) (int (length cps + 1))) bs False s1 = Inr (v, s')"
    using assms by (auto simp: visit_Constant_def)
  let ?d = "\<lparr>d_name = n, d_type = ArrT (IntT 8) (int (length cps + 1)), d_init = bs, d_const = False\<rparr>"
  have "cs_data s' = cs_data s @ [?d]"
    using next_name_InrD [OF n] new_data_InrD [OF d] by auto
  moreover have "length bs = length cps + 1 \<longleftrightarrow> (\<forall>c \<in> set cps. c < 128)"
    using utf8_length [OF u] by auto
  ultimately show ?thesis using u by (intro exI [of _ ?d]) auto
qed

text \<open>A word of three ASCII letters and \<open>U+00E9\<close>.\<close>

definition cafe_cps :: "nat list" where
  "cafe_cps = [99, 97, 102, 233]"

lemma cafe_visited: "succeeds (visit_Constant std_llapi (CStr cafe_cps) empty_cstate)"
  by code_simp

lemma string_literal_length_witness:
  "\<exists>r s' d. visit_Constant std_llapi (CStr cafe_cps) empty_cstate = Inr (r, s') \<and>
     cs_data s' = [d] \<and> d_type d = ArrT (IntT 8) 5 \<and> length (d_init d) = 6"
proof -
  obtain r s' where run: "visit_Constant std_llapi (CStr cafe_cps) empty_cstate = Inr (r, s')"
    using cafe_visited by (auto simp: succeeds_iff)
  have bytes: "utf8 (cafe_cps @ [0]) = Inr [99, 97, 102, 195, 169, 0]" by code_simp
  obtain d where d: "cs_data s' = cs_data empty_cstate @ [d]" "utf8 (cafe_cps @ [0]) = Inr (d_init d)"
    "d_type d = ArrT (IntT 8) (int (length cafe_cps) + 1)"
    using string_literal_length [OF run] by blast
  have "length (d_init d) = 6" using d(2) unfolding bytes by (auto dest!: sym [of _ "d_init d"])
  with run d show ?thesis
    by (intro exI [of _ r] exI [of _ s'] exI [of _ d]) (simp add: cafe_cps_def empty_cstate_def)
qed

text \<open>A bytes literal is stored without a final NUL, and yet where a \<open>str\<close> is expected
  its pointer is wrapped like that of a string literal, through \<open>strlen\<close>.\<close>

theorem bytes_literal_as_cstr:
  assumes "visit_Constant L (CBytes bs) s = Inr (r, s')"
    and "global_gep L (ArrT (IntT 8) (int (length bs))) = Some i8_ptr"
  shows "\<exists>d. cs_data s' = cs_data s @ [d] \<and> d_init d = bs \<and> d_type d = ArrT (IntT 8) (int (length bs)) \<and>
    coerce_arg L r (PtrT (StructT ''str'')) = wrap_cstr_to_str L r"
proof -
  obtain n s1 v where n: "next_name ''.bytes.'' s = Inr (n, s1)"
    and d: "new_data L n (ArrT (IntT 8) (int (length bs))) bs True s1 = Inr (v, s')" and r: "r = OVal v"
    using assms(1) by (auto simp: visit_Constant_def)
  from next_name_InrD [OF n] new_data_InrD [OF d] assms(2) show ?thesis
    by (auto simp: r coerce_arg_def is_str_type_def obj_type_def liftS_def bindS_def fun_eq_iff)
qed

lemma bytes_visited: "succeeds (visit_Constant std_llapi (CBytes [111, 107]) empty_cstate)"
  by code_simp

lemma bytes_literal_as_cstr_witness:
  "\<exists>r s'. visit_Constant std_llapi (CBytes [111, 107]) empty_cstate = Inr (r, s') \<and>
     map d_init (cs_data s') = [[111, 107]] \<and>
     coerce_arg std_llapi r (PtrT (StructT ''str'')) = wrap_cstr_to_str std_llapi r"
proof -
  obtain r s' where run: "visit_Constant std_llapi (CBytes [111, 107]) empty_cstate = Inr (r, s')"
    using bytes_visited by (auto simp: succeeds_iff)
  have "global_gep std_llapi (ArrT (IntT 8) (int (length [111, 107 :: nat]))) = Some i8_ptr" by code_simp
  from bytes_literal_as_cstr [OF run this] run show ?thesis by (auto simp: empty_cstate_def)
qed

end
