(* ===== verification/PieSem.thy ===== *)
theory PieSem
  imports PieAst "HOL-Library.Word" "HOL-Library.Signed_Division"
begin

text \<open>
  What integer programs mean. \<open>word_eval\<close>, \<open>word_test\<close> and \<open>exec_body\<close> give the
  meaning of the language itself: expressions, conditions and statements over 64-bit integers, the
  specification the compiler is proved against. \<open>py_eval\<close> and \<open>py_test\<close> are Python's
  unbounded integers, which the language promises to agree with; the agreement holds under the
  range conditions stated here, and fails outside them.
\<close>

unbundle bit_operations_syntax

section \<open>Expressions over 64-bit integers\<close>

text \<open>The value of each variable; \<open>None\<close> for a variable that is not declared or not yet
  assigned.\<close>

type_synonym store = "string \<Rightarrow> 64 word option"

definition word_binop :: "operator \<Rightarrow> 64 word \<Rightarrow> 64 word \<Rightarrow> 64 word option" where
  "word_binop op a b =
     (case op of
        Add \<Rightarrow> Some (a + b)
      | Sub \<Rightarrow> Some (a - b)
      | Mult \<Rightarrow> Some (a * b)
      | BitAnd \<Rightarrow> Some (a AND b)
      | BitOr \<Rightarrow> Some (a OR b)
      | BitXor \<Rightarrow> Some (a XOR b)
      | LShift \<Rightarrow> if unat b < 64 then Some (push_bit (unat b) a) else None
      | RShift \<Rightarrow> if unat b < 64 then Some (drop_bit (unat b) a) else None
      | Mod \<Rightarrow> if b = 0 \<or> (sint a = - (2 ^ 63) \<and> sint b = -1) then None
               else Some (word_of_int (sint a smod sint b))
      | _ \<Rightarrow> None)"

definition word_cmpop :: "cmpop \<Rightarrow> 64 word \<Rightarrow> 64 word \<Rightarrow> bool option" where
  "word_cmpop op a b =
     (case op of
        Eq \<Rightarrow> Some (a = b)
      | NotEq \<Rightarrow> Some (a \<noteq> b)
      | Lt \<Rightarrow> Some (sint a < sint b)
      | LtE \<Rightarrow> Some (sint a \<le> sint b)
      | Gt \<Rightarrow> Some (sint b < sint a)
      | GtE \<Rightarrow> Some (sint b \<le> sint a)
      | _ \<Rightarrow> None)"

definition int64 :: "int \<Rightarrow> bool" where
  "int64 n \<longleftrightarrow> - (2 ^ 63) \<le> n \<and> n < 2 ^ 63"

lemma sint_word_of_int: "int64 n \<Longrightarrow> sint (word_of_int n :: 64 word) = n"
  unfolding int64_def by (simp add: sint_sbintrunc' signed_take_bit_int_eq_self)

fun word_eval :: "store \<Rightarrow> expr \<Rightarrow> 64 word option" where
  "word_eval \<rho> (Name x) = \<rho> x"
| "word_eval \<rho> (Constant c) =
     (case c of CInt n \<Rightarrow> if int64 n then Some (word_of_int n) else None | _ \<Rightarrow> None)"
| "word_eval \<rho> (BinOp l op r) =
     Option.bind (word_eval \<rho> l) (\<lambda>a. Option.bind (word_eval \<rho> r) (\<lambda>b. word_binop op a b))"
| "word_eval \<rho> (UnaryOp op e) =
     Option.bind (word_eval \<rho> e) (\<lambda>a.
       case op of Invert \<Rightarrow> Some (NOT a) | USub \<Rightarrow> Some (- a) | UAdd \<Rightarrow> Some a | UNot \<Rightarrow> None)"
| "word_eval \<rho> e = None"

definition word_test :: "store \<Rightarrow> expr \<Rightarrow> bool option" where
  "word_test \<rho> e =
     (case e of
        Compare l [op] [r] \<Rightarrow>
          Option.bind (word_eval \<rho> l) (\<lambda>a. Option.bind (word_eval \<rho> r) (\<lambda>b. word_cmpop op a b))
      | _ \<Rightarrow> None)"

section \<open>Statements\<close>

text \<open>The meaning of statements over values of any kind, from the meanings \<open>ev\<close> of expressions
  and \<open>tst\<close> of conditions. \<open>None\<close> is an undefined meaning (an unassigned variable, a shift by 64
  or more, a statement outside the fragment) or no fuel left. A declaration makes its variable a
  new one, which is not assigned while its initializer is evaluated; Python keeps the old value
  there, so a run that has a meaning here has the same in Python, but not conversely.\<close>

type_synonym 'v env = "string \<Rightarrow> 'v option"

datatype 'v outcome =
    Normal "'v env"
  | Returned 'v

function (sequential) run_stmt ::
    "('v env \<Rightarrow> expr \<Rightarrow> 'v option) \<Rightarrow> ('v env \<Rightarrow> expr \<Rightarrow> bool option) \<Rightarrow> nat \<Rightarrow> 'v env \<Rightarrow> stmt \<Rightarrow> 'v outcome option"
  and run_body ::
    "('v env \<Rightarrow> expr \<Rightarrow> 'v option) \<Rightarrow> ('v env \<Rightarrow> expr \<Rightarrow> bool option) \<Rightarrow> nat \<Rightarrow> 'v env \<Rightarrow> stmt list \<Rightarrow> 'v outcome option"
  where
  "run_stmt ev tst 0 \<rho> st = None"
| "run_stmt ev tst (Suc n) \<rho> (AnnAssign (Name x) (Name t) v) =
     (if t \<noteq> ''int'' then None
      else case v of
             None \<Rightarrow> Some (Normal (\<rho>(x := None)))
           | Some e \<Rightarrow> map_option (\<lambda>w. Normal (\<rho>(x := Some w))) (ev (\<rho>(x := None)) e))"
| "run_stmt ev tst (Suc n) \<rho> (Assign [Name x] e) =
     map_option (\<lambda>w. Normal (\<rho>(x := Some w))) (ev \<rho> e)"
| "run_stmt ev tst (Suc n) \<rho> (Return (Some e)) = map_option Returned (ev \<rho> e)"
| "run_stmt ev tst (Suc n) \<rho> (If test body orelse) =
     Option.bind (tst \<rho> test) (\<lambda>b. run_body ev tst n \<rho> (if b then body else orelse))"
| "run_stmt ev tst (Suc n) \<rho> (While test body []) =
     Option.bind (tst \<rho> test) (\<lambda>b.
       if b then
         (case run_body ev tst n \<rho> body of
            Some (Normal \<rho>') \<Rightarrow> run_stmt ev tst n \<rho>' (While test body [])
          | out \<Rightarrow> out)
       else Some (Normal \<rho>))"
| "run_stmt ev tst (Suc n) \<rho> Pass = Some (Normal \<rho>)"
| "run_stmt ev tst (Suc n) \<rho> st = None"
| "run_body ev tst n \<rho> [] = Some (Normal \<rho>)"
| "run_body ev tst n \<rho> (st # sts) =
     (case run_stmt ev tst n \<rho> st of
        Some (Normal \<rho>') \<Rightarrow> run_body ev tst n \<rho>' sts
      | out \<Rightarrow> out)"
  by pat_completeness auto

termination run_stmt
  by (relation "measures [\<lambda>x. case x of Inl (ev, tst, n, \<rho>, st) \<Rightarrow> n | Inr (ev, tst, n, \<rho>, sts) \<Rightarrow> n,
      \<lambda>x. case x of Inl (ev, tst, n, \<rho>, st) \<Rightarrow> 0 | Inr (ev, tst, n, \<rho>, sts) \<Rightarrow> Suc (length sts)]") auto

text \<open>The language: 64-bit integers.\<close>

abbreviation exec_stmt :: "nat \<Rightarrow> store \<Rightarrow> stmt \<Rightarrow> 64 word outcome option" where
  "exec_stmt \<equiv> run_stmt word_eval word_test"

abbreviation exec_body :: "nat \<Rightarrow> store \<Rightarrow> stmt list \<Rightarrow> 64 word outcome option" where
  "exec_body \<equiv> run_body word_eval word_test"

text \<open>Values mapped from one kind to another: if \<open>ev'\<close> and \<open>tst'\<close> give the image of what
  \<open>ev\<close> and \<open>tst\<close> give, so do whole programs.\<close>

definition map_env :: "('v \<Rightarrow> 'w) \<Rightarrow> 'v env \<Rightarrow> 'w env" where
  "map_env f \<rho> = map_option f \<circ> \<rho>"

lemma map_env_upd [simp]: "map_env f (\<rho>(x := v)) = (map_env f \<rho>)(x := map_option f v)"
  by (auto simp: map_env_def)

fun map_out :: "('v \<Rightarrow> 'w) \<Rightarrow> 'v outcome \<Rightarrow> 'w outcome" where
  "map_out f (Normal \<rho>) = Normal (map_env f \<rho>)"
| "map_out f (Returned v) = Returned (f v)"

lemma run_map:
  assumes ev: "\<And>\<rho> e v. ev \<rho> e = Some v \<Longrightarrow> ev' (map_env f \<rho>) e = Some (f v)"
    and tst: "\<And>\<rho> e b. tst \<rho> e = Some b \<Longrightarrow> tst' (map_env f \<rho>) e = Some b"
  shows "run_stmt ev tst n \<rho> st = Some out \<Longrightarrow> run_stmt ev' tst' n (map_env f \<rho>) st = Some (map_out f out)"
    and "run_body ev tst n \<rho> sts = Some out \<Longrightarrow> run_body ev' tst' n (map_env f \<rho>) sts = Some (map_out f out)"
proof -
  have "(ev0, tst0) = (ev, tst) \<Longrightarrow> run_stmt ev0 tst0 n \<rho> st = Some out \<Longrightarrow>
      run_stmt ev' tst' n (map_env f \<rho>) st = Some (map_out f out)"
    and "(ev0, tst0) = (ev, tst) \<Longrightarrow> run_body ev0 tst0 n \<rho> sts = Some out \<Longrightarrow>
      run_body ev' tst' n (map_env f \<rho>) sts = Some (map_out f out)" for ev0 tst0
  proof (induction ev0 tst0 n \<rho> st and ev0 tst0 n \<rho> sts arbitrary: out and out rule: run_stmt_run_body.induct)
    case (2 ev0 tst0 n \<rho> x t v)
    then show ?case using ev [of "\<rho>(x := None)"] by (auto split: if_splits option.splits)
  next
    case (3 ev0 tst0 n \<rho> x e)
    then show ?case using ev by auto
  next
    case (4 ev0 tst0 n \<rho> e)
    then show ?case using ev by auto
  next
    case (5 ev0 tst0 n \<rho> test body orelse)
    then obtain b where b: "tst \<rho> test = Some b" "run_body ev tst n \<rho> (if b then body else orelse) = Some out"
      by (auto simp: Option.bind_eq_Some_conv)
    then show ?case using 5(1) [of b out] 5(2) tst [OF b(1)] by simp
  next
    case (6 ev0 tst0 n \<rho> test body)
    obtain b where b: "tst \<rho> test = Some b" using 6(3,4) by (auto simp: Option.bind_eq_Some_conv)
    show ?case
    proof (cases b)
      case True
      obtain out1 where out1: "run_body ev tst n \<rho> body = Some out1" using 6(3,4) b True by (auto split: option.splits)
      have 1: "run_body ev' tst' n (map_env f \<rho>) body = Some (map_out f out1)"
        using 6(1) [of b out1] 6(3) b True out1 by simp
      show ?thesis
      proof (cases out1)
        case (Normal \<rho>1)
        have "run_stmt ev tst n \<rho>1 (While test body []) = Some out"
          using 6(3,4) b True out1 by (simp add: Normal)
        then have "run_stmt ev' tst' n (map_env f \<rho>1) (While test body []) = Some (map_out f out)"
          using 6(2) [of b out1 \<rho>1 out] 6(3) b True out1 Normal by simp
        then show ?thesis using 1 tst [OF b] True by (simp add: Normal)
      next
        case (Returned w)
        then show ?thesis using 6(3,4) 1 tst [OF b] b True out1 by auto
      qed
    next
      case False
      then show ?thesis using 6(3,4) b tst [OF b] by auto
    qed
  next
    case (7 ev0 tst0 n \<rho>)
    then show ?case by auto
  qed (auto split: option.splits outcome.splits)
  then show "run_stmt ev tst n \<rho> st = Some out \<Longrightarrow> run_stmt ev' tst' n (map_env f \<rho>) st = Some (map_out f out)"
    and "run_body ev tst n \<rho> sts = Some out \<Longrightarrow> run_body ev' tst' n (map_env f \<rho>) sts = Some (map_out f out)"
    by blast+
qed

text \<open>A returned value is the value of an expression.\<close>

lemma run_returned:
  shows "run_stmt ev tst n \<rho> st = Some out \<Longrightarrow> out = Returned v \<Longrightarrow> \<exists>\<rho> e. ev \<rho> e = Some v"
    and "run_body ev tst n \<rho> sts = Some out \<Longrightarrow> out = Returned v \<Longrightarrow> \<exists>\<rho> e. ev \<rho> e = Some v"
proof (induction ev tst n \<rho> st and ev tst n \<rho> sts arbitrary: out and out rule: run_stmt_run_body.induct)
  case (6 ev tst n \<rho> test body)
  then show ?case
    by (auto simp: Option.bind_eq_Some_conv split: if_splits option.splits outcome.splits)
qed (auto simp: Option.bind_eq_Some_conv split: if_splits option.splits outcome.splits)

end
