(* ===== verification/ScriptIO.thy ===== *)
theory ScriptIO
  imports Json Complex_Main
begin

text \<open>
  What the scripts share: computations that talk to the outside world. A run ends by returning,
  by raising, or has used up the fuel its loops were given; in each case it leaves the world and
  the trace of what it asked of the world, each call with the reply it got. The outside (files,
  subprocesses, the clock, the AWS services behind boto3) is the parameter \<open>machine\<close>: one
  function of the world's state per kind of call. The serializers \<open>json\<close>,
  \<open>zipfile\<close> of the standard library are functions of the same record. The messages the
  scripts print on the way are left out of the trace; the results a command is asked to print
  are in it. The path functions of \<open>os.path\<close> are written out.
\<close>

section \<open>Text\<close>

text \<open>\<open>bytes.decode()\<close>. A \<open>string\<close> is UTF-8 already, so decoding is the check
  that the bytes are well formed: \<open>utf8_follow b\<close> gives the ranges of the bytes that must
  follow the lead byte \<open>b\<close>.\<close>

definition utf8_follow :: "nat \<Rightarrow> (nat \<times> nat) list option" where
  "utf8_follow b =
     (let tail = (128, 191) in
      if 194 \<le> b \<and> b \<le> 223 then Some [tail]
      else if b = 224 then Some [(160, 191), tail]
      else if b = 237 then Some [(128, 159), tail]
      else if 225 \<le> b \<and> b \<le> 239 then Some [tail, tail]
      else if b = 240 then Some [(144, 191), tail, tail]
      else if 241 \<le> b \<and> b \<le> 243 then Some [tail, tail, tail]
      else if b = 244 then Some [(128, 143), tail, tail]
      else None)"

fun utf8_valid :: "(nat \<times> nat) list \<Rightarrow> string \<Rightarrow> bool" where
  "utf8_valid ps [] = (ps = [])"
| "utf8_valid ((lo, hi) # ps) (c # cs) = (lo \<le> of_char c \<and> of_char c \<le> hi \<and> utf8_valid ps cs)"
| "utf8_valid [] (c # cs) =
     (if (of_char c :: nat) < 128 then utf8_valid [] cs
      else (case utf8_follow (of_char c) of None \<Rightarrow> False | Some ps \<Rightarrow> utf8_valid ps cs))"

definition decode_utf8 :: "string \<Rightarrow> string res" where
  "decode_utf8 d = (if utf8_valid [] d then Inr d else Inl (ValueError ''UnicodeDecodeError''))"

lemma decode_utf8_Inr [simp]: "decode_utf8 d = Inr t \<longleftrightarrow> utf8_valid [] d \<and> t = d"
  by (auto simp: decode_utf8_def)

text \<open>\<open>==\<close> on JSON documents: dictionaries are equal when they have the same keys with equal
  values, in any order, and a boolean equals its number.\<close>

function (sequential) py_eq :: "json \<Rightarrow> json \<Rightarrow> bool" where
  "py_eq (JList xs) (JList ys) = (length xs = length ys \<and> list_all (\<lambda>(x, y). py_eq x y) (zip xs ys))"
| "py_eq (JObj d) (JObj e) =
     (length d = length e \<and>
      list_all (\<lambda>(k, v). case dict_get e k of None \<Rightarrow> False | Some w \<Rightarrow> py_eq v w) d)"
| "py_eq (JBool a) (JInt i) = (of_bool a = i)"
| "py_eq (JInt i) (JBool a) = (of_bool a = i)"
| "py_eq v w = (v = w)"
  by pat_completeness auto

lemma zip_member_size: "(x, y) \<in> set (zip xs ys) \<Longrightarrow> size x < Suc (size_list size xs)"
  by (meson le_imp_less_Suc order_refl set_zip_leftD size_list_estimation')

lemma value_size: "(k, v) \<in> set d \<Longrightarrow> size v < Suc (size_list (size_prod (\<lambda>x. 0) size) d)"
  using size_list_estimation' [of "(k, v)" d "size v" "size_prod (\<lambda>x. 0) size"] by simp

termination py_eq
  by (relation "measure (\<lambda>(v, w). size v)") (auto dest: zip_member_size value_size)

section \<open>The outside world\<close>

text \<open>A boto3 client is its service name with the keyword arguments it was made with.\<close>

type_synonym client = "string \<times> (string, string) dict"

record create_function_request =
  FunctionName :: string
  Runtime :: string
  Role :: json
  Handler :: string
  ZipFile :: string
  MemorySize :: int
  Timeout :: int
  Architectures :: "string list"

datatype aws_request =
    GetFunction string
  | CreateFunction create_function_request
  | UpdateFunctionCode string string "string list"
  | DeleteFunction string
  | Invoke string string "string option"
  | GetRole string
  | CreateRole string string string
  | AttachRolePolicy string string

datatype call =
    Monotonic
  | Sleep rat
  | PathExists string
  | ReadFile string
  | WriteFile string string
  | RemoveFile string
  | MakeDirs string
  | CopyFile string string
  | GetSize string
  | RunCommand "string list" "(string, string) dict"
  | UrlOpen string
  | NewClient client
  | Aws client aws_request
  | Print string

datatype reply =
    RNone
  | RBool bool
  | RInt int
  | RTime rat
  | RData string
  | RJson json
  | RInvoke json string
  | RFail pyexc

type_synonym event = "call \<times> reply"

text \<open>\<open>m_aws\<close> answers a request with the dict boto3 returns; an invocation has in addition
  the bytes of the stream under \<open>Payload\<close>. \<open>m_run\<close> is a subprocess with additions
  to the environment and gives the exit code.\<close>

record 'w machine =
  m_monotonic :: "'w \<Rightarrow> rat \<times> 'w"
  m_sleep :: "rat \<Rightarrow> 'w \<Rightarrow> 'w"
  m_exists :: "string \<Rightarrow> 'w \<Rightarrow> bool \<times> 'w"
  m_read :: "string \<Rightarrow> 'w \<Rightarrow> string res \<times> 'w"
  m_write :: "string \<Rightarrow> string \<Rightarrow> 'w \<Rightarrow> unit res \<times> 'w"
  m_remove :: "string \<Rightarrow> 'w \<Rightarrow> unit res \<times> 'w"
  m_makedirs :: "string \<Rightarrow> 'w \<Rightarrow> unit res \<times> 'w"
  m_copy :: "string \<Rightarrow> string \<Rightarrow> 'w \<Rightarrow> unit res \<times> 'w"
  m_getsize :: "string \<Rightarrow> 'w \<Rightarrow> int res \<times> 'w"
  m_run :: "string list \<Rightarrow> (string, string) dict \<Rightarrow> 'w \<Rightarrow> int res \<times> 'w"
  m_urlopen :: "string \<Rightarrow> 'w \<Rightarrow> string res \<times> 'w"
  m_client :: "client \<Rightarrow> 'w \<Rightarrow> unit res \<times> 'w"
  m_aws :: "client \<Rightarrow> aws_request \<Rightarrow> 'w \<Rightarrow> json res \<times> 'w"
  m_invoke :: "client \<Rightarrow> string \<Rightarrow> string \<Rightarrow> string option \<Rightarrow> 'w \<Rightarrow> (json \<times> string) res \<times> 'w"
  m_loads :: "string \<Rightarrow> json res"
  m_dumps :: "json \<Rightarrow> string"
  m_dumps_indented :: "json \<Rightarrow> string"
  m_services :: "string list"
  m_load_service :: "string \<Rightarrow> json res"
  m_str_exc :: "pyexc \<Rightarrow> string"
  m_zip :: "(string \<times> nat \<times> string) list \<Rightarrow> string"
  m_python :: string
  m_repo_root :: string
  m_cwd :: string

record 'w sys =
  world :: 'w
  trace :: "event list"

datatype 'a run =
    Done 'a
  | Raised pyexc
  | OutOfFuel

type_synonym ('w, 'a) io = "'w sys \<Rightarrow> 'a run \<times> 'w sys"

section \<open>Sequencing\<close>

definition retIO :: "'a \<Rightarrow> ('w, 'a) io" where
  "retIO a s = (Done a, s)"

definition raiseIO :: "pyexc \<Rightarrow> ('w, 'a) io" where
  "raiseIO e s = (Raised e, s)"

definition stopIO :: "('w, 'a) io" where
  "stopIO s = (OutOfFuel, s)"

definition bindIO :: "('w, 'a) io \<Rightarrow> ('a \<Rightarrow> ('w, 'b) io) \<Rightarrow> ('w, 'b) io" where
  "bindIO m f s =
     (case m s of
        (Done a, s') \<Rightarrow> f a s'
      | (Raised e, s') \<Rightarrow> (Raised e, s')
      | (OutOfFuel, s') \<Rightarrow> (OutOfFuel, s'))"

text \<open>\<open>try: m except ...: h\<close>, where \<open>h\<close> raises again what it does not catch.\<close>

definition tryIO :: "('w, 'a) io \<Rightarrow> (pyexc \<Rightarrow> ('w, 'a) io) \<Rightarrow> ('w, 'a) io" where
  "tryIO m h s = (case m s of (Raised e, s') \<Rightarrow> h e s' | r \<Rightarrow> r)"

text \<open>\<open>try: m finally: f\<close>.\<close>

definition finallyIO :: "('w, 'a) io \<Rightarrow> ('w, unit) io \<Rightarrow> ('w, 'a) io" where
  "finallyIO m f s =
     (case m s of
        (Done a, s') \<Rightarrow> bindIO f (\<lambda>_. retIO a) s'
      | (Raised e, s') \<Rightarrow> bindIO f (\<lambda>_. raiseIO e) s'
      | (OutOfFuel, s') \<Rightarrow> (OutOfFuel, s'))"

definition liftIO :: "'a res \<Rightarrow> ('w, 'a) io" where
  "liftIO r = (case r of Inl e \<Rightarrow> raiseIO e | Inr a \<Rightarrow> retIO a)"

definition whenIO :: "bool \<Rightarrow> ('w, unit) io \<Rightarrow> ('w, unit) io" where
  "whenIO b m = (if b then m else retIO ())"

text \<open>One call of the outside.\<close>

definition act :: "call \<Rightarrow> ('a \<Rightarrow> reply) \<Rightarrow> ('w \<Rightarrow> 'a res \<times> 'w) \<Rightarrow> ('w, 'a) io" where
  "act c answer f s =
     (case f (world s) of
        (Inl e, w) \<Rightarrow> (Raised e, \<lparr>world = w, trace = trace s @ [(c, RFail e)]\<rparr>)
      | (Inr a, w) \<Rightarrow> (Done a, \<lparr>world = w, trace = trace s @ [(c, answer a)]\<rparr>))"

section \<open>The calls\<close>

definition monotonic :: "'w machine \<Rightarrow> ('w, rat) io" where
  "monotonic m = act Monotonic RTime (\<lambda>w. (Inr (fst (m_monotonic m w)), snd (m_monotonic m w)))"

definition sleep :: "'w machine \<Rightarrow> rat \<Rightarrow> ('w, unit) io" where
  "sleep m k = act (Sleep k) (\<lambda>_. RNone) (\<lambda>w. (Inr (), m_sleep m k w))"

definition path_exists :: "'w machine \<Rightarrow> string \<Rightarrow> ('w, bool) io" where
  "path_exists m p = act (PathExists p) RBool (\<lambda>w. (Inr (fst (m_exists m p w)), snd (m_exists m p w)))"

definition read_file :: "'w machine \<Rightarrow> string \<Rightarrow> ('w, string) io" where
  "read_file m p = act (ReadFile p) RData (m_read m p)"

definition write_file :: "'w machine \<Rightarrow> string \<Rightarrow> string \<Rightarrow> ('w, unit) io" where
  "write_file m p d = act (WriteFile p d) (\<lambda>_. RNone) (m_write m p d)"

definition remove_file :: "'w machine \<Rightarrow> string \<Rightarrow> ('w, unit) io" where
  "remove_file m p = act (RemoveFile p) (\<lambda>_. RNone) (m_remove m p)"

definition makedirs :: "'w machine \<Rightarrow> string \<Rightarrow> ('w, unit) io" where
  "makedirs m p = act (MakeDirs p) (\<lambda>_. RNone) (m_makedirs m p)"

definition copy_file :: "'w machine \<Rightarrow> string \<Rightarrow> string \<Rightarrow> ('w, unit) io" where
  "copy_file m p q = act (CopyFile p q) (\<lambda>_. RNone) (m_copy m p q)"

definition getsize :: "'w machine \<Rightarrow> string \<Rightarrow> ('w, int) io" where
  "getsize m p = act (GetSize p) RInt (m_getsize m p)"

definition run_command :: "'w machine \<Rightarrow> string list \<Rightarrow> (string, string) dict \<Rightarrow> ('w, int) io" where
  "run_command m cmd env = act (RunCommand cmd env) RInt (m_run m cmd env)"

definition urlopen :: "'w machine \<Rightarrow> string \<Rightarrow> ('w, string) io" where
  "urlopen m url = act (UrlOpen url) RData (m_urlopen m url)"

definition new_client :: "'w machine \<Rightarrow> client \<Rightarrow> ('w, client) io" where
  "new_client m c = bindIO (act (NewClient c) (\<lambda>_. RNone) (m_client m c)) (\<lambda>_. retIO c)"

definition aws :: "'w machine \<Rightarrow> client \<Rightarrow> aws_request \<Rightarrow> ('w, json) io" where
  "aws m c r = act (Aws c r) RJson (m_aws m c r)"

definition aws_invoke :: "'w machine \<Rightarrow> client \<Rightarrow> string \<Rightarrow> string \<Rightarrow> string option \<Rightarrow> ('w, json \<times> string) io" where
  "aws_invoke m c f p q =
     act (Aws c (Invoke f p q)) (\<lambda>(j, d). RInvoke j d) (m_invoke m c f p q)"

definition print_line :: "string \<Rightarrow> ('w, unit) io" where
  "print_line t = act (Print t) (\<lambda>_. RNone) (\<lambda>w. (Inr (), w))"

definition exit_message :: "string \<Rightarrow> ('w, 'a) io" where
  "exit_message t = raiseIO (SystemExit (ExitMessage t))"

definition exit_code :: "int \<Rightarrow> ('w, 'a) io" where
  "exit_code n = raiseIO (SystemExit (ExitCode n))"

section \<open>Weakest preconditions\<close>

text \<open>\<open>wp m Q s\<close>: the run of \<open>m\<close> from \<open>s\<close> ends, in whichever way, in a result
  and a state satisfying \<open>Q\<close>. The rules follow the shape of a computation; the rule for a
  call considers every reply.\<close>

named_theorems wp_rules \<open>weakest preconditions\<close>

definition wp :: "('w, 'a) io \<Rightarrow> ('a run \<Rightarrow> 'w sys \<Rightarrow> bool) \<Rightarrow> 'w sys \<Rightarrow> bool" where
  "wp m Q s = Q (fst (m s)) (snd (m s))"

lemma wpD: "wp m Q s \<Longrightarrow> m s = (r, s') \<Longrightarrow> Q r s'"
  by (simp add: wp_def)

lemma wpI: "(\<And>r s'. m s = (r, s') \<Longrightarrow> Q r s') \<Longrightarrow> wp m Q s"
  by (cases "m s") (simp add: wp_def)

lemma wp_weaken: "wp m P s \<Longrightarrow> (\<And>r s'. P r s' \<Longrightarrow> Q r s') \<Longrightarrow> wp m Q s"
  by (simp add: wp_def)

lemma wp_ret [wp_rules]: "Q (Done a) s \<Longrightarrow> wp (retIO a) Q s"
  by (simp add: wp_def retIO_def)

lemma wp_raise [wp_rules]: "Q (Raised e) s \<Longrightarrow> wp (raiseIO e) Q s"
  by (simp add: wp_def raiseIO_def)

lemma wp_stop [wp_rules]: "Q OutOfFuel s \<Longrightarrow> wp stopIO Q s"
  by (simp add: wp_def stopIO_def)

lemma wp_exit [wp_rules]:
  "Q (Raised (SystemExit (ExitMessage t))) s \<Longrightarrow> wp (exit_message t) Q s"
  "Q (Raised (SystemExit (ExitCode n))) s \<Longrightarrow> wp (exit_code n) Q s"
  by (simp_all add: exit_message_def exit_code_def wp_def raiseIO_def)

definition on_done :: "('a \<Rightarrow> 'w sys \<Rightarrow> bool) \<Rightarrow> ('b run \<Rightarrow> 'w sys \<Rightarrow> bool) \<Rightarrow> 'a run \<Rightarrow> 'w sys \<Rightarrow> bool" where
  "on_done P Q r s = (case r of Done a \<Rightarrow> P a s | Raised e \<Rightarrow> Q (Raised e) s | OutOfFuel \<Rightarrow> Q OutOfFuel s)"

lemma on_done_simps [simp]:
  "on_done P Q (Done a) s = P a s"
  "on_done P Q (Raised e) s = Q (Raised e) s"
  "on_done P Q OutOfFuel s = Q OutOfFuel s"
  by (simp_all add: on_done_def)

lemma wp_on_done:
  assumes "wp m (\<lambda>r s'. r \<noteq> OutOfFuel) s" and "\<And>a s'. P a s'" and "\<And>e s'. Q (Raised e) s'"
  shows "wp m (on_done P Q) s"
  by (rule wp_weaken [OF assms(1)]) (use assms(2,3) in \<open>auto simp: on_done_def split: run.split\<close>)

lemma wp_bind [wp_rules]:
  "wp m (on_done (\<lambda>a. wp (f a) Q) Q) s \<Longrightarrow> wp (bindIO m f) Q s"
  by (auto simp: wp_def bindIO_def split: prod.split run.split)

lemma wp_try [wp_rules]:
  "wp m (\<lambda>r s'. case r of Raised e \<Rightarrow> wp (h e) Q s' | _ \<Rightarrow> Q r s') s \<Longrightarrow> wp (tryIO m h) Q s"
  by (auto simp: wp_def tryIO_def split: prod.splits run.splits)

lemma wp_finally:
  "wp m (\<lambda>r s'. case r of
      Done a \<Rightarrow> wp f (on_done (\<lambda>_. Q (Done a)) Q) s'
    | Raised e \<Rightarrow> wp f (on_done (\<lambda>_. Q (Raised e)) Q) s'
    | OutOfFuel \<Rightarrow> Q OutOfFuel s') s \<Longrightarrow> wp (finallyIO m f) Q s"
  by (auto simp: wp_def finallyIO_def bindIO_def retIO_def raiseIO_def split: prod.splits run.splits)

lemma wp_when [wp_rules]:
  "(b \<Longrightarrow> wp m Q s) \<Longrightarrow> (\<not> b \<Longrightarrow> Q (Done ()) s) \<Longrightarrow> wp (whenIO b m) Q s"
  by (simp add: whenIO_def wp_def retIO_def)

lemma wp_lift [wp_rules]:
  "(\<And>e. r = Inl e \<Longrightarrow> Q (Raised e) s) \<Longrightarrow> (\<And>a. r = Inr a \<Longrightarrow> Q (Done a) s) \<Longrightarrow> wp (liftIO r) Q s"
  by (cases r) (simp_all add: liftIO_def wp_def retIO_def raiseIO_def)

definition logged :: "'w sys \<Rightarrow> 'w \<Rightarrow> call \<Rightarrow> reply \<Rightarrow> 'w sys" where
  "logged s w c r = \<lparr>world = w, trace = trace s @ [(c, r)]\<rparr>"

lemma logged_simps [simp]:
  "world (logged s w c r) = w"
  "trace (logged s w c r) = trace s @ [(c, r)]"
  by (simp_all add: logged_def)

lemma wp_act [wp_rules]:
  assumes "\<And>e w. f (world s) = (Inl e, w) \<Longrightarrow> Q (Raised e) (logged s w c (RFail e))"
    and "\<And>a w. f (world s) = (Inr a, w) \<Longrightarrow> Q (Done a) (logged s w c (answer a))"
  shows "wp (act c answer f) Q s"
proof (cases "f (world s)")
  case (Pair r w)
  then show ?thesis using assms by (cases r) (auto simp: wp_def act_def logged_def)
qed

lemma wp_calls [wp_rules]:
  "(\<And>t w. m_monotonic m (world s) = (t, w) \<Longrightarrow> Q (Done t) (logged s w Monotonic (RTime t))) \<Longrightarrow>
     wp (monotonic m) Q s"
  "Q' (Done ()) (logged s (m_sleep m k (world s)) (Sleep k) RNone) \<Longrightarrow> wp (sleep m k) Q' s"
  "(\<And>b w. m_exists m p (world s) = (b, w) \<Longrightarrow> Q'' (Done b) (logged s w (PathExists p) (RBool b))) \<Longrightarrow>
     wp (path_exists m p) Q'' s"
  "Q' (Done ()) (logged s (world s) (Print t) RNone) \<Longrightarrow> wp (print_line t) Q' s"
  unfolding monotonic_def sleep_def path_exists_def print_line_def
  by (rule wp_act; auto)+

lemma wp_outside [wp_rules]:
  "(\<And>e w. m_aws m c r (world s) = (Inl e, w) \<Longrightarrow> Q (Raised e) (logged s w (Aws c r) (RFail e))) \<Longrightarrow>
   (\<And>j w. m_aws m c r (world s) = (Inr j, w) \<Longrightarrow> Q (Done j) (logged s w (Aws c r) (RJson j))) \<Longrightarrow>
     wp (aws m c r) Q s"
  "(\<And>e w. m_read m p (world s) = (Inl e, w) \<Longrightarrow> Q' (Raised e) (logged s w (ReadFile p) (RFail e))) \<Longrightarrow>
   (\<And>d w. m_read m p (world s) = (Inr d, w) \<Longrightarrow> Q' (Done d) (logged s w (ReadFile p) (RData d))) \<Longrightarrow>
     wp (read_file m p) Q' s"
  "(\<And>e w. m_run m cmd env (world s) = (Inl e, w) \<Longrightarrow> Q'' (Raised e) (logged s w (RunCommand cmd env) (RFail e))) \<Longrightarrow>
   (\<And>k w. m_run m cmd env (world s) = (Inr k, w) \<Longrightarrow> Q'' (Done k) (logged s w (RunCommand cmd env) (RInt k))) \<Longrightarrow>
     wp (run_command m cmd env) Q'' s"
  "(\<And>e w. m_client m c (world s) = (Inl e, w) \<Longrightarrow> Q3 (Raised e) (logged s w (NewClient c) (RFail e))) \<Longrightarrow>
   (\<And>w. m_client m c (world s) = (Inr (), w) \<Longrightarrow> Q3 (Done c) (logged s w (NewClient c) RNone)) \<Longrightarrow>
     wp (new_client m c) Q3 s"
  unfolding aws_def read_file_def run_command_def new_client_def
  by (auto intro!: wp_rules)

lemma wp_files [wp_rules]:
  "(\<And>e w. m_write m p d (world s) = (Inl e, w) \<Longrightarrow> Q0 (Raised e) (logged s w (WriteFile p d) (RFail e))) \<Longrightarrow>
   (\<And>w. m_write m p d (world s) = (Inr (), w) \<Longrightarrow> Q0 (Done ()) (logged s w (WriteFile p d) (RNone))) \<Longrightarrow>
     wp (write_file m p d) Q0 s"
  "(\<And>e w. m_remove m p (world s) = (Inl e, w) \<Longrightarrow> Q1 (Raised e) (logged s w (RemoveFile p) (RFail e))) \<Longrightarrow>
   (\<And>w. m_remove m p (world s) = (Inr (), w) \<Longrightarrow> Q1 (Done ()) (logged s w (RemoveFile p) (RNone))) \<Longrightarrow>
     wp (remove_file m p) Q1 s"
  "(\<And>e w. m_makedirs m p (world s) = (Inl e, w) \<Longrightarrow> Q2 (Raised e) (logged s w (MakeDirs p) (RFail e))) \<Longrightarrow>
   (\<And>w. m_makedirs m p (world s) = (Inr (), w) \<Longrightarrow> Q2 (Done ()) (logged s w (MakeDirs p) (RNone))) \<Longrightarrow>
     wp (makedirs m p) Q2 s"
  "(\<And>e w. m_copy m p q (world s) = (Inl e, w) \<Longrightarrow> Q3 (Raised e) (logged s w (CopyFile p q) (RFail e))) \<Longrightarrow>
   (\<And>w. m_copy m p q (world s) = (Inr (), w) \<Longrightarrow> Q3 (Done ()) (logged s w (CopyFile p q) (RNone))) \<Longrightarrow>
     wp (copy_file m p q) Q3 s"
  "(\<And>e w. m_getsize m p (world s) = (Inl e, w) \<Longrightarrow> Q4 (Raised e) (logged s w (GetSize p) (RFail e))) \<Longrightarrow>
   (\<And>k w. m_getsize m p (world s) = (Inr k, w) \<Longrightarrow> Q4 (Done k) (logged s w (GetSize p) (RInt k))) \<Longrightarrow>
     wp (getsize m p) Q4 s"
  "(\<And>e w. m_urlopen m u (world s) = (Inl e, w) \<Longrightarrow> Q5 (Raised e) (logged s w (UrlOpen u) (RFail e))) \<Longrightarrow>
   (\<And>d w. m_urlopen m u (world s) = (Inr d, w) \<Longrightarrow> Q5 (Done d) (logged s w (UrlOpen u) (RData d))) \<Longrightarrow>
     wp (urlopen m u) Q5 s"
  unfolding write_file_def remove_file_def makedirs_def copy_file_def getsize_def urlopen_def
  by (auto intro!: wp_rules)

lemma wp_invoke [wp_rules]:
  "(\<And>e w. m_invoke m c f p q (world s) = (Inl e, w) \<Longrightarrow> Q (Raised e) (logged s w (Aws c (Invoke f p q)) (RFail e))) \<Longrightarrow>
   (\<And>j d w. m_invoke m c f p q (world s) = (Inr (j, d), w) \<Longrightarrow>
      Q (Done (j, d)) (logged s w (Aws c (Invoke f p q)) (RInvoke j d))) \<Longrightarrow>
     wp (aws_invoke m c f p q) Q s"
  unfolding aws_invoke_def by (auto intro!: wp_rules)

lemma wp_if [wp_rules]:
  "(b \<Longrightarrow> wp f Q s) \<Longrightarrow> (\<not> b \<Longrightarrow> wp g Q s) \<Longrightarrow> wp (if b then f else g) Q s"
  by simp

section \<open>The clock\<close>

text \<open>What the standard library promises of \<open>time\<close>: \<open>monotonic\<close> never goes
  backwards, \<open>sleep\<close> suspends for at least the given time, and no other call takes time
  back. \<open>now w\<close> is the (unobservable) time in world \<open>w\<close>.\<close>

definition clock_law :: "'w machine \<Rightarrow> ('w \<Rightarrow> rat) \<Rightarrow> bool" where
  "clock_law m now \<longleftrightarrow>
     (\<forall>w. now w \<le> fst (m_monotonic m w) \<and> fst (m_monotonic m w) \<le> now (snd (m_monotonic m w))) \<and>
     (\<forall>k w. now w + k \<le> now (m_sleep m k w)) \<and>
     (\<forall>c r w. now w \<le> now (snd (m_aws m c r w)))"

lemma clock_lawD:
  assumes "clock_law m now"
  shows "m_monotonic m w = (t, w') \<Longrightarrow> now w \<le> t \<and> t \<le> now w'"
    and "now w + k \<le> now (m_sleep m k w)"
    and "m_aws m c r w = (a, w') \<Longrightarrow> now w \<le> now w'"
  using assms unfolding clock_law_def by (metis fst_conv snd_conv)+

text \<open>How often a kind of call was made.\<close>

definition calls :: "(call \<Rightarrow> bool) \<Rightarrow> 'w sys \<Rightarrow> nat" where
  "calls P s = length (filter (\<lambda>(c, r). P c) (trace s))"

lemma calls_logged [simp]: "calls P (logged s w c r) = (if P c then Suc (calls P s) else calls P s)"
  by (simp add: calls_def)

section \<open>Protocols\<close>

text \<open>A protocol is a partial step function on phases over events; no call is made in a final
  phase. A computation follows it when its part of the trace is accepted.\<close>

fun accepts :: "('p \<Rightarrow> event \<Rightarrow> 'p option) \<Rightarrow> 'p \<Rightarrow> event list \<Rightarrow> 'p option" where
  "accepts nxt p [] = Some p"
| "accepts nxt p (ev # evs) = (case nxt p ev of None \<Rightarrow> None | Some q \<Rightarrow> accepts nxt q evs)"

lemma accepts_append: "accepts nxt p (evs @ evs') = Option.bind (accepts nxt p evs) (\<lambda>q. accepts nxt q evs')"
  by (induction evs arbitrary: p) (auto split: option.split)

locale protocol =
  fixes nxt :: "'p \<Rightarrow> event \<Rightarrow> 'p option"
    and final :: "'p \<Rightarrow> bool"
  assumes final_stops: "final p \<Longrightarrow> nxt p ev = None"
begin

lemma accepts_final: "accepts nxt p evs = Some q \<Longrightarrow> final p \<Longrightarrow> evs = [] \<and> q = p"
  by (cases evs) (auto simp: final_stops)

text \<open>The phase a state is in, when its trace extends \<open>t\<close>, whose last phase was \<open>p\<close>.\<close>

definition phase_at :: "event list \<Rightarrow> 'p \<Rightarrow> 'w sys \<Rightarrow> 'p option" where
  "phase_at t p s =
     (if take (length t) (trace s) = t then accepts nxt p (drop (length t) (trace s)) else None)"

lemma phase_at_start [simp]: "phase_at (trace s) p s = Some p"
  by (simp add: phase_at_def)

lemma phase_at_logged [simp]:
  "phase_at t p s = Some q \<Longrightarrow> phase_at t p (logged s w c r) = nxt q (c, r)"
proof -
  assume at: "phase_at t p s = Some q"
  then have t: "take (length t) (trace s) = t" by (auto simp: phase_at_def split: if_splits)
  then have "length t \<le> length (trace s)" by (metis length_take min.cobounded1)
  then show ?thesis
    using at t by (auto simp: phase_at_def accepts_append split: option.split)
qed

lemma phase_atD: "phase_at t p s = Some q \<Longrightarrow> \<exists>evs. trace s = t @ evs \<and> accepts nxt p evs = Some q"
  unfolding phase_at_def by (metis append_take_drop_id option.distinct(1))

definition lands :: "event list \<Rightarrow> 'p \<Rightarrow> ('a \<Rightarrow> 'p set) \<Rightarrow> 'a run \<Rightarrow> 'w sys \<Rightarrow> bool" where
  "lands t p P r s \<longleftrightarrow> (\<exists>q. phase_at t p s = Some q \<and> (\<forall>a. r = Done a \<longrightarrow> q \<in> P a))"

lemma lands_simps [simp]:
  "lands t p P (Done a) s \<longleftrightarrow> (\<exists>q \<in> P a. phase_at t p s = Some q)"
  "lands t p P (Raised e) s \<longleftrightarrow> phase_at t p s \<noteq> None"
  "lands t p P OutOfFuel s \<longleftrightarrow> phase_at t p s \<noteq> None"
  by (auto simp: lands_def)

text \<open>Sequencing of computations with a known range of phases in between.\<close>

lemma lands_then:
  assumes "wp m (lands t p P) s" and "\<And>a q s'. q \<in> P a \<Longrightarrow> phase_at t p s' = Some q \<Longrightarrow> wp (f a) (lands t p R) s'"
  shows "wp m (on_done (\<lambda>a. wp (f a) (lands t p R)) (lands t p R)) s"
proof (rule wp_weaken [OF assms(1)], goal_cases)
  case (1 r s')
  then show ?case using assms(2) by (cases r) auto
qed

lemma lands_bind:
  assumes "wp m (lands t p P) s" and "\<And>a q s'. q \<in> P a \<Longrightarrow> phase_at t p s' = Some q \<Longrightarrow> wp (f a) (lands t p R) s'"
  shows "wp (bindIO m f) (lands t p R) s"
  by (rule wp_bind, rule lands_then, rule assms(1), rule assms(2))

lemma landsD:
  assumes "wp m (lands (trace s) p (\<lambda>_. {q'})) s"
  shows "\<exists>evs q. trace (snd (m s)) = trace s @ evs \<and> accepts nxt p evs = Some q \<and> (fst (m s) = Done a \<longrightarrow> q = q')"
proof -
  have "lands (trace s) p (\<lambda>_. {q'}) (fst (m s)) (snd (m s))" using assms by (simp add: wp_def)
  then obtain q where q: "phase_at (trace s) p (snd (m s)) = Some q" "fst (m s) = Done a \<longrightarrow> q = q'"
    unfolding lands_def by auto
  from phase_atD [OF q(1)] q(2) show ?thesis by blast
qed

end

end
