(* ===== verification/OsPath.thy ===== *)
theory OsPath
  imports Main
begin

text \<open>
  The functions of Python's \<open>os.path\<close> (on POSIX) that the scripts apply to paths, and the
  facts about them that tie the scripts together: joining an extension to a file name commutes
  with joining it to the directory.
\<close>

abbreviation slash :: char where
  "slash \<equiv> CHR ''/''"

definition path_join :: "string \<Rightarrow> string \<Rightarrow> string" where
  "path_join a b =
     (if b \<noteq> [] \<and> hd b = slash then b
      else if a = [] \<or> last a = slash then a @ b
      else a @ [slash] @ b)"

definition basename :: "string \<Rightarrow> string" where
  "basename p = rev (takeWhile (\<lambda>c. c \<noteq> slash) (rev p))"

definition path_head :: "string \<Rightarrow> string" where
  "path_head p = rev (dropWhile (\<lambda>c. c \<noteq> slash) (rev p))"

definition dirname :: "string \<Rightarrow> string" where
  "dirname p =
     (let h = path_head p
      in if list_all (\<lambda>c. c = slash) h then h else rev (dropWhile (\<lambda>c. c = slash) (rev h)))"

text \<open>\<open>splitext(p)[0]\<close>: the last dot of the file name starts the extension, unless only
  dots stand before it.\<close>

definition path_root :: "string \<Rightarrow> string" where
  "path_root p =
     (let f = basename p;
          dots = takeWhile (\<lambda>c. c = CHR ''.'') f;
          rest = dropWhile (\<lambda>c. c = CHR ''.'') f
      in if CHR ''.'' \<in> set rest
         then path_head p @ dots @ rev (tl (dropWhile (\<lambda>c. c \<noteq> CHR ''.'') (rev rest)))
         else p)"

fun split_slash :: "string \<Rightarrow> string list" where
  "split_slash [] = [[]]"
| "split_slash (c # s) =
     (if c = slash then [] # split_slash s
      else (case split_slash s of [] \<Rightarrow> [[c]] | x # xs \<Rightarrow> (c # x) # xs))"

fun norm_comps :: "bool \<Rightarrow> string list \<Rightarrow> string list \<Rightarrow> string list" where
  "norm_comps rooted acc [] = rev acc"
| "norm_comps rooted acc (c # cs) =
     (if c = [] \<or> c = ''.'' then norm_comps rooted acc cs
      else if c \<noteq> ''..'' \<or> (\<not> rooted \<and> acc = []) \<or> (acc \<noteq> [] \<and> hd acc = ''..'')
        then norm_comps rooted (c # acc) cs
      else norm_comps rooted (tl acc) cs)"

fun join_slash :: "string list \<Rightarrow> string" where
  "join_slash [] = []"
| "join_slash [x] = x"
| "join_slash (x # y # xs) = x @ [slash] @ join_slash (y # xs)"

definition initial_slashes :: "string \<Rightarrow> nat" where
  "initial_slashes p =
     (let n = length (takeWhile (\<lambda>c. c = slash) p) in if n = 0 then 0 else if n = 2 then 2 else 1)"

definition normpath :: "string \<Rightarrow> string" where
  "normpath p =
     (let k = initial_slashes p;
          q = replicate k slash @ join_slash (norm_comps (0 < k) [] (split_slash p))
      in if q = [] then ''.'' else q)"

definition abspath :: "string \<Rightarrow> string \<Rightarrow> string" where
  "abspath cwd p = normpath (if p \<noteq> [] \<and> hd p = slash then p else path_join cwd p)"

section \<open>Facts\<close>

lemma basename_no_slash: "slash \<notin> set (basename p)"
  by (auto simp: basename_def dest: set_takeWhileD)

lemma path_head_basename: "path_head p @ basename p = p"
proof -
  have "path_head p @ basename p =
      rev (takeWhile (\<lambda>c. c \<noteq> slash) (rev p) @ dropWhile (\<lambda>c. c \<noteq> slash) (rev p))"
    by (simp only: path_head_def basename_def rev_append)
  then show ?thesis by simp
qed

lemma basename_plain:
  assumes "slash \<notin> set p"
  shows "basename p = p" "path_head p = []"
proof -
  have "takeWhile (\<lambda>c. c \<noteq> slash) (rev p) = rev p"
    using assms by (subst takeWhile_eq_all_conv) auto
  then show "basename p = p" by (simp only: basename_def rev_rev_ident)
  show "path_head p = []" using assms by (auto simp: path_head_def)
qed

lemma tl_dropWhile_subset: "set (tl (dropWhile P xs)) \<subseteq> set xs"
proof
  fix x
  assume "x \<in> set (tl (dropWhile P xs))"
  then have "x \<in> set (dropWhile P xs)" by (metis list.sel(2) list.set_sel(2))
  then show "x \<in> set xs" by (rule set_dropWhileD)
qed

lemma path_root_no_slash:
  assumes "slash \<notin> set p"
  shows "slash \<notin> set (path_root p)"
proof -
  let ?rest = "dropWhile (\<lambda>c. c = CHR ''.'') p"
  have "set (tl (dropWhile (\<lambda>c. c \<noteq> CHR ''.'') (rev ?rest))) \<subseteq> set p"
    using tl_dropWhile_subset [of "\<lambda>c. c \<noteq> CHR ''.''" "rev ?rest"] set_dropWhileD by fastforce
  then show ?thesis
    using assms by (auto simp: path_root_def Let_def basename_plain dest: set_takeWhileD)
qed

lemma path_join_extension:
  assumes "slash \<notin> set b" and "ext \<noteq> []" and "slash \<notin> set ext"
  shows "path_join a (b @ ext) = path_join a b @ ext"
proof -
  have "hd (b @ ext) \<noteq> slash" using assms by (cases b; cases ext) auto
  moreover have "b \<noteq> [] \<Longrightarrow> hd b \<noteq> slash" using assms(1) by (cases b) auto
  ultimately show ?thesis by (auto simp: path_join_def)
qed

end
