(* ===== verification/Deploy.thy ===== *)
theory Deploy
  imports ScriptIO OsPath
begin

text \<open>
  \<open>scripts/deploy.py\<close>: packaging the bootstrap, creating or reusing the IAM role,
  creating the function while the role propagates, and waiting until it is active. The two
  polling loops take fuel, one unit per iteration.
\<close>

section \<open>Constants\<close>

definition DEFAULT_MEMORY_MB :: int where
  "DEFAULT_MEMORY_MB = 128"

definition DEFAULT_TIMEOUT_SECONDS :: int where
  "DEFAULT_TIMEOUT_SECONDS = 30"

definition DEFAULT_ARCHITECTURE :: string where
  "DEFAULT_ARCHITECTURE = ''x86_64''"

definition DEFAULT_RUNTIME :: string where
  "DEFAULT_RUNTIME = ''provided.al2023''"

definition LAMBDA_BASIC_EXECUTION_POLICY_ARN :: string where
  "LAMBDA_BASIC_EXECUTION_POLICY_ARN = ''arn:aws:iam::aws:policy/service-role/AWSLambdaBasicExecutionRole''"

definition LAMBDA_TRUST_POLICY :: json where
  "LAMBDA_TRUST_POLICY =
     JObj [(''Version'', JStr ''2012-10-17''),
           (''Statement'', JList
             [JObj [(''Effect'', JStr ''Allow''),
                    (''Principal'', JObj [(''Service'', JStr ''lambda.amazonaws.com'')]),
                    (''Action'', JStr ''sts:AssumeRole'')]])]"

definition IAM_PROPAGATION_POLL_INTERVAL_SECONDS :: rat where
  "IAM_PROPAGATION_POLL_INTERVAL_SECONDS = 5"

definition IAM_PROPAGATION_MAX_WAIT_SECONDS :: rat where
  "IAM_PROPAGATION_MAX_WAIT_SECONDS = 60"

section \<open>Packaging and roles\<close>

text \<open>The archive has one entry, \<open>bootstrap\<close>, with the mode \<open>0o755 << 16\<close>.\<close>

definition bootstrap_archive :: "'w machine \<Rightarrow> string \<Rightarrow> string" where
  "bootstrap_archive m content = m_zip m [(''bootstrap'', 493 * 2 ^ 16, content)]"

definition create_zip :: "'w machine \<Rightarrow> string \<Rightarrow> ('w, string) io" where
  "create_zip m bootstrap_path =
     bindIO (read_file m bootstrap_path) (\<lambda>content. retIO (bootstrap_archive m content))"

text \<open>\<open>resp['Role']['Arn']\<close>.\<close>

definition role_arn_of :: "json \<Rightarrow> json res" where
  "role_arn_of resp = bindR (jget resp ''Role'') (\<lambda>r. jget r ''Arn'')"

definition ensure_iam_role :: "'w machine \<Rightarrow> client \<Rightarrow> string \<Rightarrow> ('w, json) io" where
  "ensure_iam_role m iam_client role_name =
     bindIO
       (tryIO
          (bindIO (aws m iam_client (GetRole role_name)) (\<lambda>resp.
           bindIO (liftIO (role_arn_of resp)) (\<lambda>role_arn. retIO (Some role_arn))))
          (\<lambda>e. case e of
             ClientError code msg \<Rightarrow> if code \<noteq> ''NoSuchEntity'' then raiseIO e else retIO None
           | _ \<Rightarrow> raiseIO e))
       (\<lambda>found. case found of
          Some role_arn \<Rightarrow> retIO role_arn
        | None \<Rightarrow>
            bindIO (aws m iam_client (CreateRole role_name (m_dumps m LAMBDA_TRUST_POLICY)
              ''Execution role for lambpie Lambda functions'')) (\<lambda>resp.
            bindIO (liftIO (role_arn_of resp)) (\<lambda>role_arn.
            bindIO (aws m iam_client (AttachRolePolicy role_name LAMBDA_BASIC_EXECUTION_POLICY_ARN)) (\<lambda>_.
              retIO role_arn))))"

section \<open>Polling\<close>

definition not_propagated :: "pyexc \<Rightarrow> bool" where
  "not_propagated e =
     (case e of
        ClientError code msg \<Rightarrow> code = ''InvalidParameterValueException'' \<and> str_contains ''cannot be assumed'' msg
      | _ \<Rightarrow> False)"

definition error_text :: "pyexc \<Rightarrow> string" where
  "error_text e = (case e of ClientError code msg \<Rightarrow> msg | _ \<Rightarrow> [])"

fun iam_loop :: "'w machine \<Rightarrow> nat \<Rightarrow> rat \<Rightarrow> client \<Rightarrow> create_function_request \<Rightarrow> ('w, json) io" where
  "iam_loop m 0 deadline lambda_client req = stopIO"
| "iam_loop m (Suc n) deadline lambda_client req =
     tryIO (aws m lambda_client (CreateFunction req)) (\<lambda>e.
       if not_propagated e then
         bindIO (monotonic m) (\<lambda>_.
         bindIO (monotonic m) (\<lambda>t.
           let remaining = deadline - t in
           if remaining \<le> 0 then
             exit_message (''Error: IAM role did not propagate within 60s. Last error: '' @ error_text e)
           else
             bindIO (sleep m IAM_PROPAGATION_POLL_INTERVAL_SECONDS) (\<lambda>_.
               iam_loop m n deadline lambda_client req)))
       else raiseIO e)"

definition wait_for_iam_propagation ::
    "'w machine \<Rightarrow> nat \<Rightarrow> client \<Rightarrow> json \<Rightarrow> string \<Rightarrow> string \<Rightarrow> int \<Rightarrow> int \<Rightarrow> string \<Rightarrow> ('w, json) io" where
  "wait_for_iam_propagation m n lambda_client role_arn zip_bytes function_name_probe memory_mb timeout_seconds architecture =
     bindIO (monotonic m) (\<lambda>t.
       iam_loop m n (t + IAM_PROPAGATION_MAX_WAIT_SECONDS) lambda_client
         \<lparr>FunctionName = function_name_probe, Runtime = DEFAULT_RUNTIME, Role = role_arn,
          Handler = ''bootstrap'', ZipFile = zip_bytes, MemorySize = memory_mb,
          Timeout = timeout_seconds, Architectures = [architecture]\<rparr>)"

text \<open>The loop of \<open>wait_for_function_active\<close> with its interval, and the text of the
  timeout; \<open>scripts/verify.py\<close> has the same loop with other constants.\<close>

fun active_loop :: "'w machine \<Rightarrow> nat \<Rightarrow> rat \<Rightarrow> rat \<Rightarrow> string \<Rightarrow> client \<Rightarrow> string \<Rightarrow> ('w, unit) io" where
  "active_loop m 0 deadline interval limit lambda_client function_name = stopIO"
| "active_loop m (Suc n) deadline interval limit lambda_client function_name =
     bindIO (aws m lambda_client (GetFunction function_name)) (\<lambda>info.
     bindIO (liftIO (bindR (jget info ''Configuration'') (\<lambda>c. jget c ''State''))) (\<lambda>state.
       if state = JStr ''Active'' then retIO ()
       else if state = JStr ''Failed'' then
         bindIO (liftIO (bindR (jget info ''Configuration'') (\<lambda>c. jget_or c ''StateReason'' (JStr ''unknown'')))) (\<lambda>reason.
           exit_message (''Error: function entered Failed state: '' @ py_str reason))
       else
         bindIO (monotonic m) (\<lambda>t.
           if t > deadline then
             exit_message (''Error: function still in state '' @ [CHR 0x27] @ py_str state @ [CHR 0x27] @
               '' after '' @ limit @ ''s timeout.'')
           else
             bindIO (sleep m interval) (\<lambda>_.
               active_loop m n deadline interval limit lambda_client function_name))))"

definition wait_for_function_active :: "'w machine \<Rightarrow> nat \<Rightarrow> client \<Rightarrow> string \<Rightarrow> ('w, unit) io" where
  "wait_for_function_active m n lambda_client function_name =
     bindIO (monotonic m) (\<lambda>t. active_loop m n (t + 120) 2 ''120'' lambda_client function_name)"

section \<open>The command\<close>

text \<open>The truth of an optional string, as in \<open>if args.region\<close>.\<close>

definition given :: "string option \<Rightarrow> bool" where
  "given x = (x \<noteq> None \<and> x \<noteq> Some [])"

definition make_boto3_kwargs :: "string option \<Rightarrow> string option \<Rightarrow> (string, string) dict" where
  "make_boto3_kwargs region endpoint_url =
     (if given region then [(''region_name'', the region)] else []) @
     (if given endpoint_url then [(''endpoint_url'', the endpoint_url)] else [])"

record deploy_args =
  function_name :: string
  build :: "string option"
  bootstrap :: string
  region :: "string option"
  endpoint_url :: "string option"
  role :: "string option"
  create_role :: "string option"
  memory :: int
  timeout :: int
  architecture :: string

text \<open>What \<open>parse_args\<close> leaves in \<open>args\<close> for a command line with a function
  name only.\<close>

definition default_deploy_args :: "'w machine \<Rightarrow> string \<Rightarrow> deploy_args" where
  "default_deploy_args m f =
     \<lparr>function_name = f, build = None,
      bootstrap = path_join (path_join (m_repo_root m) ''target'') ''bootstrap'',
      region = None, endpoint_url = None, role = None, create_role = None,
      memory = DEFAULT_MEMORY_MB, timeout = DEFAULT_TIMEOUT_SECONDS, architecture = DEFAULT_ARCHITECTURE\<rparr>"

definition build_phase :: "'w machine \<Rightarrow> deploy_args \<Rightarrow> ('w, unit) io" where
  "build_phase m args =
     (if given (build args) then
        bindIO (run_command m [m_python m, path_join (path_join (m_repo_root m) ''scripts'') ''build.py'', the (build args)] [])
          (\<lambda>returncode. whenIO (returncode \<noteq> 0) (exit_code returncode))
      else retIO ())"

definition resolve_role :: "'w machine \<Rightarrow> deploy_args \<Rightarrow> ('w, json option) io" where
  "resolve_role m args =
     (if given (role args) then retIO (Some (JStr (the (role args))))
      else (case create_role args of
              Some name \<Rightarrow>
                bindIO (new_client m (''iam'', make_boto3_kwargs (region args) (endpoint_url args))) (\<lambda>iam_client.
                bindIO (ensure_iam_role m iam_client name) (\<lambda>arn. retIO (Some arn)))
            | None \<Rightarrow> retIO None))"

definition function_exists :: "'w machine \<Rightarrow> client \<Rightarrow> string \<Rightarrow> ('w, bool) io" where
  "function_exists m lambda_client name =
     tryIO (bindIO (aws m lambda_client (GetFunction name)) (\<lambda>_. retIO True))
       (\<lambda>e. case e of
          ClientError code msg \<Rightarrow> if code \<noteq> ''ResourceNotFoundException'' then raiseIO e else retIO False
        | _ \<Rightarrow> raiseIO e)"

definition update_or_create ::
    "'w machine \<Rightarrow> nat \<Rightarrow> deploy_args \<Rightarrow> string \<Rightarrow> client \<Rightarrow> json option \<Rightarrow> ('w, unit) io" where
  "update_or_create m n args zip_bytes lambda_client role_arn =
     bindIO (function_exists m lambda_client (function_name args)) (\<lambda>exists.
       if exists then
         bindIO (aws m lambda_client (UpdateFunctionCode (function_name args) zip_bytes [architecture args])) (\<lambda>_.
           wait_for_function_active m n lambda_client (function_name args))
       else if \<not> (case role_arn of None \<Rightarrow> False | Some arn \<Rightarrow> jtruthy arn) then
         exit_message (''Error: function does not exist and no IAM role was specified.'' @ [CHR 0x0A] @
           ''Pass --role <ARN> or --create-role to create a new function.'')
       else
         bindIO (wait_for_iam_propagation m n lambda_client (the role_arn) zip_bytes (function_name args)
           (memory args) (timeout args) (architecture args)) (\<lambda>_.
         wait_for_function_active m n lambda_client (function_name args)))"

definition deploy :: "'w machine \<Rightarrow> nat \<Rightarrow> deploy_args \<Rightarrow> ('w, unit) io" where
  "deploy m n args =
     bindIO (build_phase m args) (\<lambda>_.
     bindIO (path_exists m (bootstrap args)) (\<lambda>found.
     bindIO (whenIO (\<not> found)
       (exit_message (''Error: bootstrap binary not found at '' @ bootstrap args @ [CHR 0x0A] @
          ''Run '' @ [CHR 0x27] @ ''make build'' @ [CHR 0x27] @ '' first or specify --bootstrap <path>.''))) (\<lambda>_.
     bindIO (create_zip m (bootstrap args)) (\<lambda>zip_bytes.
     bindIO (new_client m (''lambda'', make_boto3_kwargs (region args) (endpoint_url args))) (\<lambda>lambda_client.
     bindIO (resolve_role m args) (\<lambda>role_arn.
       update_or_create m n args zip_bytes lambda_client role_arn))))))"

end
