(* ===== verification/Verify.thy ===== *)
theory Verify
  imports Deploy
begin

text \<open>
  \<open>scripts/verify.py\<close> and \<open>scripts/invoke.py\<close>: deploying the echo handler to
  localstack and comparing its answer, and invoking a deployed function once.
\<close>

section \<open>verify.py\<close>

definition FUNCTION_NAME :: string where
  "FUNCTION_NAME = ''lambpie-echo-test''"

definition TEST_EVENT :: json where
  "TEST_EVENT = JObj [(''message'', JStr ''hello from lambpie''), (''number'', JInt 42)]"

definition EXPECTED_RESPONSE :: json where
  "EXPECTED_RESPONSE =
     JObj [(''status'', JStr ''ok''), (''echo'', JStr ''hello from lambpie''), (''doubled'', JInt 84)]"

definition FUNCTION_MEMORY_MB :: int where
  "FUNCTION_MEMORY_MB = 128"

definition FUNCTION_TIMEOUT_SECONDS :: int where
  "FUNCTION_TIMEOUT_SECONDS = 30"

definition FUNCTION_ARCHITECTURE :: string where
  "FUNCTION_ARCHITECTURE = ''x86_64''"

definition FUNCTION_RUNTIME :: string where
  "FUNCTION_RUNTIME = ''provided.al2023''"

definition LOCALSTACK_ROLE_ARN :: string where
  "LOCALSTACK_ROLE_ARN = ''arn:aws:iam::000000000000:role/lambda-role''"

definition FUNCTION_ACTIVE_POLL_INTERVAL_SECONDS :: rat where
  "FUNCTION_ACTIVE_POLL_INTERVAL_SECONDS = 1"

definition FUNCTION_ACTIVE_MAX_WAIT_SECONDS :: rat where
  "FUNCTION_ACTIVE_MAX_WAIT_SECONDS = 60"

definition LOCALSTACK_READY_POLL_INTERVAL_SECONDS :: rat where
  "LOCALSTACK_READY_POLL_INTERVAL_SECONDS = 1"

definition LOCALSTACK_READY_MAX_RETRIES :: nat where
  "LOCALSTACK_READY_MAX_RETRIES = 30"

text \<open>\<open>data.get("services", {}).get("lambda") in ("available", "running", "ready")\<close>.\<close>

definition lambda_ready :: "json \<Rightarrow> bool res" where
  "lambda_ready data =
     bindR (jget_or data ''services'' (JObj [])) (\<lambda>services.
     bindR (jget_or services ''lambda'' JNull) (\<lambda>status.
       Inr (status \<in> {JStr ''available'', JStr ''running'', JStr ''ready''})))"

definition probe_localstack :: "'w machine \<Rightarrow> string \<Rightarrow> ('w, bool) io" where
  "probe_localstack m health_url =
     tryIO
       (bindIO (urlopen m health_url) (\<lambda>body.
        bindIO (liftIO (m_loads m body)) (\<lambda>data.
          liftIO (lambda_ready data))))
       (\<lambda>e. case e of OSError _ \<Rightarrow> retIO False | _ \<Rightarrow> raiseIO e)"

text \<open>The \<open>for\<close> loop, with the number of attempts left.\<close>

fun localstack_loop :: "'w machine \<Rightarrow> string \<Rightarrow> string \<Rightarrow> nat \<Rightarrow> ('w, unit) io" where
  "localstack_loop m endpoint health_url 0 =
     raiseIO (RuntimeError (''localstack not ready after 30s at '' @ endpoint))"
| "localstack_loop m endpoint health_url (Suc k) =
     bindIO (probe_localstack m health_url) (\<lambda>ready.
       if ready then retIO ()
       else bindIO (sleep m LOCALSTACK_READY_POLL_INTERVAL_SECONDS) (\<lambda>_.
              localstack_loop m endpoint health_url k))"

definition wait_for_localstack :: "'w machine \<Rightarrow> string \<Rightarrow> ('w, unit) io" where
  "wait_for_localstack m endpoint =
     localstack_loop m endpoint (endpoint @ ''/_localstack/health'') LOCALSTACK_READY_MAX_RETRIES"

definition verify_wait_for_function_active :: "'w machine \<Rightarrow> nat \<Rightarrow> client \<Rightarrow> string \<Rightarrow> ('w, unit) io" where
  "verify_wait_for_function_active m n lambda_client name =
     bindIO (monotonic m) (\<lambda>t.
       active_loop m n (t + FUNCTION_ACTIVE_MAX_WAIT_SECONDS) FUNCTION_ACTIVE_POLL_INTERVAL_SECONDS ''60''
         lambda_client name)"

definition delete_leftover :: "'w machine \<Rightarrow> client \<Rightarrow> ('w, unit) io" where
  "delete_leftover m lambda_client =
     tryIO (bindIO (aws m lambda_client (DeleteFunction FUNCTION_NAME)) (\<lambda>_. retIO ()))
       (\<lambda>e. case e of
          ClientError code msg \<Rightarrow> if code = ''ResourceNotFoundException'' then retIO () else raiseIO e
        | _ \<Rightarrow> raiseIO e)"

definition create_echo_function :: "'w machine \<Rightarrow> client \<Rightarrow> string \<Rightarrow> ('w, json) io" where
  "create_echo_function m lambda_client zip_bytes =
     aws m lambda_client (CreateFunction
       \<lparr>FunctionName = FUNCTION_NAME, Runtime = FUNCTION_RUNTIME, Role = JStr LOCALSTACK_ROLE_ARN,
        Handler = ''bootstrap'', ZipFile = zip_bytes, MemorySize = FUNCTION_MEMORY_MB,
        Timeout = FUNCTION_TIMEOUT_SECONDS, Architectures = [FUNCTION_ARCHITECTURE]\<rparr>)"

text \<open>From the reply of the invocation to the verdict.\<close>

definition check_response :: "'w machine \<Rightarrow> json \<Rightarrow> string \<Rightarrow> ('w, unit) io" where
  "check_response m response response_payload =
     bindIO (liftIO (jget_or response ''FunctionError'' (JStr []))) (\<lambda>function_error.
       if jtruthy function_error then
         bindIO (liftIO (decode_utf8 response_payload)) (\<lambda>body.
           exit_message (''Error: Lambda returned FunctionError='' @ py_repr function_error @ [CHR 0x0A] @
             ''Response body: '' @ body))
       else
         bindIO (liftIO (decode_utf8 response_payload)) (\<lambda>response_text.
         bindIO (tryIO (liftIO (m_loads m response_text)) (\<lambda>e. case e of
             JSONDecodeError _ \<Rightarrow> exit_message (''Error: response is not valid JSON: '' @ repr_str response_text)
           | _ \<Rightarrow> raiseIO e)) (\<lambda>response_data.
         bindIO (whenIO (\<not> py_eq response_data EXPECTED_RESPONSE)
           (exit_message (''FAIL: expected '' @ py_str EXPECTED_RESPONSE @ '', got '' @ py_str response_data))) (\<lambda>_.
           print_line ''PASS''))))"

text \<open>\<open>except Exception\<close> catches everything but \<open>SystemExit\<close>.\<close>

definition cleanup :: "'w machine \<Rightarrow> client \<Rightarrow> ('w, unit) io" where
  "cleanup m lambda_client =
     tryIO (bindIO (aws m lambda_client (DeleteFunction FUNCTION_NAME)) (\<lambda>_. retIO ()))
       (\<lambda>e. case e of SystemExit _ \<Rightarrow> raiseIO e | _ \<Rightarrow> retIO ())"

definition localstack_client :: "string \<Rightarrow> client" where
  "localstack_client endpoint =
     (''lambda'', [(''aws_access_key_id'', ''test''), (''aws_secret_access_key'', ''test''),
                   (''region_name'', ''us-east-1''), (''endpoint_url'', endpoint)])"

definition verify :: "'w machine \<Rightarrow> nat \<Rightarrow> string \<Rightarrow> string \<Rightarrow> ('w, unit) io" where
  "verify m n endpoint zip_path =
     bindIO (path_exists m zip_path) (\<lambda>found.
     bindIO (whenIO (\<not> found)
       (exit_message (''Error: '' @ zip_path @ '' not found. Run '' @ [CHR 0x27] @ ''make package'' @ [CHR 0x27] @ '' first.''))) (\<lambda>_.
     bindIO (wait_for_localstack m endpoint) (\<lambda>_.
     bindIO (new_client m (localstack_client endpoint)) (\<lambda>lambda_client.
     bindIO (read_file m zip_path) (\<lambda>zip_bytes.
     bindIO (delete_leftover m lambda_client) (\<lambda>_.
     bindIO (create_echo_function m lambda_client zip_bytes) (\<lambda>_.
     bindIO (verify_wait_for_function_active m n lambda_client FUNCTION_NAME) (\<lambda>_.
     bindIO (aws_invoke m lambda_client FUNCTION_NAME (m_dumps m TEST_EVENT) None) (\<lambda>(response, response_payload).
     bindIO (liftIO (jget_or response ''StatusCode'' (JInt 0))) (\<lambda>_.
     bindIO (check_response m response response_payload) (\<lambda>_.
       cleanup m lambda_client)))))))))))"

section \<open>invoke.py\<close>

definition DEFAULT_PAYLOAD :: "'w machine \<Rightarrow> string" where
  "DEFAULT_PAYLOAD m = m_dumps m (JObj [(''message'', JStr ''hello from lambpie''), (''number'', JInt 42)])"

record invoke_args =
  target :: string
  payload :: string
  invoke_region :: "string option"
  invoke_endpoint_url :: "string option"
  qualifier :: "string option"

definition default_invoke_args :: "'w machine \<Rightarrow> string \<Rightarrow> invoke_args" where
  "default_invoke_args m f =
     \<lparr>target = f, payload = DEFAULT_PAYLOAD m, invoke_region = None, invoke_endpoint_url = None,
      qualifier = None\<rparr>"

definition report_invocation :: "json \<Rightarrow> string \<Rightarrow> ('w, unit) io" where
  "report_invocation response response_payload =
     bindIO (liftIO (jget_or response ''StatusCode'' (JInt 0))) (\<lambda>http_status.
     bindIO (liftIO (jget_or response ''FunctionError'' (JStr []))) (\<lambda>function_error.
     bindIO (liftIO (decode_utf8 response_payload)) (\<lambda>response_text.
     bindIO (print_line response_text) (\<lambda>_.
       if jtruthy function_error then
         exit_message (''Error: Lambda returned FunctionError='' @ py_repr function_error @
           '' (HTTP '' @ py_str http_status @ '')'')
       else
         whenIO (http_status \<notin> {JInt 200, JInt 202, JInt 204})
           (exit_message (''Error: unexpected HTTP status '' @ py_str http_status @ '' from Lambda invoke''))))))"

definition invoke :: "'w machine \<Rightarrow> invoke_args \<Rightarrow> ('w, unit) io" where
  "invoke m args =
     bindIO (tryIO (liftIO (m_loads m (payload args))) (\<lambda>e. case e of
         JSONDecodeError t \<Rightarrow> exit_message (''Error: --payload is not valid JSON: '' @ t)
       | _ \<Rightarrow> raiseIO e)) (\<lambda>payload_obj.
     bindIO (new_client m (''lambda'', make_boto3_kwargs (invoke_region args) (invoke_endpoint_url args))) (\<lambda>lambda_client.
     bindIO (tryIO
       (aws_invoke m lambda_client (target args) (m_dumps m payload_obj)
         (if given (qualifier args) then qualifier args else None))
       (\<lambda>e. case e of
          ClientError _ _ \<Rightarrow> exit_message (''Error invoking '' @ target args @ '': '' @ m_str_exc m e)
        | _ \<Rightarrow> raiseIO e)) (\<lambda>(response, response_payload).
       report_invocation response response_payload)))"

end
