(* ===== verification/DeployProps.thy ===== *)
theory DeployProps
  imports Deploy
begin

text \<open>
  What \<open>deploy.py\<close> promises: its two polling loops end and make a bounded number of
  requests, the managed policy is attached to new roles only, and every run follows the
  deployment protocol, an automaton over the requests and their replies.
\<close>

section \<open>A simulated account\<close>

text \<open>A world that is its own clock, for the instances: the role is usable from second 10 on, a
  function is active from second 12 on, and asking for the function before second 1 finds none.\<close>

definition sim :: "rat machine" where
  "sim =
     \<lparr>m_monotonic = (\<lambda>w. (w, w)),
      m_sleep = (\<lambda>k w. w + k),
      m_exists = (\<lambda>p w. (True, w)),
      m_read = (\<lambda>p w. (Inr ''ELF'', w)),
      m_write = (\<lambda>p d w. (Inr (), w)),
      m_remove = (\<lambda>p w. (Inr (), w)),
      m_makedirs = (\<lambda>p w. (Inr (), w)),
      m_copy = (\<lambda>p q w. (Inr (), w)),
      m_getsize = (\<lambda>p w. (Inr 3, w)),
      m_run = (\<lambda>cmd env w. (Inr 0, w)),
      m_urlopen = (\<lambda>url w. (Inr [], w)),
      m_client = (\<lambda>c w. (Inr (), w)),
      m_aws = (\<lambda>c r w.
        (case r of
           GetFunction f \<Rightarrow>
             if w < 1 then Inl (ClientError ''ResourceNotFoundException'' [])
             else Inr (JObj [(''Configuration'', JObj [(''State'', JStr (if w < 12 then ''Pending'' else ''Active''))])])
         | CreateFunction q \<Rightarrow>
             if w < 10 then Inl (ClientError ''InvalidParameterValueException'' ''The role cannot be assumed by Lambda.'')
             else Inr (JObj [])
         | GetRole n \<Rightarrow> Inl (ClientError ''NoSuchEntity'' [])
         | CreateRole n p d \<Rightarrow> Inr (JObj [(''Role'', JObj [(''Arn'', JStr ''arn:role'')])])
         | _ \<Rightarrow> Inr (JObj []), w)),
      m_invoke = (\<lambda>c f p q w. (Inr (JObj [(''StatusCode'', JInt 200)], ''{}''), w)),
      m_loads = (\<lambda>t. Inr JNull),
      m_dumps = (\<lambda>j. ''{}''),
      m_dumps_indented = (\<lambda>j. ''{}''),
      m_services = [''sts''],
      m_load_service = (\<lambda>n. Inr (JObj [])),
      m_str_exc = (\<lambda>e. []),
      m_zip = (\<lambda>es. ''PK''),
      m_python = ''python3'',
      m_repo_root = ''/repo'',
      m_cwd = ''/''\<rparr>"

lemma sim_clock: "clock_law sim (\<lambda>w. w)"
  by (auto simp: clock_law_def sim_def split: aws_request.split)

abbreviation boot :: "rat sys" where
  "boot \<equiv> \<lparr>world = 0, trace = []\<rparr>"

text \<open>Running a computation in the simulated account.\<close>

lemmas run_simps = bindIO_def tryIO_def retIO_def liftIO_def whenIO_def raiseIO_def act_def
  monotonic_def sleep_def path_exists_def read_file_def new_client_def aws_def sim_def

lemmas constants = IAM_PROPAGATION_POLL_INTERVAL_SECONDS_def IAM_PROPAGATION_MAX_WAIT_SECONDS_def

section \<open>The polling loops end\<close>

definition creates :: "call \<Rightarrow> bool" where
  "creates c = (case c of Aws _ (CreateFunction _) \<Rightarrow> True | _ \<Rightarrow> False)"

definition lookups :: "call \<Rightarrow> bool" where
  "lookups c = (case c of Aws _ (GetFunction _) \<Rightarrow> True | _ \<Rightarrow> False)"

lemma creates_simps [simp]:
  "\<not> creates Monotonic" "\<not> creates (Sleep k)" "creates (Aws c (CreateFunction r))"
  "\<not> creates (Aws c (GetFunction f))"
  by (simp_all add: creates_def)

lemma lookups_simps [simp]:
  "\<not> lookups Monotonic" "\<not> lookups (Sleep k)" "lookups (Aws c (GetFunction f))"
  by (simp_all add: lookups_def)

text \<open>At the start of the iteration after \<open>k\<close> pauses, at least \<open>5 k\<close> seconds are gone.\<close>

lemma iam_loop_bounded:
  assumes "clock_law m now"
    and "deadline - 60 + 5 * of_nat k \<le> now (world s)" and "k \<le> 12" and "13 - k \<le> n"
  shows "wp (iam_loop m n deadline c req)
    (\<lambda>r s'. r \<noteq> OutOfFuel \<and> calls creates s' \<le> calls creates s + (13 - k)) s"
  using assms(2-)
proof (induction n arbitrary: k s)
  case 0
  then show ?case by simp
next
  case (Suc n)
  note now = clock_lawD [OF assms(1)]
  show ?case
    unfolding iam_loop.simps
  proof (rule wp_try, rule wp_outside(1), goal_cases)
    case (1 e w)
    have w: "deadline - 60 + 5 * of_nat k \<le> now w" using now(3) [OF 1] Suc.prems(1) by simp
    show ?case
    proof (auto intro!: wp_rules simp: Let_def, goal_cases)
      case (2 t1 w1 t2 w2)
      have t2: "deadline - 60 + 5 * of_nat k \<le> t2" "t2 \<le> now w2"
        using now(1) [OF 2(2)] now(1) [OF 2(3)] w by simp_all
      then have "(of_nat k :: rat) < 12" using 2(4) by simp
      then have k: "k < 12" by simp
      let ?u = "logged (logged (logged (logged s w (Aws c (CreateFunction req)) (RFail e))
        w1 Monotonic (RTime t1)) w2 Monotonic (RTime t2))
        (m_sleep m IAM_PROPAGATION_POLL_INTERVAL_SECONDS w2) (Sleep IAM_PROPAGATION_POLL_INTERVAL_SECONDS) RNone"
      have "now w2 + 5 \<le> now (world ?u)"
        using now(2) [of w2 5] by (simp add: IAM_PROPAGATION_POLL_INTERVAL_SECONDS_def)
      then have le: "deadline - 60 + 5 * of_nat (Suc k) \<le> now (world ?u)" using t2 by simp
      have room: "Suc k \<le> 12" "13 - Suc k \<le> n" using k Suc.prems(3) by simp_all
      show ?case by (rule wp_weaken [OF Suc.IH [OF le room]]) (use k in auto)
    qed (use Suc.prems(2) in simp_all)
  next
    case (2 j w)
    then show ?case using Suc.prems by simp
  qed
qed

lemma active_loop_bounded:
  assumes "clock_law m now" and "0 < interval" and "limit = of_nat K * interval"
    and "deadline - limit + interval * of_nat k \<le> now (world s)" and "k \<le> K + 1" and "K + 2 - k \<le> n"
  shows "wp (active_loop m n deadline interval txt c f)
    (\<lambda>r s'. r \<noteq> OutOfFuel \<and> calls lookups s' \<le> calls lookups s + (K + 2 - k)) s"
  using assms(4-)
proof (induction n arbitrary: k s)
  case 0
  then show ?case by simp
next
  case (Suc n)
  note now = clock_lawD [OF assms(1)]
  obtain b where b: "K + 2 - k = Suc b" "K + 2 - Suc k = b" using Suc.prems(2) by (cases "K + 2 - k") auto
  show ?case
    unfolding active_loop.simps b(1)
  proof (auto intro!: wp_rules, goal_cases)
    case (1 j w state conf t w1)
    let ?u = "logged (logged (logged s w (Aws c (GetFunction f)) (RJson j)) w1 Monotonic (RTime t))
      (m_sleep m interval w1) (Sleep interval) RNone"
    have t: "deadline - limit + interval * of_nat k \<le> t" "t \<le> now w1"
      using now(3) [OF 1(1)] now(1) [OF 1(6)] Suc.prems(1) by simp_all
    have "interval * of_nat k \<le> interval * of_nat K"
      using t(1) 1(7) assms(3) by (simp add: mult.commute)
    then have k: "k \<le> K" using assms(2) by simp
    have "now w1 + interval \<le> now (world ?u)" using now(2) by simp
    then have le: "deadline - limit + interval * of_nat (Suc k) \<le> now (world ?u)"
      using t by (simp add: distrib_left)
    have room: "Suc k \<le> K + 1" "K + 2 - Suc k \<le> n" using k Suc.prems(3) by simp_all
    show ?case by (rule wp_weaken [OF Suc.IH [OF le room]]) (use b in auto)
  qed
qed

lemma iam_wait_runs:
  assumes "clock_law m now" and "13 \<le> n"
  shows "wp (wait_for_iam_propagation m n c arn zb f mem tmo arch)
    (\<lambda>r s'. r \<noteq> OutOfFuel \<and> calls creates s' \<le> calls creates s + 13) s"
  unfolding wait_for_iam_propagation_def
proof (rule wp_bind, rule wp_calls(1), simp, goal_cases)
  case (1 t w)
  have start: "t + IAM_PROPAGATION_MAX_WAIT_SECONDS - 60 + 5 * of_nat 0 \<le> now (world (logged s w Monotonic (RTime t)))"
    using clock_lawD(1) [OF assms(1) 1] by (simp add: IAM_PROPAGATION_MAX_WAIT_SECONDS_def)
  show ?case
    by (rule wp_weaken [OF iam_loop_bounded [OF assms(1) start]]) (use assms(2) in auto)
qed

text \<open>Creating the function ends, whatever the service answers: on a clock that works, 13
  iterations are enough, and at most 13 requests are made.\<close>

theorem iam_wait_ends:
  assumes "clock_law m now" and "13 \<le> n"
    and "wait_for_iam_propagation m n c arn zb f mem tmo arch s = (r, s')"
  shows "r \<noteq> OutOfFuel \<and> calls creates s' \<le> calls creates s + 13"
  by (rule wpD [OF iam_wait_runs [OF assms(1,2)] assms(3)])

lemma iam_wait_ends_witness:
  "fst (wait_for_iam_propagation sim 13 (''lambda'', []) (JStr ''arn:role'') ''PK'' ''f'' 128 30 ''x86_64'' boot) \<noteq> OutOfFuel"
  using iam_wait_ends [OF sim_clock, of 13]
  by (metis order_refl prod.collapse)

lemma active_wait_runs:
  assumes "clock_law m now" and "62 \<le> n"
  shows "wp (wait_for_function_active m n c f)
    (\<lambda>r s'. r \<noteq> OutOfFuel \<and> calls lookups s' \<le> calls lookups s + 62) s"
  unfolding wait_for_function_active_def
proof (rule wp_bind, rule wp_calls(1), simp, goal_cases)
  case (1 t w)
  have start: "t + 120 - 120 + 2 * of_nat 0 \<le> now (world (logged s w Monotonic (RTime t)))"
    using clock_lawD(1) [OF assms(1) 1] by simp
  have limit: "(120 :: rat) = of_nat 60 * 2" by simp
  show ?case
    by (rule wp_weaken [OF active_loop_bounded [OF assms(1) _ limit start]]) (use assms(2) in auto)
qed

text \<open>Waiting for the function to become active ends: 62 iterations are enough, at most 62
  requests are made.\<close>

lemma active_wait_ends:
  assumes "clock_law m now" and "62 \<le> n"
    and "wait_for_function_active m n c f s = (r, s')"
  shows "r \<noteq> OutOfFuel \<and> calls lookups s' \<le> calls lookups s + 62"
  by (rule wpD [OF active_wait_runs [OF assms(1,2)] assms(3)])

section \<open>The role\<close>

lemma role_arn_of_error [simp]: "role_arn_of j = Inl (ClientError code msg) \<longleftrightarrow> False"
  by (auto simp: role_arn_of_def jget_def bindR_def split: json.splits option.splits sum.splits)

text \<open>C32: the managed policy is attached to a role exactly in the run that created it, after the
  lookup found no such role; an existing role is used as it is, every other failed lookup is raised
  again, and the ARN returned is the one the service gave.\<close>

theorem iam_role_policy:
  assumes "ensure_iam_role m c name s = (r, s')"
  shows "\<exists>evs. trace s' = trace s @ evs \<and> r \<noteq> OutOfFuel \<and>
    (\<forall>x. (Aws c (AttachRolePolicy name LAMBDA_BASIC_EXECUTION_POLICY_ARN), x) \<in> set evs \<longrightarrow>
       (\<exists>msg d t j. evs = [(Aws c (GetRole name), RFail (ClientError ''NoSuchEntity'' msg)),
          (Aws c (CreateRole name d t), RJson j),
          (Aws c (AttachRolePolicy name LAMBDA_BASIC_EXECUTION_POLICY_ARN), x)])) \<and>
    (\<forall>arn. r = Done arn \<longrightarrow>
       (\<exists>j. role_arn_of j = Inr arn \<and>
          (evs = [(Aws c (GetRole name), RJson j)] \<or>
           (\<exists>msg d t k. evs = [(Aws c (GetRole name), RFail (ClientError ''NoSuchEntity'' msg)),
              (Aws c (CreateRole name d t), RJson j),
              (Aws c (AttachRolePolicy name LAMBDA_BASIC_EXECUTION_POLICY_ARN), RJson k)])))) \<and>
    (\<forall>e. (Aws c (GetRole name), RFail e) \<in> set evs \<longrightarrow>
       r = Raised e \<or> (\<exists>msg. e = ClientError ''NoSuchEntity'' msg))"
    (is "?P r s'")
proof -
  have "wp (ensure_iam_role m c name) ?P s"
    unfolding ensure_iam_role_def
    by (auto intro!: wp_rules split: pyexc.split)
  from wpD [OF this assms] show ?thesis .
qed

lemma iam_role_policy_witness:
  "\<exists>evs. trace (snd (ensure_iam_role sim (''iam'', []) ''r'' boot)) = evs \<and> length evs = 3 \<and>
     fst (ensure_iam_role sim (''iam'', []) ''r'' boot) = Done (JStr ''arn:role'') \<and>
     fst (ensure_iam_role sim (''iam'', []) ''r'' boot) \<noteq> OutOfFuel"
proof -
  obtain r s' where run: "ensure_iam_role sim (''iam'', []) ''r'' boot = (r, s')" by (cases "ensure_iam_role sim (''iam'', []) ''r'' boot") auto
  have "r = Done (JStr ''arn:role'')" "length (trace s') = 3"
    using run by (auto simp: ensure_iam_role_def aws_def act_def bindIO_def tryIO_def retIO_def liftIO_def sim_def
      role_arn_of_def)
  then show ?thesis using iam_role_policy [OF run] run by simp
qed

section \<open>The protocol\<close>

text \<open>Phases of a deployment. A failed call ends it (\<open>Stopped\<close>), except the two failures
  the protocol waits for: the role that does not exist yet and the role that is not usable yet.\<close>

datatype phase =
    Building | Checking | Reading | Connecting | Roles | Present | Absent | Polling | Active | Stopped

definition says_active :: "json \<Rightarrow> bool" where
  "says_active j = (bindR (jget j ''Configuration'') (\<lambda>c. jget c ''State'') = Inr (JStr ''Active''))"

definition failed :: "reply \<Rightarrow> bool" where
  "failed r = (case r of RFail _ \<Rightarrow> True | _ \<Rightarrow> False)"

definition failed_with :: "string \<Rightarrow> reply \<Rightarrow> bool" where
  "failed_with code r = (case r of RFail (ClientError c _) \<Rightarrow> c = code | _ \<Rightarrow> False)"

definition unusable_role :: "reply \<Rightarrow> bool" where
  "unusable_role r = (case r of RFail e \<Rightarrow> not_propagated e | _ \<Rightarrow> False)"

definition unless_failed :: "phase \<Rightarrow> reply \<Rightarrow> phase" where
  "unless_failed p r = (if failed r then Stopped else p)"

definition roles_next :: "string \<Rightarrow> aws_request \<Rightarrow> reply \<Rightarrow> phase option" where
  "roles_next f q r =
     (case q of
        GetRole _ \<Rightarrow> Some (if failed_with ''NoSuchEntity'' r then Roles else unless_failed Roles r)
      | CreateRole _ _ _ \<Rightarrow> Some (unless_failed Roles r)
      | AttachRolePolicy _ _ \<Rightarrow> Some (unless_failed Roles r)
      | GetFunction g \<Rightarrow>
          if g = f
          then Some (if failed_with ''ResourceNotFoundException'' r then Absent else unless_failed Present r)
          else None
      | _ \<Rightarrow> None)"

definition polling_next :: "string \<Rightarrow> aws_request \<Rightarrow> reply \<Rightarrow> phase option" where
  "polling_next f q r =
     (if q = GetFunction f
      then Some (case r of RJson j \<Rightarrow> if says_active j then Active else Polling | _ \<Rightarrow> Stopped)
      else None)"

definition deploy_next :: "string \<Rightarrow> phase \<Rightarrow> event \<Rightarrow> phase option" where
  "deploy_next f p ev =
     (let (c, r) = ev in
      case p of
        Building \<Rightarrow>
          (case c of
             RunCommand _ _ \<Rightarrow> Some (if r = RInt 0 then Checking else Stopped)
           | PathExists _ \<Rightarrow> Some (if r = RBool True then Reading else Stopped)
           | _ \<Rightarrow> None)
      | Checking \<Rightarrow>
          (case c of PathExists _ \<Rightarrow> Some (if r = RBool True then Reading else Stopped) | _ \<Rightarrow> None)
      | Reading \<Rightarrow> (case c of ReadFile _ \<Rightarrow> Some (unless_failed Connecting r) | _ \<Rightarrow> None)
      | Connecting \<Rightarrow>
          (case c of NewClient (sv, _) \<Rightarrow> if sv = ''lambda'' then Some (unless_failed Roles r) else None | _ \<Rightarrow> None)
      | Roles \<Rightarrow>
          (case c of
             NewClient (sv, _) \<Rightarrow> if sv = ''iam'' then Some (unless_failed Roles r) else None
           | Aws _ q \<Rightarrow> roles_next f q r
           | _ \<Rightarrow> None)
      | Present \<Rightarrow>
          (case c of
             Aws _ (UpdateFunctionCode g _ _) \<Rightarrow> if g = f then Some (unless_failed Polling r) else None
           | _ \<Rightarrow> None)
      | Absent \<Rightarrow>
          (case c of
             Monotonic \<Rightarrow> Some Absent
           | Sleep _ \<Rightarrow> Some Absent
           | Aws _ (CreateFunction req) \<Rightarrow>
               if FunctionName req = f
               then Some (if unusable_role r then Absent else unless_failed Polling r)
               else None
           | _ \<Rightarrow> None)
      | Polling \<Rightarrow>
          (case c of
             Monotonic \<Rightarrow> Some Polling
           | Sleep _ \<Rightarrow> Some Polling
           | Aws _ q \<Rightarrow> polling_next f q r
           | _ \<Rightarrow> None)
      | Active \<Rightarrow> None
      | Stopped \<Rightarrow> None)"

definition deploy_final :: "phase \<Rightarrow> bool" where
  "deploy_final p \<longleftrightarrow> p = Active \<or> p = Stopped"

interpretation deployment: protocol "deploy_next f" deploy_final for f
  by unfold_locales (auto simp: deploy_final_def deploy_next_def)

text \<open>One equation per phase.\<close>

lemmas deploy_phases =
  deploy_next_def [of f Building "(c, r)" for f c r, simplified]
  deploy_next_def [of f Checking "(c, r)" for f c r, simplified]
  deploy_next_def [of f Reading "(c, r)" for f c r, simplified]
  deploy_next_def [of f Connecting "(c, r)" for f c r, simplified]
  deploy_next_def [of f Roles "(c, r)" for f c r, simplified]
  deploy_next_def [of f Present "(c, r)" for f c r, simplified]
  deploy_next_def [of f Absent "(c, r)" for f c r, simplified]
  deploy_next_def [of f Polling "(c, r)" for f c r, simplified]
  deploy_next_def [of f Active "(c, r)" for f c r, simplified]
  deploy_next_def [of f Stopped "(c, r)" for f c r, simplified]

lemmas deploy_defs = deploy_phases roles_next_def polling_next_def unless_failed_def failed_def
  failed_with_def unusable_role_def says_active_def

lemma build_lands:
  assumes "deployment.phase_at f t Building s = Some Building"
  shows "wp (build_phase m args) (deployment.lands f t Building (\<lambda>_. {Building, Checking})) s"
  unfolding build_phase_def
  using assms by (auto intro!: wp_rules simp: deploy_defs)

lemma role_lands:
  assumes "deployment.phase_at f t Building s = Some Roles"
  shows "wp (resolve_role m args) (deployment.lands f t Building (\<lambda>_. {Roles})) s"
  unfolding resolve_role_def ensure_iam_role_def
  using assms by (auto intro!: wp_rules simp: deploy_defs split: option.split pyexc.split)

lemma exists_lands:
  assumes "deployment.phase_at f t Building s = Some Roles"
  shows "wp (function_exists m c f) (deployment.lands f t Building (\<lambda>b. {if b then Present else Absent})) s"
  unfolding function_exists_def
  using assms by (auto intro!: wp_rules simp: deploy_defs split: pyexc.split)

lemma iam_loop_lands:
  assumes "FunctionName req = f" and "deployment.phase_at f t Building s = Some Absent"
  shows "wp (iam_loop m n deadline c req) (deployment.lands f t Building (\<lambda>_. {Polling})) s"
  using assms(2)
proof (induction n arbitrary: s)
  case 0
  then show ?case by (auto intro!: wp_rules)
next
  case (Suc n)
  show ?case
    unfolding iam_loop.simps
    using Suc.prems
    by (auto intro!: wp_rules Suc.IH simp: assms(1) deploy_defs Let_def)
qed

lemma iam_wait_lands:
  assumes "deployment.phase_at f t Building s = Some Absent"
  shows "wp (wait_for_iam_propagation m n c arn zb f mem tmo arch)
    (deployment.lands f t Building (\<lambda>_. {Polling})) s"
  unfolding wait_for_iam_propagation_def
  using assms by (auto intro!: wp_rules iam_loop_lands simp: deploy_defs)

lemma active_loop_lands:
  assumes "deployment.phase_at f t Building s = Some Polling"
  shows "wp (active_loop m n deadline interval txt c f) (deployment.lands f t Building (\<lambda>_. {Active})) s"
  using assms
proof (induction n arbitrary: s)
  case 0
  then show ?case by (auto intro!: wp_rules)
next
  case (Suc n)
  show ?case
    unfolding active_loop.simps
    using Suc.prems
    by (auto intro!: wp_rules Suc.IH simp: deploy_defs)
qed

lemma active_wait_lands:
  assumes "deployment.phase_at f t Building s = Some Polling"
  shows "wp (wait_for_function_active m n c f) (deployment.lands f t Building (\<lambda>_. {Active})) s"
  unfolding wait_for_function_active_def
  using assms by (auto intro!: wp_rules active_loop_lands simp: deploy_defs)

lemma update_lands:
  assumes "deployment.phase_at (function_name args) t Building s = Some Roles"
  shows "wp (update_or_create m n args zb c arn)
    (deployment.lands (function_name args) t Building (\<lambda>_. {Active})) s"
  unfolding update_or_create_def
proof (rule deployment.lands_bind, rule exists_lands [OF assms], goal_cases)
  case (1 b q s')
  then show ?case
    by (cases b) (auto intro!: wp_rules deployment.lands_then [OF iam_wait_lands] active_wait_lands
        simp: deploy_defs split: option.split)
qed

lemma deploy_lands:
  assumes "deployment.phase_at (function_name args) t Building s = Some Building"
  shows "wp (deploy m n args) (deployment.lands (function_name args) t Building (\<lambda>_. {Active})) s"
  unfolding deploy_def create_zip_def
proof (rule deployment.lands_bind, rule build_lands [OF assms], goal_cases)
  case (1 a q s')
  then show ?case
    by (auto intro!: wp_rules deployment.lands_then [OF role_lands] update_lands simp: deploy_defs)
qed

text \<open>C30: every run of \<open>deploy.py\<close> follows the deployment protocol, and it returns only
  after the service has reported the function as active: no request is made before the bootstrap
  was found and read, code is updated only when the lookup found the function, the function is created only
  when the lookup said it does not exist, creation is repeated only while the role cannot be
  assumed, and any other failure is the end of the run.\<close>

theorem deploy_follows_protocol:
  "\<exists>evs p. trace (snd (deploy m n args s)) = trace s @ evs \<and>
     accepts (deploy_next (function_name args)) Building evs = Some p \<and>
     (fst (deploy m n args s) = Done () \<longrightarrow> p = Active)"
proof -
  let ?f = "function_name args"
  have "wp (deploy m n args) (deployment.lands ?f (trace s) Building (\<lambda>_. {Active})) s"
    by (rule deploy_lands) simp
  from deployment.landsD [OF this] show ?thesis by simp
qed

text \<open>C31: with a working clock every run of \<open>deploy.py\<close> ends, whatever the services
  answer.\<close>

theorem deploy_ends:
  assumes "clock_law m now" and "62 \<le> n"
  shows "fst (deploy m n args s) \<noteq> OutOfFuel"
proof -
  have iam: "wp (wait_for_iam_propagation m n c arn zb f mem tmo arch) (\<lambda>r s'. r \<noteq> OutOfFuel) s" for c arn zb f mem tmo arch s
    by (rule wp_weaken [OF iam_wait_runs [OF assms(1)]]) (use assms(2) in auto)
  have active: "wp (wait_for_function_active m n c f) (\<lambda>r s'. r \<noteq> OutOfFuel) s" for c f s
    by (rule wp_weaken [OF active_wait_runs [OF assms]]) auto
  have role: "wp (resolve_role m args) (\<lambda>r s'. r \<noteq> OutOfFuel) s" for s
    unfolding resolve_role_def ensure_iam_role_def by (auto intro!: wp_rules split: option.split pyexc.split)
  have "exists": "wp (function_exists m c f) (\<lambda>r s'. r \<noteq> OutOfFuel) s" for c f s
    unfolding function_exists_def by (auto intro!: wp_rules split: pyexc.split)
  have update: "wp (update_or_create m n args zb c arn) (\<lambda>r s'. r \<noteq> OutOfFuel) s" for zb c arn s
    unfolding update_or_create_def
    by (intro wp_bind wp_on_done [OF "exists"] wp_if) (auto intro!: wp_rules wp_on_done [OF iam] active)
  have "wp (deploy m n args) (\<lambda>r s'. r \<noteq> OutOfFuel) s"
    unfolding deploy_def build_phase_def create_zip_def
    by (auto intro!: wp_rules wp_on_done [OF role] update)
  then show ?thesis by (simp add: wp_def)
qed

definition lab_args :: deploy_args where
  "lab_args = (default_deploy_args sim ''f'')\<lparr>create_role := Some ''r''\<rparr>"

lemma deploy_follows_protocol_witness:
  "fst (deploy sim 3 lab_args boot) = Done () \<and>
   accepts (deploy_next ''f'') Building (trace (snd (deploy sim 3 lab_args boot))) = Some Active"
proof -
  have "fst (deploy sim 3 lab_args boot) = Done ()"
    by (simp add: deploy_def build_phase_def create_zip_def resolve_role_def update_or_create_def
        function_exists_def wait_for_iam_propagation_def wait_for_function_active_def ensure_iam_role_def
        role_arn_of_def not_propagated_def given_def lab_args_def default_deploy_args_def jtruthy_def
        run_simps constants numeral_3_eq_3)
  with deploy_follows_protocol [of sim 3 lab_args boot] show ?thesis
    by (auto simp: lab_args_def default_deploy_args_def)
qed

text \<open>On a function that exists the options \<open>--memory\<close>, \<open>--timeout\<close> and
  \<open>--role\<close> have no effect.\<close>

lemma update_ignores_settings:
  assumes "m_aws m c (GetFunction (function_name args)) (world s) = (Inr j, w)"
  shows "update_or_create m n args zb c arn s =
    update_or_create m n (args\<lparr>memory := mem, timeout := tmo, role := r\<rparr>) zb c arn' s"
  using assms
  by (simp add: update_or_create_def function_exists_def bindIO_def tryIO_def aws_def act_def retIO_def)

lemma deploy_ends_witness: "fst (deploy sim 62 lab_args boot) \<noteq> OutOfFuel"
  by (rule deploy_ends [OF sim_clock]) simp

end
