(* ===== verification/VerifyProps.thy ===== *)
theory VerifyProps
  imports Verify DeployProps
begin

text \<open>
  What \<open>verify.py\<close> and \<open>invoke.py\<close> promise: the waits end, \<open>PASS\<close> means that
  the function answered with the expected document, and the exit status of an invocation tells
  success from failure.
\<close>

definition probes :: "call \<Rightarrow> bool" where
  "probes c = (case c of UrlOpen _ \<Rightarrow> True | _ \<Rightarrow> False)"

lemma probes_simps [simp]: "probes (UrlOpen u)" "\<not> probes (Sleep k)"
  by (simp_all add: probes_def)

lemma localstack_loop_bounded:
  "wp (localstack_loop m endpoint url k)
     (\<lambda>r s'. r \<noteq> OutOfFuel \<and> calls probes s' \<le> calls probes s + k) s"
proof (induction k arbitrary: s)
  case 0
  then show ?case by (auto intro!: wp_rules)
next
  case (Suc k)
  show ?case
    unfolding localstack_loop.simps probe_localstack_def
    by (auto intro!: wp_rules wp_weaken [OF Suc.IH] split: pyexc.split)
qed

text \<open>The state after \<open>k\<close> rounds of the loop whose probe found the service not ready.\<close>

fun not_ready_for :: "'w machine \<Rightarrow> string \<Rightarrow> nat \<Rightarrow> 'w sys \<Rightarrow> 'w sys option" where
  "not_ready_for m url 0 s = Some s"
| "not_ready_for m url (Suc k) s =
     (case probe_localstack m url s of
        (Done False, s') \<Rightarrow> not_ready_for m url k (snd (sleep m LOCALSTACK_READY_POLL_INTERVAL_SECONDS s'))
      | _ \<Rightarrow> None)"

lemma localstack_loop_returns:
  "fst (localstack_loop m endpoint url n s) = Done () \<longleftrightarrow>
     (\<exists>k t. k < n \<and> not_ready_for m url k s = Some t \<and> fst (probe_localstack m url t) = Done True)"
proof (induction n arbitrary: s)
  case (Suc n)
  let ?rhs = "\<lambda>n s. \<exists>k t. k < n \<and> not_ready_for m url k s = Some t \<and> fst (probe_localstack m url t) = Done True"
  obtain r s' where probe: "probe_localstack m url s = (r, s')" by (cases "probe_localstack m url s")
  show ?case
  proof (cases "r = Done False")
    case True
    let ?t = "snd (sleep m LOCALSTACK_READY_POLL_INTERVAL_SECONDS s')"
    have "fst (localstack_loop m endpoint url (Suc n) s) = fst (localstack_loop m endpoint url n ?t)"
      by (simp add: bindIO_def probe True sleep_def act_def)
    also have "\<dots> = Done () \<longleftrightarrow> ?rhs n ?t" by (rule Suc.IH)
    also have "\<dots> \<longleftrightarrow> ?rhs (Suc n) s"
    proof
      assume "?rhs n ?t"
      then obtain k t where "k < n" "not_ready_for m url k ?t = Some t" "fst (probe_localstack m url t) = Done True" by blast
      then show "?rhs (Suc n) s" by (intro exI [of _ "Suc k"] exI [of _ t]) (simp add: probe True)
    next
      assume "?rhs (Suc n) s"
      then obtain k t where k: "k < Suc n" "not_ready_for m url k s = Some t" "fst (probe_localstack m url t) = Done True" by blast
      then obtain i where "k = Suc i" using probe True by (cases k) auto
      with k show "?rhs n ?t" by (auto simp: probe True)
    qed
    finally show ?thesis .
  next
    case False
    have none: "not_ready_for m url (Suc k) s = None" for k
      using False probe by (auto split: run.split)
    have "?rhs (Suc n) s \<longleftrightarrow> r = Done True"
    proof
      assume "?rhs (Suc n) s"
      then obtain k t where k: "not_ready_for m url k s = Some t" "fst (probe_localstack m url t) = Done True" by blast
      then have "k = 0" using none by (cases k) auto
      with k probe show "r = Done True" by simp
    next
      assume "r = Done True"
      with probe show "?rhs (Suc n) s" by (intro exI [of _ 0] exI [of _ s]) simp
    qed
    then show ?thesis using False by (cases r) (auto simp: bindIO_def probe retIO_def)
  qed
qed (simp add: raiseIO_def)

text \<open>C34: waiting for localstack ends after at most 30 probes, and it returns exactly when one of
  the 30 finds the Lambda service ready after rounds in which it was not ready; otherwise it
  raises.\<close>

theorem localstack_wait_returns:
  "fst (wait_for_localstack m endpoint s) \<noteq> OutOfFuel \<and>
   calls probes (snd (wait_for_localstack m endpoint s)) \<le> calls probes s + 30 \<and>
   (fst (wait_for_localstack m endpoint s) = Done () \<longleftrightarrow>
     (\<exists>k t. k < 30 \<and> not_ready_for m (endpoint @ ''/_localstack/health'') k s = Some t \<and>
        fst (probe_localstack m (endpoint @ ''/_localstack/health'') t) = Done True))"
  using localstack_loop_bounded [of m endpoint "endpoint @ ''/_localstack/health''" LOCALSTACK_READY_MAX_RETRIES s]
    localstack_loop_returns [of m endpoint "endpoint @ ''/_localstack/health''" LOCALSTACK_READY_MAX_RETRIES s]
  by (simp add: wait_for_localstack_def LOCALSTACK_READY_MAX_RETRIES_def wp_def)

section \<open>Invocations\<close>

text \<open>The interaction of a successful invocation.\<close>

definition invocation_ok :: "'w machine \<Rightarrow> invoke_args \<Rightarrow> event list \<Rightarrow> bool" where
  "invocation_ok m args evs \<longleftrightarrow>
     (\<exists>c j response body.
        m_loads m (payload args) = Inr j \<and> utf8_valid [] body \<and>
        (\<exists>err. jget_or response ''FunctionError'' (JStr []) = Inr err \<and> \<not> jtruthy err) \<and>
        jget_or response ''StatusCode'' (JInt 0) \<in> Inr ` {JInt 200, JInt 202, JInt 204} \<and>
        evs = [(NewClient c, RNone),
               (Aws c (Invoke (target args) (m_dumps m j)
                  (if given (qualifier args) then qualifier args else None)), RInvoke response body),
               (Print body, RNone)])"

text \<open>C35: \<open>invoke.py\<close> ends without an error exactly when the payload is JSON and the service
  answers without a \<open>FunctionError\<close> and with status 200, 202 or 204; it sends the payload
  it parsed, once, and prints the body before it judges the reply.\<close>

theorem invoke_succeeds:
  "\<exists>evs. trace (snd (invoke m args s)) = trace s @ evs \<and>
     (fst (invoke m args s) = Done () \<longleftrightarrow> invocation_ok m args evs)"
proof -
  have "wp (invoke m args) (\<lambda>r s'. \<exists>evs. trace s' = trace s @ evs \<and>
     (r = Done () \<longleftrightarrow> invocation_ok m args evs)) s"
    unfolding invoke_def report_invocation_def invocation_ok_def
    by (auto intro!: wp_rules split: pyexc.split)
  then show ?thesis by (simp add: wp_def)
qed

section \<open>The protocol of a verification\<close>

text \<open>\<open>Judging\<close> holds the reply of the invocation.\<close>

datatype vphase =
    Looking | Probing | Opening | Deleting | Creating | Waiting | Invoking | Judging json string | Passed
  | Finished | Aborted

definition expected_reply :: "(string \<Rightarrow> json res) \<Rightarrow> json \<Rightarrow> string \<Rightarrow> bool" where
  "expected_reply loads response body \<longleftrightarrow>
     (\<exists>err. jget_or response ''FunctionError'' (JStr []) = Inr err \<and> \<not> jtruthy err) \<and>
     (\<exists>data. loads body = Inr data \<and> py_eq data EXPECTED_RESPONSE)"

definition verify_next :: "(string \<Rightarrow> json res) \<Rightarrow> string \<Rightarrow> vphase \<Rightarrow> event \<Rightarrow> vphase option" where
  "verify_next loads event_text p ev =
     (let (c, r) = ev; after = (\<lambda>q. Some (if failed r then Aborted else q)) in
      case p of
        Looking \<Rightarrow> (case c of PathExists _ \<Rightarrow> Some (if r = RBool True then Probing else Aborted) | _ \<Rightarrow> None)
      | Probing \<Rightarrow>
          (case c of
             UrlOpen _ \<Rightarrow> Some Probing
           | Sleep _ \<Rightarrow> Some Probing
           | NewClient _ \<Rightarrow> after Opening
           | _ \<Rightarrow> None)
      | Opening \<Rightarrow> (case c of ReadFile _ \<Rightarrow> after Deleting | _ \<Rightarrow> None)
      | Deleting \<Rightarrow>
          (case c of
             Aws _ (DeleteFunction f) \<Rightarrow>
               if f = FUNCTION_NAME
               then (if failed_with ''ResourceNotFoundException'' r then Some Creating else after Creating) else None
           | _ \<Rightarrow> None)
      | Creating \<Rightarrow>
          (case c of
             Aws _ (CreateFunction req) \<Rightarrow> if FunctionName req = FUNCTION_NAME then after Waiting else None
           | _ \<Rightarrow> None)
      | Waiting \<Rightarrow>
          (case c of
             Monotonic \<Rightarrow> Some Waiting
           | Sleep _ \<Rightarrow> Some Waiting
           | Aws _ (GetFunction f) \<Rightarrow>
               if f = FUNCTION_NAME
               then Some (case r of RJson j \<Rightarrow> if says_active j then Invoking else Waiting | _ \<Rightarrow> Aborted)
               else None
           | _ \<Rightarrow> None)
      | Invoking \<Rightarrow>
          (case c of
             Aws _ (Invoke f d q) \<Rightarrow>
               if f = FUNCTION_NAME \<and> d = event_text
               then Some (case r of RInvoke j b \<Rightarrow> Judging j b | _ \<Rightarrow> Aborted) else None
           | _ \<Rightarrow> None)
      | Judging j b \<Rightarrow> (case c of Print t \<Rightarrow> if t = ''PASS'' \<and> expected_reply loads j b then Some Passed else None | _ \<Rightarrow> None)
      | Passed \<Rightarrow> (case c of Aws _ (DeleteFunction f) \<Rightarrow> if f = FUNCTION_NAME then Some Finished else None | _ \<Rightarrow> None)
      | Finished \<Rightarrow> None
      | Aborted \<Rightarrow> None)"

definition verify_final :: "vphase \<Rightarrow> bool" where
  "verify_final p \<longleftrightarrow> p = Finished \<or> p = Aborted"

interpretation verification: protocol "verify_next loads event_text" verify_final for loads event_text
  by unfold_locales (auto simp: verify_final_def verify_next_def Let_def)

lemmas verify_phases =
  verify_next_def [of l e Looking "(c, r)" for l e c r, simplified]
  verify_next_def [of l e Probing "(c, r)" for l e c r, simplified]
  verify_next_def [of l e Opening "(c, r)" for l e c r, simplified]
  verify_next_def [of l e Deleting "(c, r)" for l e c r, simplified]
  verify_next_def [of l e Creating "(c, r)" for l e c r, simplified]
  verify_next_def [of l e Waiting "(c, r)" for l e c r, simplified]
  verify_next_def [of l e Invoking "(c, r)" for l e c r, simplified]
  verify_next_def [of l e "Judging j b" "(c, r)" for l e j b c r, simplified]
  verify_next_def [of l e Passed "(c, r)" for l e c r, simplified]

lemmas verify_defs = verify_phases failed_def failed_with_def

lemma localstack_lands:
  assumes "verification.phase_at (m_loads m) (m_dumps m TEST_EVENT) t Looking s = Some Probing"
  shows "wp (localstack_loop m endpoint url k) (verification.lands (m_loads m) (m_dumps m TEST_EVENT) t Looking (\<lambda>_. {Probing})) s"
  using assms
proof (induction k arbitrary: s)
  case 0
  then show ?case by (auto intro!: wp_rules)
next
  case (Suc k)
  show ?case
    unfolding localstack_loop.simps probe_localstack_def
    using Suc.prems by (auto intro!: wp_rules Suc.IH simp: verify_defs split: pyexc.split)
qed

lemma verify_active_lands:
  assumes "verification.phase_at (m_loads m) (m_dumps m TEST_EVENT) t Looking s = Some Waiting"
  shows "wp (active_loop m n deadline interval txt c FUNCTION_NAME) (verification.lands (m_loads m) (m_dumps m TEST_EVENT) t Looking (\<lambda>_. {Invoking})) s"
  using assms
proof (induction n arbitrary: s)
  case 0
  then show ?case by (auto intro!: wp_rules)
next
  case (Suc n)
  show ?case
    unfolding active_loop.simps
    using Suc.prems
    by (auto intro!: wp_rules Suc.IH simp: verify_defs says_active_def)
qed

lemma judge_lands:
  assumes "verification.phase_at (m_loads m) (m_dumps m TEST_EVENT) t Looking s = Some (Judging response body)"
  shows "wp (check_response m response body) (verification.lands (m_loads m) (m_dumps m TEST_EVENT) t Looking (\<lambda>_. {Passed})) s"
  unfolding check_response_def
  using assms by (auto intro!: wp_rules simp: verify_defs expected_reply_def split: pyexc.split)

lemma verify_lands:
  assumes "verification.phase_at (m_loads m) (m_dumps m TEST_EVENT) t Looking s = Some Looking"
  shows "wp (verify m n endpoint zip_path) (verification.lands (m_loads m) (m_dumps m TEST_EVENT) t Looking (\<lambda>_. {Finished})) s"
  unfolding verify_def wait_for_localstack_def delete_leftover_def create_echo_function_def
    verify_wait_for_function_active_def cleanup_def
  using assms
  by (auto intro!: wp_rules verification.lands_then [OF localstack_lands]
      verification.lands_then [OF verify_active_lands] verification.lands_then [OF judge_lands]
      simp: verify_defs split: pyexc.split)

text \<open>C33: every run of \<open>verify.py\<close> follows its protocol and returns only in its last
  phase: the function is created after a leftover was deleted, invoked with the test event once
  it is active, and \<open>PASS\<close> is printed only for a reply without an error whose body is the
  expected document.\<close>

theorem verify_follows_protocol:
  "\<exists>evs p. trace (snd (verify m n endpoint zip_path s)) = trace s @ evs \<and>
     accepts (verify_next (m_loads m) (m_dumps m TEST_EVENT)) Looking evs = Some p \<and>
     (fst (verify m n endpoint zip_path s) = Done () \<longrightarrow> p = Finished)"
proof -
  have "wp (verify m n endpoint zip_path) (verification.lands (m_loads m) (m_dumps m TEST_EVENT) (trace s) Looking (\<lambda>_. {Finished})) s"
    by (rule verify_lands) simp
  from verification.landsD [OF this] show ?thesis by simp
qed

text \<open>The simulated account with localstack in front and an echo function that answers as
  expected.\<close>

definition sim_echo :: "rat machine" where
  "sim_echo = sim
     \<lparr>m_loads := (\<lambda>t. Inr (if t = ''echo'' then
          JObj [(''doubled'', JInt 84), (''status'', JStr ''ok''), (''echo'', JStr ''hello from lambpie'')]
        else JObj [(''services'', JObj [(''lambda'', JStr ''running'')])])),
      m_invoke := (\<lambda>c f p q w. (Inr (JObj [(''StatusCode'', JInt 200)], ''echo''), w))\<rparr>"

lemma verify_follows_protocol_witness:
  "fst (verify sim_echo 1 ''http://localhost:4577'' ''function.zip'' \<lparr>world = 20, trace = []\<rparr>) = Done () \<and>
   accepts (verify_next (m_loads sim_echo) (m_dumps sim_echo TEST_EVENT)) Looking
     (trace (snd (verify sim_echo 1 ''http://localhost:4577'' ''function.zip'' \<lparr>world = 20, trace = []\<rparr>))) = Some Finished"
proof -
  have "fst (verify sim_echo 1 ''http://localhost:4577'' ''function.zip'' \<lparr>world = 20, trace = []\<rparr>) = Done ()"
    by (simp add: verify_def wait_for_localstack_def LOCALSTACK_READY_MAX_RETRIES_def numeral_eq_Suc
        probe_localstack_def lambda_ready_def jget_or_def delete_leftover_def create_echo_function_def
        verify_wait_for_function_active_def check_response_def cleanup_def decode_utf8_def jtruthy_def
        EXPECTED_RESPONSE_def urlopen_def aws_invoke_def print_line_def sim_echo_def run_simps)
  with verify_follows_protocol [of sim_echo 1 "''http://localhost:4577''" "''function.zip''" "\<lparr>world = 20, trace = []\<rparr>"]
  show ?thesis by auto
qed

end
