(* ===== verification/CompilerMeta.thy ===== *)
theory CompilerMeta
  imports CompilerModuleFlow CompilerInvariants CompilerSample
begin

text \<open>
  The metadata of a compiled handler: class layouts and types are never dropped, so
  \<open>get_metadata\<close> finds what the synthesis of the entry points has checked.
\<close>

definition keeps_classes :: "cstate \<Rightarrow> cstate \<Rightarrow> bool" where
  "keeps_classes s t \<longleftrightarrow>
     set (dict_keys (cs_layouts s)) \<subseteq> set (dict_keys (cs_layouts t)) \<and>
     set (dict_keys (cs_types s)) \<subseteq> set (dict_keys (cs_types t))"

lemma cstep_keeps_classes: "cstep L s t \<Longrightarrow> keeps_classes s t"
  by (induction rule: cstep.induct) (auto simp: keeps_classes_def push_instr_def simp del: set_map)

lemma csteps_keeps_classes: "csteps L s t \<Longrightarrow> keeps_classes s t"
proof (induction rule: rtranclp_induct)
  case base
  show ?case by (simp add: keeps_classes_def)
next
  case (step t u)
  from cstep_keeps_classes [OF step(2)] step(3) show ?case unfolding keeps_classes_def by blast
qed

lemma keys_get: "k \<in> set (dict_keys d) \<longleftrightarrow> (\<exists>v. dict_get d k = Some v)"
  using dict_keys_get [of k d] by auto

lemma entry_checks:
  assumes "synthesize_lambda_entry L s1 = Inr ((), s)"
  obtains h ev resp where "cs_handle s1 = Some h" "handle_types h = Inr (ev, resp)"
    "ev \<in> set (dict_keys (cs_layouts s1))" "resp \<in> set (dict_keys (cs_layouts s1))"
    "''int'' \<in> set (dict_keys (cs_types s1))"
proof -
  from assms show ?thesis
    unfolding synthesize_lambda_entry_def
    by (auto simp: require_class_def layout_get_def types_get_def keys_get simp del: set_map
        split: option.splits if_splits intro: that)
qed

lemma fields_dict_keys:
  "dict_keys (fields_dict t layout) = filter (\<lambda>n. n \<noteq> ''__ref_count__'') (dict_keys layout)"
  by (induction layout) (auto simp: fields_dict_def)

lemma get_metadata_complete:
  assumes "cs_handle s = Some h" and "handle_types h = Inr (ev, resp)"
    and "dict_get (cs_types s) ''int'' = Some int_t"
    and "dict_get (cs_layouts s) ev = Some le" and "dict_get (cs_layouts s) resp = Some lr"
  shows "get_metadata s = Inr (Some \<lparr>md_event_type = ev, md_response_type = resp,
    md_event_fields = fields_dict int_t le, md_response_fields = fields_dict int_t lr\<rparr>, s)"
proof -
  obtain ps body returns where h: "h = (ps, body, returns)" by (cases h)
  obtain n a ps' r where shape: "ps = (n, Some a) # ps'" "returns = Some r" "target_name a = Inr ev" "target_name r = Inr resp"
    using assms(2) unfolding h handle_types_def
    by (auto split: list.splits option.splits prod.splits simp: bindR_Inr_iff)
  show ?thesis
    using assms by (simp add: get_metadata_def h shape types_get_def layout_get_def bindS_def getS_def liftS_def retS_def)
qed

lemma metadata_found:
  assumes "compile_program L triple builtin source = Inr s"
  shows "\<exists>h md le lr. cs_handle s = Some h \<and> get_metadata s = Inr (Some md, s) \<and>
    handle_types h = Inr (md_event_type md, md_response_type md) \<and>
    dict_get (cs_layouts s) (md_event_type md) = Some le \<and> dict_get (cs_layouts s) (md_response_type md) = Some lr \<and>
    dict_keys (md_event_fields md) = filter (\<lambda>n. n \<noteq> ''__ref_count__'') (dict_keys le) \<and>
    dict_keys (md_response_fields md) = filter (\<lambda>n. n \<noteq> ''__ref_count__'') (dict_keys lr)"
proof -
  obtain s1 where entry: "synthesize_lambda_entry L s1 = Inr ((), s)"
    using assms by (auto simp: compile_program_def compile_def bindR_Inr_iff)
  obtain h ev resp where h: "cs_handle s1 = Some h" "handle_types h = Inr (ev, resp)"
    and keys: "ev \<in> set (dict_keys (cs_layouts s1))" "resp \<in> set (dict_keys (cs_layouts s1))"
      "''int'' \<in> set (dict_keys (cs_types s1))"
    by (rule entry_checks [OF entry])
  have "defers s1 s" by (rule defers.withinD [OF defers.within_synthesize_lambda_entry entry])
  then have handle: "cs_handle s = Some h" using h by (simp add: defers_def)
  have "keeps_classes s1 s"
    by (rule csteps_keeps_classes [OF steps.withinD [OF steps.within_synthesize_lambda_entry entry]])
  then have "''int'' \<in> set (dict_keys (cs_types s))" "ev \<in> set (dict_keys (cs_layouts s))"
    "resp \<in> set (dict_keys (cs_layouts s))"
    using keys unfolding keeps_classes_def by blast+
  then obtain int_t le lr where "dict_get (cs_types s) ''int'' = Some int_t"
    "dict_get (cs_layouts s) ev = Some le" "dict_get (cs_layouts s) resp = Some lr"
    unfolding keys_get by blast
  from get_metadata_complete [OF handle h(2) this] this handle h(2) show ?thesis
    by (auto simp: fields_dict_keys)
qed

text \<open>C39: a compiled module always has metadata: \<open>get_metadata\<close> does not fail, names the two
  classes of the signature of \<open>handle\<close> and lists the fields of their layouts, in order and
  without the reference count.\<close>

theorem metadata_complete:
  assumes "compile_program L triple builtin source = Inr s"
  shows "\<exists>h md le lr. cs_handle s = Some h \<and> get_metadata s = Inr (Some md, s) \<and>
    handle_types h = Inr (md_event_type md, md_response_type md) \<and>
    dict_get (cs_layouts s) (md_event_type md) = Some le \<and> dict_get (cs_layouts s) (md_response_type md) = Some lr \<and>
    dict_keys (md_event_fields md) = filter (\<lambda>n. n \<noteq> ''__ref_count__'') (dict_keys le) \<and>
    dict_keys (md_response_fields md) = filter (\<lambda>n. n \<noteq> ''__ref_count__'') (dict_keys lr)"
  by (rule metadata_found [OF assms])

lemma metadata_complete_witness:
  "\<exists>s h md. compile_program std_llapi None [] digit_pie = Inr s \<and> cs_handle s = Some h \<and>
     get_metadata s = Inr (Some md, s) \<and> handle_types h = Inr (md_event_type md, md_response_type md)"
proof -
  obtain s where s: "compile_program std_llapi None [] digit_pie = Inr s" by (rule digit_result)
  from metadata_complete [OF s] s show ?thesis by blast
qed

end
