(* ===== verification/Build.thy ===== *)
theory Build
  imports ScriptIO OsPath
begin

text \<open>
  \<open>scripts/build.py\<close>, \<open>scripts/package.py\<close>, \<open>scripts/test.py\<close> and
  \<open>scripts/test_arena.py\<close>: sequences of commands and file operations.
\<close>

section \<open>build.py\<close>

definition TARGET_TRIPLE :: string where
  "TARGET_TRIPLE = ''x86_64-unknown-linux-gnu''"

definition COMPILER :: "'w machine \<Rightarrow> string" where
  "COMPILER m = path_join (m_repo_root m) ''compiler.py''"

definition SHIM_DIR :: "'w machine \<Rightarrow> string" where
  "SHIM_DIR m = path_join (path_join (m_repo_root m) ''runtime'') ''shim''"

definition run_cmd :: "'w machine \<Rightarrow> string list \<Rightarrow> (string, string) dict \<Rightarrow> ('w, unit) io" where
  "run_cmd m cmd env =
     bindIO (run_command m cmd env) (\<lambda>returncode. whenIO (returncode \<noteq> 0) (exit_code returncode))"

record build_args =
  source_file :: string
  output_dir :: string
  build_target :: string
  ir_only :: bool

definition default_build_args :: "'w machine \<Rightarrow> string \<Rightarrow> build_args" where
  "default_build_args m f =
     \<lparr>source_file = f, output_dir = path_join (m_repo_root m) ''target'', build_target = TARGET_TRIPLE,
      ir_only = False\<rparr>"

definition source_base :: "'w machine \<Rightarrow> build_args \<Rightarrow> string" where
  "source_base m args = path_root (basename (abspath (m_cwd m) (source_file args)))"

definition out_path :: "'w machine \<Rightarrow> build_args \<Rightarrow> string \<Rightarrow> string" where
  "out_path m args name = path_join (abspath (m_cwd m) (output_dir args)) name"

definition compile_cmd :: "'w machine \<Rightarrow> build_args \<Rightarrow> string list" where
  "compile_cmd m args =
     [m_python m, COMPILER m, abspath (m_cwd m) (source_file args), ''-o'', out_path m args (source_base m args)]"

definition llc_cmd :: "'w machine \<Rightarrow> build_args \<Rightarrow> string list" where
  "llc_cmd m args =
     [''llc'', out_path m args (source_base m args @ ''.ll''), ''-filetype=obj'', ''-o'',
      out_path m args (source_base m args @ ''.o''), ''-mtriple='' @ build_target args, ''-relocation-model=pic'']"

definition cargo_cmd :: "'w machine \<Rightarrow> build_args \<Rightarrow> string list" where
  "cargo_cmd m args =
     [''cargo'', ''build'', ''--release'', ''--target'', build_target args,
      ''--manifest-path'', path_join (SHIM_DIR m) ''Cargo.toml'',
      ''--target-dir'', out_path m args ''cargo-target'']"

definition cargo_env :: "'w machine \<Rightarrow> build_args \<Rightarrow> (string, string) dict" where
  "cargo_env m args = [(''LAMBPIE_HANDLER_OBJ'', out_path m args (source_base m args @ ''.o''))]"

definition bootstrap_src :: "'w machine \<Rightarrow> build_args \<Rightarrow> string" where
  "bootstrap_src m args =
     path_join (path_join (path_join (out_path m args ''cargo-target'') (build_target args)) ''release'') ''bootstrap''"

definition install_bootstrap :: "'w machine \<Rightarrow> build_args \<Rightarrow> ('w, unit) io" where
  "install_bootstrap m args =
     (let dst = out_path m args ''bootstrap'' in
      bindIO (copy_file m (bootstrap_src m args) dst) (\<lambda>_.
        tryIO
          (bindIO (run_cmd m [''strip'', ''-s'', dst] []) (\<lambda>_.
           bindIO (getsize m dst) (\<lambda>_. retIO ())))
          (\<lambda>e. if e = OSError ''FileNotFoundError''
               then bindIO (getsize m dst) (\<lambda>_. retIO ())
               else raiseIO e)))"

definition build_main :: "'w machine \<Rightarrow> build_args \<Rightarrow> ('w, unit) io" where
  "build_main m args =
     bindIO (makedirs m (abspath (m_cwd m) (output_dir args))) (\<lambda>_.
     bindIO (run_cmd m (compile_cmd m args) []) (\<lambda>_.
       if ir_only args then retIO ()
       else
         bindIO (run_cmd m (llc_cmd m args) []) (\<lambda>_.
         bindIO (run_cmd m (cargo_cmd m args) (cargo_env m args)) (\<lambda>_.
         bindIO (path_exists m (bootstrap_src m args)) (\<lambda>found.
           if found then install_bootstrap m args else retIO ())))))"

section \<open>package.py\<close>

text \<open>Opening the archive for writing creates it empty; it is completed when the block is left,
  without an entry when reading the bootstrap failed.\<close>

definition package_main :: "'w machine \<Rightarrow> string \<Rightarrow> string \<Rightarrow> ('w, unit) io" where
  "package_main m bootstrap_path output =
     bindIO (path_exists m bootstrap_path) (\<lambda>found.
     bindIO (whenIO (\<not> found) (exit_code 1)) (\<lambda>_.
     bindIO (makedirs m (dirname (abspath (m_cwd m) output))) (\<lambda>_.
     bindIO (write_file m output []) (\<lambda>_.
     bindIO (tryIO (read_file m bootstrap_path)
       (\<lambda>e. bindIO (write_file m output (m_zip m [])) (\<lambda>_. raiseIO e))) (\<lambda>content.
     bindIO (write_file m output (m_zip m [(''bootstrap'', 493 * 2 ^ 16, content)])) (\<lambda>_.
     bindIO (getsize m output) (\<lambda>_. retIO ())))))))"

section \<open>test.py\<close>

definition test_main :: "'w machine \<Rightarrow> string \<Rightarrow> ('w, unit) io" where
  "test_main m source =
     (let build_script = path_join (path_join (m_repo_root m) ''scripts'') ''build.py'';
          bootstrap = path_join (path_join (m_repo_root m) ''target'') ''bootstrap'';
          test_runtime = path_join (path_join (m_repo_root m) ''tests'') ''test_runtime.py''
      in
      bindIO (run_cmd m [m_python m, build_script, source] []) (\<lambda>_.
      bindIO (path_exists m bootstrap) (\<lambda>found.
      bindIO (whenIO (\<not> found) (exit_code 1)) (\<lambda>_.
        run_cmd m [m_python m, test_runtime, bootstrap] []))))"

section \<open>test_arena.py\<close>

text \<open>A backslash at the end of a line of the literal continues the line.\<close>

definition DOCKERFILE_ARENA_TEST :: string where
  "DOCKERFILE_ARENA_TEST =
     str_join [CHR 0x0A]
       [''FROM amazonlinux:2023 AS arena-test'', [],
        ''RUN dnf install -y gcc make && dnf clean all'', [],
        ''WORKDIR /src'', [],
        ''COPY runtime/src/arena.h    runtime/src/'',
        ''COPY runtime/src/arena.c    runtime/src/'',
        ''COPY runtime/tests/arena_stress_test.c runtime/tests/'', [],
        ''RUN gcc -std=c17 -Wall -Wextra -Werror         -o /arena_stress_test         runtime/tests/arena_stress_test.c         runtime/src/arena.c         -I runtime/src'', [],
        ''CMD ['' @ [CHR 0x22] @ ''/arena_stress_test'' @ [CHR 0x22] @ '']'', []]"

definition check_docker :: "'w machine \<Rightarrow> ('w, unit) io" where
  "check_docker m =
     bindIO (run_command m [''docker'', ''info''] []) (\<lambda>returncode. whenIO (returncode \<noteq> 0) (exit_code 1))"

definition dockerfile_path :: "'w machine \<Rightarrow> string" where
  "dockerfile_path m = path_join (m_repo_root m) ''Dockerfile.arena_test''"

definition run_arena_test :: "'w machine \<Rightarrow> ('w, unit) io" where
  "run_arena_test m =
     bindIO (write_file m (dockerfile_path m) DOCKERFILE_ARENA_TEST) (\<lambda>_.
     bindIO (run_cmd m [''docker'', ''build'', ''--no-cache=false'', ''-f'', dockerfile_path m,
       ''-t'', ''lambpie-arena-test:latest'', m_repo_root m] []) (\<lambda>_.
       run_cmd m [''docker'', ''run'', ''--rm'', ''--security-opt'', ''seccomp=unconfined'',
         ''lambpie-arena-test:latest''] []))"

definition remove_dockerfile :: "'w machine \<Rightarrow> ('w, unit) io" where
  "remove_dockerfile m =
     bindIO (path_exists m (dockerfile_path m)) (\<lambda>found.
       whenIO found (remove_file m (dockerfile_path m)))"

definition test_arena_main :: "'w machine \<Rightarrow> ('w, unit) io" where
  "test_arena_main m =
     bindIO (check_docker m) (\<lambda>_. finallyIO (run_arena_test m) (remove_dockerfile m))"

end
