(* ===== verification/BuildProps.thy ===== *)
theory BuildProps
  imports Build DeployProps "HOL-Library.Sublist"
begin

text \<open>
  What the build, packaging and test scripts promise: commands run in order and stop at the
  first failure with its exit code, both archives are the same, and the temporary Dockerfile
  does not survive.
\<close>

section \<open>The build pipeline\<close>

text \<open>The commands of a trace with their replies.\<close>

definition commands :: "event list \<Rightarrow> (string list \<times> reply) list" where
  "commands evs = concat (map (\<lambda>(c, r). case c of RunCommand cmd env \<Rightarrow> [(cmd, r)] | _ \<Rightarrow> []) evs)"

lemma commands_simps [simp]:
  "commands [] = []"
  "commands ((c, r) # evs) = (case c of RunCommand cmd env \<Rightarrow> [(cmd, r)] | _ \<Rightarrow> []) @ commands evs"
  "commands (evs @ evs') = commands evs @ commands evs'"
  by (simp_all add: commands_def)

definition pipeline :: "'w machine \<Rightarrow> build_args \<Rightarrow> string list list" where
  "pipeline m args =
     [compile_cmd m args, llc_cmd m args, cargo_cmd m args, [''strip'', ''-s'', out_path m args ''bootstrap'']]"

definition pipeline_ok :: "'w machine \<Rightarrow> build_args \<Rightarrow> unit run \<Rightarrow> event list \<Rightarrow> bool" where
  "pipeline_ok m args r evs \<longleftrightarrow>
     prefix (map fst (commands evs)) (pipeline m args) \<and>
     (\<forall>c \<in> set (butlast (commands evs)). snd c = RInt 0) \<and>
     (ir_only args \<longrightarrow> length (commands evs) \<le> 1) \<and>
     (r = Done () \<and> \<not> ir_only args \<longrightarrow> 3 \<le> length (commands evs)) \<and>
     (\<forall>c \<in> set (commands evs). \<forall>n. snd c = RInt n \<and> n \<noteq> 0 \<longrightarrow> r = Raised (SystemExit (ExitCode n)))"

text \<open>C36: \<open>build.py\<close> runs a prefix of compiler, \<open>llc\<close>, \<open>cargo\<close>,
  \<open>strip\<close>, each after the ones before it have succeeded; with \<open>--ir-only\<close> it stops
  after the compiler, otherwise it returns only after the first three; a command that fails is
  the last one and its exit code is the script's.\<close>

theorem build_runs_pipeline:
  "\<exists>evs. trace (snd (build_main m args s)) = trace s @ evs \<and>
     pipeline_ok m args (fst (build_main m args s)) evs"
proof -
  have "wp (build_main m args) (\<lambda>r s'. \<exists>evs. trace s' = trace s @ evs \<and> pipeline_ok m args r evs) s"
    unfolding build_main_def run_cmd_def install_bootstrap_def Let_def pipeline_def pipeline_ok_def
    by (auto intro!: wp_rules)
  then show ?thesis by (simp add: wp_def)
qed

text \<open>\<open>build.py\<close> returns normally, installing nothing, when all its commands succeed but
  \<open>cargo\<close> has left no bootstrap binary.\<close>

theorem build_ok_without_bootstrap:
  assumes "\<not> ir_only args"
    and "\<And>p w. fst (m_makedirs m p w) = Inr ()" and "\<And>cmd env w. fst (m_run m cmd env w) = Inr 0"
    and "\<And>w. \<not> fst (m_exists m (bootstrap_src m args) w)"
  shows "fst (build_main m args s) = Done () \<and>
    (\<forall>p q r. (CopyFile p q, r) \<in> set (trace (snd (build_main m args s))) \<longrightarrow> (CopyFile p q, r) \<in> set (trace s))"
proof -
  have made: "m_makedirs m p w = (Inl e, w') \<longleftrightarrow> False" for p w e w' using assms(2) [of p w] by auto
  have ran: "m_run m cmd env w = (Inl e, w') \<longleftrightarrow> False" "m_run m cmd env w = (Inr k, w') \<Longrightarrow> k = 0"
    for cmd env w e w' k using assms(3) [of cmd env w] by auto
  have missing: "m_exists m (bootstrap_src m args) w = (True, w') \<longleftrightarrow> False" for w w' using assms(4) [of w] by auto
  have "wp (build_main m args) (\<lambda>r s'. r = Done () \<and>
      (\<forall>p q x. (CopyFile p q, x) \<in> set (trace s') \<longrightarrow> (CopyFile p q, x) \<in> set (trace s))) s"
    unfolding build_main_def run_cmd_def
    using assms(1) by (auto intro!: wp_rules simp: made ran missing)
  then show ?thesis by (simp add: wp_def)
qed

text \<open>The simulated machine with commands that succeed and no bootstrap.\<close>

definition sim_empty :: "rat machine" where
  "sim_empty = sim\<lparr>m_exists := (\<lambda>p w. (False, w))\<rparr>"

lemma build_ok_without_bootstrap_witness:
  "fst (build_main sim_empty (default_build_args sim_empty ''echo.pie'') boot) = Done () \<and>
   (\<forall>p q r. (CopyFile p q, r) \<notin> set (trace (snd (build_main sim_empty (default_build_args sim_empty ''echo.pie'') boot))))"
  using build_ok_without_bootstrap [of "default_build_args sim_empty ''echo.pie''" sim_empty boot]
  by (simp add: sim_empty_def sim_def default_build_args_def)

lemma build_runs_pipeline_witness:
  "fst (build_main sim (default_build_args sim ''echo.pie'') boot) = Done () \<and>
   prefix (map fst (commands (trace (snd (build_main sim (default_build_args sim ''echo.pie'') boot)))))
     (pipeline sim (default_build_args sim ''echo.pie''))"
  using build_runs_pipeline [of sim "default_build_args sim ''echo.pie''" boot]
  by (auto simp: pipeline_ok_def build_main_def run_cmd_def install_bootstrap_def default_build_args_def Let_def
      makedirs_def run_command_def copy_file_def getsize_def run_simps)

section \<open>Packages\<close>

text \<open>When \<open>package.py\<close> returns, what it last wrote to its output is the archive
  \<open>deploy.py\<close> would upload for the bootstrap it read.\<close>

lemma package_is_deployment_archive:
  assumes "package_main m bootstrap_path output s = (Done (), s')"
  shows "\<exists>evs content size. trace s' = trace s @ evs @
    [(ReadFile bootstrap_path, RData content),
     (WriteFile output (bootstrap_archive m content), RNone), (GetSize output, RInt size)] \<and>
    (\<forall>u u'. m_read m bootstrap_path (world u) = (Inr content, u') \<longrightarrow>
       fst (create_zip m bootstrap_path u) = Done (bootstrap_archive m content))"
proof -
  have "wp (package_main m bootstrap_path output) (\<lambda>r s'. r = Done () \<longrightarrow>
      (\<exists>evs content size. trace s' = trace s @ evs @
        [(ReadFile bootstrap_path, RData content),
         (WriteFile output (bootstrap_archive m content), RNone), (GetSize output, RInt size)])) s"
    unfolding package_main_def
    by (auto intro!: wp_rules simp: bootstrap_archive_def)
  from wpD [OF this assms] show ?thesis
    by (fastforce simp: create_zip_def read_file_def act_def bindIO_def retIO_def)
qed

lemma package_is_deployment_archive_witness:
  "\<exists>evs content size. trace (snd (package_main sim ''b'' ''f.zip'' boot)) = evs @
    [(ReadFile ''b'', RData content), (WriteFile ''f.zip'' ''PK'', RNone), (GetSize ''f.zip'', RInt size)]"
proof -
  obtain s' where run: "package_main sim ''b'' ''f.zip'' boot = (Done (), s')"
    by (auto simp: package_main_def write_file_def makedirs_def getsize_def run_simps)
  from package_is_deployment_archive [OF this] run show ?thesis
    by (auto simp: bootstrap_archive_def sim_def)
qed

section \<open>The arena test\<close>

definition cleaned_up :: "string \<Rightarrow> event list \<Rightarrow> bool" where
  "cleaned_up p evs \<longleftrightarrow>
     (\<exists>before. evs = before @ [(PathExists p, RBool False)] \<or>
        (\<exists>x. evs = before @ [(PathExists p, RBool True), (RemoveFile p, x)]))"

text \<open>C40: once Docker answers, \<open>test_arena.py\<close> ends by looking for the temporary
  Dockerfile and removing it if it is there, however the build and the test went.\<close>

theorem arena_test_cleans_up:
  assumes "test_arena_main m s = (r, s')"
  shows "\<exists>reply evs. trace s' = trace s @ (RunCommand [''docker'', ''info''] [], reply) # evs \<and>
    (reply = RInt 0 \<longrightarrow> cleaned_up (dockerfile_path m) evs)"
proof -
  have "wp (test_arena_main m) (\<lambda>r s'. \<exists>reply evs.
      trace s' = trace s @ (RunCommand [''docker'', ''info''] [], reply) # evs \<and>
      (reply = RInt 0 \<longrightarrow> cleaned_up (dockerfile_path m) evs)) s"
    unfolding test_arena_main_def check_docker_def run_arena_test_def run_cmd_def remove_dockerfile_def cleaned_up_def
    by (auto intro!: wp_rules wp_finally)
  from wpD [OF this assms] show ?thesis .
qed

text \<open>The simulated machine with a Docker whose build fails.\<close>

definition sim_docker :: "rat machine" where
  "sim_docker = sim\<lparr>m_run := (\<lambda>cmd env w. (Inr (if cmd = [''docker'', ''info''] then 0 else 1), w))\<rparr>"

lemma arena_test_cleans_up_witness:
  "fst (test_arena_main sim_docker boot) = Raised (SystemExit (ExitCode 1)) \<and>
   cleaned_up ''/repo/Dockerfile.arena_test'' (tl (trace (snd (test_arena_main sim_docker boot))))"
proof -
  obtain s' where run: "test_arena_main sim_docker boot = (Raised (SystemExit (ExitCode 1)), s')"
    and first: "hd (trace s') = (RunCommand [''docker'', ''info''] [], RInt 0)"
    by (auto simp: test_arena_main_def check_docker_def run_arena_test_def run_cmd_def remove_dockerfile_def
        finallyIO_def exit_code_def run_command_def write_file_def remove_file_def sim_docker_def run_simps)
  have "dockerfile_path sim_docker = ''/repo/Dockerfile.arena_test''" by code_simp
  with arena_test_cleans_up [OF run] first run show ?thesis by auto
qed

end
