(* ===== verification/CommandLines.thy ===== *)
theory CommandLines
  imports CompilerMeta PieGen BuildProps
begin

text \<open>
  The \<open>main\<close> functions of \<open>compiler.py\<close> and \<open>scripts/parse_models.py\<close>,
  after \<open>argparse\<close>: reading the inputs, running the component, writing its result. Python's
  own parser (\<open>ast.parse\<close>), the text llvmlite prints for a module and the text
  \<open>json.dump\<close> writes are functions of the record \<open>frontend\<close>.
\<close>

section \<open>compiler.py\<close>

record frontend =
  f_ast :: "string \<Rightarrow> stmt list res"
  f_module_text :: "cstate \<Rightarrow> string"
  f_metadata_text :: "metadata \<Rightarrow> string"

record compiler_args =
  ca_source_file :: string
  ca_output_name :: string
  ca_target_triple :: "string option"

definition default_compiler_args :: "string \<Rightarrow> compiler_args" where
  "default_compiler_args f = \<lparr>ca_source_file = f, ca_output_name = ''handler'', ca_target_triple = None\<rparr>"

definition builtin_path :: "'w machine \<Rightarrow> string" where
  "builtin_path m = path_join (m_repo_root m) ''builtins.pie''"

definition metadata_of :: "cstate \<Rightarrow> metadata option res" where
  "metadata_of st = bindR (get_metadata st) (\<lambda>(md, st'). Inr md)"

definition save_module :: "'w machine \<Rightarrow> frontend \<Rightarrow> string \<Rightarrow> cstate \<Rightarrow> ('w, unit) io" where
  "save_module m fe output_name llvm_module =
     bindIO (print_line (f_module_text fe llvm_module)) (\<lambda>_.
       let ir_filename = output_name @ ''.ll'' in
       bindIO (makedirs m (dirname (abspath (m_cwd m) ir_filename))) (\<lambda>_.
       bindIO (write_file m ir_filename (f_module_text fe llvm_module)) (\<lambda>_.
       bindIO (liftIO (metadata_of llvm_module)) (\<lambda>metadata.
         case metadata of
           None \<Rightarrow> retIO ()
         | Some md \<Rightarrow> write_file m (output_name @ ''.lambpie.json'') (f_metadata_text fe md)))))"

definition compiler_main :: "'w machine \<Rightarrow> frontend \<Rightarrow> llapi \<Rightarrow> compiler_args \<Rightarrow> ('w, unit) io" where
  "compiler_main m fe L args =
     bindIO (path_exists m (ca_source_file args)) (\<lambda>found.
     bindIO (whenIO (\<not> found) (exit_code 1)) (\<lambda>_.
     bindIO (read_file m (builtin_path m)) (\<lambda>builtin_code.
     bindIO (read_file m (ca_source_file args)) (\<lambda>source_code.
     bindIO (liftIO (f_ast fe builtin_code)) (\<lambda>builtin_ast.
     bindIO (liftIO (f_ast fe source_code)) (\<lambda>source_ast.
     bindIO (liftIO (compile_program L (ca_target_triple args) builtin_ast source_ast)) (\<lambda>llvm_module.
       save_module m fe (ca_output_name args) llvm_module)))))))"

section \<open>parse_models.py\<close>

definition member_json :: "pmember \<Rightarrow> json" where
  "member_json p =
     JObj [(''pie_type'', JStr (pm_pie_type p)), (''required'', JBool (pm_required p)),
           (''location'', pm_location p), (''location_name'', pm_location_name p)]"

definition shape_json :: "pshape \<Rightarrow> json" where
  "shape_json p =
     (case p of
        PScalar t \<Rightarrow> JObj [(''pie_type'', JStr t)]
      | PClass ms req \<Rightarrow>
          JObj [(''pie_type'', JStr ''class''),
                (''members'', JObj (map (\<lambda>(n, x). (n, member_json x)) ms)),
                (''required_members'', JList (map JStr req))])"

definition operation_json :: "poperation \<Rightarrow> json" where
  "operation_json p =
     JObj [(''name'', JStr (po_name p)), (''http_method'', po_http_method p), (''http_uri'', po_http_uri p),
           (''input_shape'', po_input_shape p), (''output_shape'', po_output_shape p),
           (''error_shapes'', JList (po_error_shapes p))]"

text \<open>The dict \<open>parse\<close> returns, and \<open>generate_json\<close> of it.\<close>

definition parsed_json :: "parsed \<Rightarrow> json" where
  "parsed_json p =
     JObj [(''service'', JObj (p_service p)), (''operations'', JList (map operation_json (p_operations p))),
           (''shapes'', JObj (map (\<lambda>(n, x). (n, shape_json x)) (p_shapes p)))]"

definition generate_json :: "'w machine \<Rightarrow> parsed \<Rightarrow> string" where
  "generate_json m p = m_dumps_indented m (parsed_json p)"

record parse_args =
  pa_service :: "string option"
  pa_output :: "string option"
  pa_format :: string
  pa_operations :: "string list option"
  pa_skip_unsupported :: bool
  pa_list_services :: bool

definition ends_with :: "string \<Rightarrow> string \<Rightarrow> bool" where
  "ends_with ext t = starts_with (rev ext) (rev t)"

definition load_model_from_file :: "'w machine \<Rightarrow> string \<Rightarrow> ('w, json) io" where
  "load_model_from_file m path =
     bindIO (path_exists m path) (\<lambda>found.
     bindIO (whenIO (\<not> found) (exit_message (''Error: model file not found: '' @ path))) (\<lambda>_.
     bindIO (read_file m path) (\<lambda>bytes.
     bindIO (liftIO (decode_utf8 bytes)) (\<lambda>text. liftIO (m_loads m text)))))"

definition load_model_by_service_name :: "'w machine \<Rightarrow> string \<Rightarrow> ('w, json) io" where
  "load_model_by_service_name m service_name =
     (if service_name \<notin> set (m_services m) then
        exit_message (''Error: service '' @ [CHR 0x27] @ service_name @ [CHR 0x27] @
          '' not found in botocore data directory.'' @ [CHR 0x0A] @
          ''Available services: '' @ str_join '', '' (sort (m_services m)))
      else liftIO (m_load_service m service_name))"

definition load_model :: "'w machine \<Rightarrow> string \<Rightarrow> ('w, json \<times> string) io" where
  "load_model m service =
     bindIO (path_exists m service) (\<lambda>found.
       if found \<and> ends_with ''.json'' service then
         bindIO (load_model_from_file m service) (\<lambda>model. retIO (model, path_root (basename service)))
       else
         bindIO (load_model_by_service_name m service) (\<lambda>model. retIO (model, service)))"

definition emit_output :: "'w machine \<Rightarrow> string option \<Rightarrow> string \<Rightarrow> ('w, unit) io" where
  "emit_output m output content =
     (case output of
        Some (c # cs) \<Rightarrow>
          bindIO (makedirs m (dirname (abspath (m_cwd m) (c # cs)))) (\<lambda>_. write_file m (c # cs) content)
      | _ \<Rightarrow> print_line content)"

definition render :: "'w machine \<Rightarrow> parse_args \<Rightarrow> string \<Rightarrow> parsed \<Rightarrow> string res" where
  "render m args service_name p =
     (if pa_format args = ''json'' then Inr (generate_json m p)
      else generate_pie p service_name
             (case pa_output args of Some (c # cs) \<Rightarrow> c # cs | _ \<Rightarrow> ''<stdout>''))"

definition parse_models_main :: "'w machine \<Rightarrow> parse_args \<Rightarrow> ('w, unit) io" where
  "parse_models_main m args =
     (if pa_list_services args then
        print_line (str_join [CHR 0x0A] (sort (m_services m)))
      else
        (case pa_service args of
           Some (c # cs) \<Rightarrow>
             bindIO (load_model m (c # cs)) (\<lambda>(model, service_name).
             bindIO (liftIO (new_model_parser model (pa_operations args) (pa_skip_unsupported args))) (\<lambda>parser.
             bindIO (liftIO (parse parser)) (\<lambda>p.
             bindIO (liftIO (render m args service_name p)) (\<lambda>content.
               emit_output m (pa_output args) content))))
         | _ \<Rightarrow> exit_code 2))"

section \<open>What the commands write\<close>

definition writes :: "event list \<Rightarrow> (string \<times> string) list" where
  "writes evs = concat (map (\<lambda>(c, r). case c of WriteFile p d \<Rightarrow> [(p, d)] | _ \<Rightarrow> []) evs)"

lemma writes_simps [simp]:
  "writes [] = []"
  "writes ((c, r) # evs) = (case c of WriteFile p d \<Rightarrow> [(p, d)] | _ \<Rightarrow> []) @ writes evs"
  by (simp_all add: writes_def)

text \<open>The two files of an accepted program, in the order they are written.\<close>

definition compiler_files :: "frontend \<Rightarrow> compiler_args \<Rightarrow> cstate \<Rightarrow> metadata \<Rightarrow> (string \<times> string) list" where
  "compiler_files fe args st md =
     [(ca_output_name args @ ''.ll'', f_module_text fe st),
      (ca_output_name args @ ''.lambpie.json'', f_metadata_text fe md)]"

definition accepted :: "'w machine \<Rightarrow> frontend \<Rightarrow> llapi \<Rightarrow> compiler_args \<Rightarrow> event list \<Rightarrow> cstate \<Rightarrow> bool" where
  "accepted m fe L args evs st \<longleftrightarrow>
     (\<exists>bt ct b c.
        (ReadFile (builtin_path m), RData bt) \<in> set evs \<and> (ReadFile (ca_source_file args), RData ct) \<in> set evs \<and>
        f_ast fe bt = Inr b \<and> f_ast fe ct = Inr c \<and> compile_program L (ca_target_triple args) b c = Inr st)"

lemma metadata_of_compiled:
  "compile_program L triple b c = Inr st \<Longrightarrow> \<exists>md. metadata_of st = Inr (Some md)"
  using metadata_found [of L triple b c st] by (auto simp: metadata_of_def)

lemma save_module_runs:
  assumes "metadata_of st = Inr (Some md)"
  shows "wp (save_module m fe (ca_output_name args) st) (\<lambda>r s'. \<exists>evs. trace s' = trace s @ evs \<and>
    prefix (writes evs) (compiler_files fe args st md) \<and>
    (r = Done () \<longrightarrow> writes evs = compiler_files fe args st md)) s"
  unfolding save_module_def Let_def compiler_files_def
  by (auto intro!: wp_rules simp: assms)

definition compiler_run :: "'w machine \<Rightarrow> frontend \<Rightarrow> llapi \<Rightarrow> compiler_args \<Rightarrow> 'w sys \<Rightarrow> unit run \<Rightarrow> 'w sys \<Rightarrow> bool" where
  "compiler_run m fe L args s r s' \<longleftrightarrow>
     (\<exists>evs. trace s' = trace s @ evs \<and>
       (writes evs = [] \<and> r \<noteq> Done () \<or>
        (\<exists>st md. accepted m fe L args evs st \<and> metadata_of st = Inr (Some md) \<and>
           prefix (writes evs) (compiler_files fe args st md) \<and>
           (r = Done () \<longrightarrow> writes evs = compiler_files fe args st md))))"

lemma save_accepted:
  assumes "take (length (trace s)) (trace s1) = trace s" and "writes (drop (length (trace s)) (trace s1)) = []"
    and "accepted m fe L args (drop (length (trace s)) (trace s1)) st"
  shows "wp (save_module m fe (ca_output_name args) st) (compiler_run m fe L args s) s1"
proof -
  let ?evs = "drop (length (trace s)) (trace s1)"
  have before: "trace s1 = trace s @ ?evs" using assms(1) by (metis append_take_drop_id)
  obtain md where md: "metadata_of st = Inr (Some md)"
    using assms(3) unfolding accepted_def by (blast dest: metadata_of_compiled)
  show ?thesis
  proof (rule wp_weaken [OF save_module_runs [OF md]], elim exE conjE, goal_cases)
    case run: (1 r s' evs')
    have "accepted m fe L args (?evs @ evs') st" using assms(3) by (auto simp: accepted_def)
    moreover have "trace s' = trace s @ ?evs @ evs'" using run(1) before by simp
    moreover have "writes (?evs @ evs') = writes evs'" using assms(2) by (simp add: writes_def)
    ultimately show ?case
      unfolding compiler_run_def using run(2,3) md by (intro exI [of _ "?evs @ evs'"]) auto
  qed
qed

lemma compiler_main_runs: "wp (compiler_main m fe L args) (compiler_run m fe L args s) s"
  unfolding compiler_main_def
  by (auto intro!: wp_rules save_accepted simp: accepted_def compiler_run_def) blast

text \<open>C38: the compiler's command writes nothing for a program it does not accept; for an accepted
  one it writes the text of the compiled module and then the metadata, to the two files named after
  its output.\<close>

theorem compiler_main_outputs:
  "\<exists>evs. trace (snd (compiler_main m fe L args s)) = trace s @ evs \<and>
     (writes evs = [] \<and> fst (compiler_main m fe L args s) \<noteq> Done () \<or>
      (\<exists>st md. accepted m fe L args evs st \<and> metadata_of st = Inr (Some md) \<and>
         prefix (writes evs) (compiler_files fe args st md) \<and>
         (fst (compiler_main m fe L args s) = Done () \<longrightarrow> writes evs = compiler_files fe args st md)))"
  using compiler_main_runs [of m fe L args s] by (simp add: wp_def compiler_run_def)

text \<open>C37: \<open>build.py\<close> and the compiler agree on the name of the IR file: a successful run of the
  compile command writes the file the \<open>llc\<close> command reads, and \<open>cargo\<close> gets the
  object file \<open>llc\<close> writes.\<close>

theorem build_reads_compiler_output:
  assumes "compiler_main m fe L
      \<lparr>ca_source_file = compile_cmd m args ! 2, ca_output_name = compile_cmd m args ! 4, ca_target_triple = None\<rparr> s = (Done (), s')"
  shows "\<exists>evs. trace s' = trace s @ evs \<and> llc_cmd m args ! 1 \<in> fst ` set (writes evs) \<and>
    cargo_env m args = [(''LAMBPIE_HANDLER_OBJ'', llc_cmd m args ! 4)]"
proof -
  have ext: "out_path m args (source_base m args @ ''.ll'') = out_path m args (source_base m args) @ ''.ll''"
    unfolding out_path_def
    by (rule path_join_extension) (simp_all add: source_base_def path_root_no_slash basename_no_slash)
  obtain evs where evs: "trace s' = trace s @ evs"
    "out_path m args (source_base m args) @ ''.ll'' \<in> fst ` set (writes evs)"
    using wpD [OF compiler_main_runs assms] by (auto simp: compile_cmd_def compiler_files_def compiler_run_def)
  then show ?thesis by (auto simp: llc_cmd_def cargo_env_def ext)
qed

section \<open>An instance\<close>

text \<open>A machine on which reading a file gives its path, and a parser that knows the text of one
  program.\<close>

definition sim_files :: "rat machine" where
  "sim_files = sim\<lparr>m_read := (\<lambda>p w. (Inr p, w))\<rparr>"

definition sample_frontend :: frontend where
  "sample_frontend =
     \<lparr>f_ast = (\<lambda>t. Inr (if t = ''/repo/builtins.pie'' then [] else digit_pie)),
      f_module_text = (\<lambda>st. ''module''), f_metadata_text = (\<lambda>md. ''metadata'')\<rparr>"

abbreviation sample_build :: build_args where
  "sample_build \<equiv> default_build_args sim_files ''/repo/digit.pie''"

abbreviation sample_compile :: compiler_args where
  "sample_compile \<equiv>
     \<lparr>ca_source_file = compile_cmd sim_files sample_build ! 2,
      ca_output_name = compile_cmd sim_files sample_build ! 4, ca_target_triple = None\<rparr>"

lemma sample_paths:
  "compile_cmd sim_files sample_build ! 2 = ''/repo/digit.pie''"
  "compile_cmd sim_files sample_build ! 4 = ''/repo/target/digit''"
  by code_simp+

lemma sample_run: "\<exists>s'. compiler_main sim_files sample_frontend std_llapi sample_compile boot = (Done (), s')"
proof -
  obtain st where st: "compile_program std_llapi None [] digit_pie = Inr st" by (rule digit_result)
  then obtain md where "metadata_of st = Inr (Some md)" using metadata_of_compiled by blast
  with st show ?thesis
    unfolding sample_paths
    by (simp add: compiler_main_def save_module_def sample_frontend_def sim_files_def builtin_path_def path_join_def Let_def
        write_file_def makedirs_def print_line_def run_simps)
qed

lemma compiler_main_outputs_witness:
  "\<exists>evs st md. trace (snd (compiler_main sim_files sample_frontend std_llapi sample_compile boot)) = evs \<and>
     accepted sim_files sample_frontend std_llapi sample_compile evs st \<and>
     writes evs = compiler_files sample_frontend sample_compile st md"
proof -
  obtain s' where run: "compiler_main sim_files sample_frontend std_llapi sample_compile boot = (Done (), s')"
    using sample_run by blast
  from compiler_main_outputs [of sim_files sample_frontend std_llapi sample_compile boot] run
  show ?thesis by auto
qed

lemma build_reads_compiler_output_witness:
  "llc_cmd sim_files sample_build ! 1 \<in>
     fst ` set (writes (trace (snd (compiler_main sim_files sample_frontend std_llapi sample_compile boot))))"
proof -
  obtain s' where run: "compiler_main sim_files sample_frontend std_llapi sample_compile boot = (Done (), s')"
    using sample_run by blast
  from build_reads_compiler_output [OF run] run show ?thesis by simp
qed

end
