(* ===== verification/CompilerGrow.thy ===== *)
theory CompilerGrow
  imports CompilerFlow "HOL-Library.Sublist"
begin

text \<open>
  What the visitors leave alone, for the simulation: an expression only appends to the builder's
  block; a statement without declarations keeps the local scope and writes to the block it starts
  in and to new blocks only. The control-flow visitors are taken apart into the states between
  their steps.
\<close>

section \<open>The code of a block\<close>

definition code :: "cstate \<Rightarrow> nat \<Rightarrow> (nat \<times> instr) list" where
  "code s j = blk_code (cs_blocks s ! j)"

lemma block_code_code: "block_code s j = map snd (code s j)"
  by (simp add: block_code_def code_def)

definition is_open :: "cstate \<Rightarrow> nat \<Rightarrow> bool" where
  "is_open s b \<longleftrightarrow> \<not> list_ex terminator (block_code s b)"

definition new_blocks :: "nat \<Rightarrow> string list \<Rightarrow> cstate \<Rightarrow> cstate" where
  "new_blocks f names s =
     s\<lparr>cs_blocks := cs_blocks s @ map (\<lambda>n. \<lparr>blk_fn = f, blk_name = n, blk_code = []\<rparr>) names\<rparr>"

definition goto_block :: "nat \<Rightarrow> cstate \<Rightarrow> cstate" where
  "goto_block b s = s\<lparr>cs_builder := Some b\<rparr>"

lemma code_push:
  "b < length (cs_blocks s) \<Longrightarrow>
     code (push_instr b i s) j = (if j = b then code s b @ [(cs_next s, i)] else code s j)"
  by (simp add: push_instr_def code_def)

lemma code_new_blocks:
  "j < length (cs_blocks s) + length names \<Longrightarrow>
     code (new_blocks f names s) j = (if j < length (cs_blocks s) then code s j else [])"
  by (auto simp: new_blocks_def code_def nth_append)

lemma code_goto [simp]: "code (goto_block b s) = code s"
  by (simp add: goto_block_def code_def fun_eq_iff)

lemma push_instr_state [simp]:
  "cs_next (push_instr b i s) = Suc (cs_next s)"
  "cs_types (push_instr b i s) = cs_types s"
  "cs_locals (push_instr b i s) = cs_locals s"
  by (simp_all add: push_instr_def)

lemma new_blocks_state [simp]:
  "length (cs_blocks (new_blocks f names s)) = length (cs_blocks s) + length names"
  "cs_builder (new_blocks f names s) = cs_builder s"
  "cs_next (new_blocks f names s) = cs_next s"
  "cs_types (new_blocks f names s) = cs_types s"
  "cs_locals (new_blocks f names s) = cs_locals s"
  by (simp_all add: new_blocks_def)

lemma goto_block_state [simp]:
  "cs_blocks (goto_block b s) = cs_blocks s"
  "cs_builder (goto_block b s) = Some b"
  "cs_next (goto_block b s) = cs_next s"
  "cs_types (goto_block b s) = cs_types s"
  "cs_locals (goto_block b s) = cs_locals s"
  by (simp_all add: goto_block_def)

lemma block_fn_push [simp]: "blk_fn (cs_blocks (push_instr b i s) ! j) = blk_fn (cs_blocks s ! j)"
  by (rule push_instr_blocks)

section \<open>Growth\<close>

text \<open>Code is only appended to, blocks only added, types only added.\<close>

definition keeps_types :: "cstate \<Rightarrow> cstate \<Rightarrow> bool" where
  "keeps_types s s' \<longleftrightarrow> (\<forall>k t. dict_get (cs_types s) k = Some t \<longrightarrow> dict_get (cs_types s') k = Some t)"

definition writes_to :: "nat set \<Rightarrow> cstate \<Rightarrow> cstate \<Rightarrow> bool" where
  "writes_to M s s' \<longleftrightarrow>
     length (cs_blocks s) \<le> length (cs_blocks s') \<and> cs_next s \<le> cs_next s' \<and> keeps_types s s' \<and>
     cs_locals s' = cs_locals s \<and>
     (\<forall>j < length (cs_blocks s). prefix (code s j) (code s' j) \<and> (j \<notin> M \<longrightarrow> code s' j = code s j))"

lemma writes_to_refl [simp]: "writes_to M s s"
  by (simp add: writes_to_def keeps_types_def)

lemma writes_to_trans:
  assumes "writes_to M s t" and "writes_to N t u"
    and "\<And>j. j \<in> N \<Longrightarrow> j \<in> M \<or> length (cs_blocks s) \<le> j"
  shows "writes_to M s u"
  using assms unfolding writes_to_def keeps_types_def
  by (auto intro: prefix_order.trans) (metis leD less_le_trans)+

lemma writes_to_mono: "writes_to M s s' \<Longrightarrow> M \<subseteq> N \<Longrightarrow> writes_to N s s'"
  by (auto simp: writes_to_def)

lemma writes_to_push: "b < length (cs_blocks s) \<Longrightarrow> writes_to {b} s (push_instr b i s)"
  by (auto simp: writes_to_def keeps_types_def code_push)

lemma writes_to_new: "writes_to M s (new_blocks f names s)"
  by (auto simp: writes_to_def keeps_types_def code_new_blocks)

lemma writes_to_goto: "writes_to M s (goto_block b s)"
  by (simp add: writes_to_def keeps_types_def)

section \<open>Expressions\<close>

text \<open>An expression appends instructions other than terminators to the builder's block.\<close>

definition straight :: "cstate \<Rightarrow> cstate \<Rightarrow> bool" where
  "straight s s' \<longleftrightarrow>
     (\<forall>b. cs_builder s = Some b \<longrightarrow> b < length (cs_blocks s) \<longrightarrow>
        cs_builder s' = Some b \<and> length (cs_blocks s') = length (cs_blocks s) \<and>
        blk_fn (cs_blocks s' ! b) = blk_fn (cs_blocks s ! b) \<and> writes_to {b} s s' \<and>
        is_open s' b = is_open s b)"

lemma straightD:
  assumes "straight s s'" and "cs_builder s = Some b" and "b < length (cs_blocks s)"
  shows "cs_builder s' = Some b" "length (cs_blocks s') = length (cs_blocks s)"
    "blk_fn (cs_blocks s' ! b) = blk_fn (cs_blocks s ! b)" "writes_to {b} s s'" "is_open s' b = is_open s b"
  using assms by (simp_all add: straight_def)

lemma straight_same:
  "\<lbrakk>cs_builder s' = cs_builder s; cs_blocks s' = cs_blocks s; cs_locals s' = cs_locals s; cs_next s' = cs_next s;
    keeps_types s s'\<rbrakk> \<Longrightarrow> straight s s'"
  by (simp add: straight_def writes_to_def code_def is_open_def block_code_def)

lemma keeps_types_refl [simp]: "keeps_types s s" "cs_types s' = cs_types s \<Longrightarrow> keeps_types s s'"
  by (simp_all add: keeps_types_def)

lemma straight_emit:
  assumes "\<not> terminator i" and "emit L i s = Inr (v, s')"
  shows "straight s s'"
proof -
  obtain b t where b: "cs_builder s = Some b" "s' = push_instr b i s"
    using emit_InrD [OF assms(2)] by auto
  show ?thesis
    using assms(1) b writes_to_push [of b s i]
    by (auto simp: straight_def is_open_def push_instr_code)
qed

interpretation straight: expr_frame L straight for L
proof unfold_locales
  show "straight s s" for s by (simp add: straight_def)
  show "straight s u" if "straight s t" "straight t u" for s t u
    using that by (auto simp: straight_def intro: writes_to_trans)
next
  fix p n t bytes c s v s'
  assume "bindS (next_name p) (\<lambda>n. new_data L n t bytes c) s = Inr (v, s')"
  then show "straight s s'" by (auto dest!: next_name_InrD new_data_InrD intro!: straight_same)
next
  fix n s u s'
  assume "dict_get (cs_types s) n = None" "set_type n (PtrT (StructT n)) s = Inr (u, s')"
  then show "straight s s'"
    by (auto simp: set_type_def keeps_types_def dict_get_set intro!: straight_same)
qed (rule straight_emit)

section \<open>Control flow, step by step\<close>

definition cur_fn :: "cstate \<Rightarrow> nat \<Rightarrow> nat" where
  "cur_fn s b = blk_fn (cs_blocks s ! b)"

text \<open>\<open>branch_if_open\<close> as a function.\<close>

definition closed_by :: "nat \<Rightarrow> nat \<Rightarrow> cstate \<Rightarrow> cstate" where
  "closed_by b target s = (if is_open s b then push_instr b (Br target) s else s)"

lemma branch_if_openD:
  assumes "terminator_law L" and "branch_if_open L target s = Inr (u, s')" and "cs_builder s = Some b"
  shows "s' = closed_by b target s"
  using assms
  by (auto simp: branch_if_open_def is_terminated_def cur_block_def emit_unit_def closed_by_def is_open_def
      terminator_law_def split: if_splits dest!: emit_InrD)

lemma append_blockD: "append_block f n s = Inr (j, s') \<Longrightarrow> j = length (cs_blocks s) \<and> s' = new_blocks f [n] s"
  by (auto simp: append_block_def new_blocks_def)

lemma new_blocks_append: "new_blocks f ns' (new_blocks f ns s) = new_blocks f (ns @ ns') s"
  by (simp add: new_blocks_def)

lemma position_at_endD: "position_at_end b s = Inr (u, s') \<Longrightarrow> s' = goto_block b s"
  by (simp add: position_at_end_def goto_block_def)

lemma cur_functionD: "cur_function s = Inr (f, s') \<Longrightarrow> cs_builder s = Some b \<Longrightarrow> f = cur_fn s b \<and> s' = s"
  by (auto simp: cur_function_def cur_fn_def)

lemma emit_unitD: "emit_unit L i s = Inr (u, s') \<Longrightarrow> cs_builder s = Some b \<Longrightarrow> s' = push_instr b i s"
  by (auto simp: emit_unit_def dest!: emit_InrD)

text \<open>Visits of statements that may move the builder: it stays valid, and on the blocks written.\<close>

definition moves :: "cstate \<Rightarrow> cstate \<Rightarrow> bool" where
  "moves s s' \<longleftrightarrow>
     (\<forall>b. cs_builder s = Some b \<longrightarrow> b < length (cs_blocks s) \<longrightarrow>
        writes_to {b} s s' \<and>
        (\<exists>b'. cs_builder s' = Some b' \<and> b' < length (cs_blocks s') \<and> (b' = b \<or> length (cs_blocks s) \<le> b')))"

lemma movesE:
  assumes "moves s s'" and "cs_builder s = Some b" and "b < length (cs_blocks s)"
  obtains b' where "cs_builder s' = Some b'" "b' < length (cs_blocks s')" "b' = b \<or> length (cs_blocks s) \<le> b'"
    "writes_to {b} s s'"
  using assms by (auto simp: moves_def)

text \<open>The states of a loop: at the header, after the test, at the body, after the body.\<close>

definition enter :: "string list \<Rightarrow> nat \<Rightarrow> cstate \<Rightarrow> cstate" where
  "enter names b s =
     goto_block (length (cs_blocks s))
       (push_instr b (Br (length (cs_blocks s))) (new_blocks (cur_fn s b) names s))"

lemma enter_state [simp]:
  "cs_builder (enter names b s) = Some (length (cs_blocks s))"
  "length (cs_blocks (enter names b s)) = length (cs_blocks s) + length names"
  "cs_locals (enter names b s) = cs_locals s"
  by (simp_all add: enter_def)

definition loop_start :: "nat \<Rightarrow> cstate \<Rightarrow> cstate" where
  "loop_start = enter [''loop.header'', ''loop.body'', ''loop.exit'']"

lemma visit_WhileD:
  assumes "terminator_law L" and "visit_While L test run s = Inr (u, s')" and "cs_builder s = Some b"
    and body: "\<And>v t t'. run t = Inr (v, t') \<Longrightarrow> moves t t'"
    and b: "b < length (cs_blocks s)"
  obtains n c s2 s4 b' where
    "n = length (cs_blocks s)"
    "visit_expr L test (loop_start b s) = Inr (c, s2)"
    "run (goto_block (n + 1) (push_instr n (CBr c (n + 1) (n + 2)) s2)) = Inr ((), s4)"
    "cs_builder s4 = Some b'" "s' = goto_block (n + 2) (closed_by b' n s4)"
proof -
  let ?n = "length (cs_blocks s)"
  from assms(2) obtain f s0 h s1 bd s1' ex s1'' u1 t1 u2 t2 c s2 u3 t3 u4 t4 u5 s4 u6 t6 where run:
    "cur_function s = Inr (f, s0)" "append_block f ''loop.header'' s0 = Inr (h, s1)"
    "append_block f ''loop.body'' s1 = Inr (bd, s1')" "append_block f ''loop.exit'' s1' = Inr (ex, s1'')"
    "emit_unit L (Br h) s1'' = Inr (u1, t1)" "position_at_end h t1 = Inr (u2, t2)"
    "visit_expr L test t2 = Inr (c, s2)" "emit_unit L (CBr c bd ex) s2 = Inr (u3, t3)"
    "position_at_end bd t3 = Inr (u4, t4)" "run t4 = Inr (u5, s4)"
    "branch_if_open L h s4 = Inr (u6, t6)" "position_at_end ex t6 = Inr (u, s')"
    unfolding visit_While_def by (elim bindS_InrE) (rule that; assumption)
  have f: "f = cur_fn s b" "s0 = s" using cur_functionD [OF run(1) assms(3)] by simp_all
  have blocks: "h = ?n" "bd = ?n + 1" "ex = ?n + 2"
    "s1'' = new_blocks (cur_fn s b) [''loop.header'', ''loop.body'', ''loop.exit''] s"
    using append_blockD [OF run(2)] append_blockD [OF run(3)] append_blockD [OF run(4)]
    by (simp_all add: f new_blocks_append)
  have "t1 = push_instr b (Br ?n) s1''"
    using emit_unitD [OF run(5)] assms(3) by (simp add: blocks)
  then have t2: "t2 = loop_start b s"
    using position_at_endD [OF run(6)] by (simp add: blocks loop_start_def enter_def)
  have "cs_builder t2 = Some ?n" "?n < length (cs_blocks t2)"
    by (simp_all add: t2 loop_start_def)
  then have s2: "cs_builder s2 = Some ?n" "length (cs_blocks s2) = ?n + 3"
    using straightD [OF straight.visit_expr_R [OF run(7)]] by (auto simp: t2 loop_start_def)
  then have t4: "t4 = goto_block (?n + 1) (push_instr ?n (CBr c (?n + 1) (?n + 2)) s2)"
    using emit_unitD [OF run(8)] position_at_endD [OF run(9)] by (simp add: blocks)
  obtain b' where b': "cs_builder s4 = Some b'"
    using body [OF run(10)] s2 by (auto simp: moves_def t4)
  have "t6 = closed_by b' h s4" by (rule branch_if_openD [OF assms(1) run(11) b'])
  then have "s' = goto_block (?n + 2) (closed_by b' ?n s4)"
    using position_at_endD [OF run(12)] by (simp add: blocks)
  then show thesis using that [of ?n c s2 s4 b'] run b' by (simp add: t2 t4)
qed

text \<open>The states of a branch, without and with an else part.\<close>

definition if_start :: "bool \<Rightarrow> nat \<Rightarrow> cstate \<Rightarrow> cstate" where
  "if_start has_else =
     enter ([''if.entry'', ''if.then''] @ (if has_else then [''if.else''] else []) @ [''if.end''])"

lemma visit_If_prefixD:
  assumes "terminator_law L" and "visit_If L test run orelse s = Inr (u, s')" and "cs_builder s = Some b"
    and body: "\<And>v t t'. run t = Inr (v, t') \<Longrightarrow> moves t t'"
    and b: "b < length (cs_blocks s)"
  obtains n m c s2 s4 b1 s6 where
    "n = length (cs_blocks s)" "m = (case orelse of None \<Rightarrow> n + 2 | Some _ \<Rightarrow> n + 3)"
    "visit_expr L test (if_start (orelse \<noteq> None) b s) = Inr (c, s2)"
    "run (goto_block (n + 1) (push_instr n (CBr c (n + 1) (n + 2)) s2)) = Inr ((), s4)"
    "cs_builder s4 = Some b1"
    "(case orelse of
        None \<Rightarrow> retS ()
      | Some run_else \<Rightarrow> bindS (position_at_end (n + 2)) (\<lambda>_. bindS run_else (\<lambda>_. branch_if_open L m))) (closed_by b1 m s4) =
        Inr ((), s6)" "s' = goto_block m s6"
proof -
  let ?n = "length (cs_blocks s)"
  let ?m = "case orelse of None \<Rightarrow> ?n + 2 | Some _ \<Rightarrow> ?n + 3"
  from assms(2) obtain f s0 h s1 th s1' el s1a ex s1'' u1 t1 u2 t2 c s2 u3 t3 u4 t4 u5 s4 u6 t6 u7 s6 where run:
    "cur_function s = Inr (f, s0)" "append_block f ''if.entry'' s0 = Inr (h, s1)"
    "append_block f ''if.then'' s1 = Inr (th, s1')"
    "(case orelse of None \<Rightarrow> retS 0 | Some _ \<Rightarrow> append_block f ''if.else'') s1' = Inr (el, s1a)"
    "append_block f ''if.end'' s1a = Inr (ex, s1'')"
    "emit_unit L (Br h) s1'' = Inr (u1, t1)" "position_at_end h t1 = Inr (u2, t2)"
    "visit_expr L test t2 = Inr (c, s2)"
    "emit_unit L (CBr c th (case orelse of None \<Rightarrow> ex | Some _ \<Rightarrow> el)) s2 = Inr (u3, t3)"
    "position_at_end th t3 = Inr (u4, t4)" "run t4 = Inr (u5, s4)"
    "branch_if_open L ex s4 = Inr (u6, t6)"
    "(case orelse of
        None \<Rightarrow> retS ()
      | Some run_else \<Rightarrow> bindS (position_at_end el) (\<lambda>_. bindS run_else (\<lambda>_. branch_if_open L ex))) t6 = Inr (u7, s6)"
    "position_at_end ex s6 = Inr (u, s')"
    unfolding visit_If_def by (elim bindS_InrE) (rule that; assumption)
  have f: "f = cur_fn s b" "s0 = s" using cur_functionD [OF run(1) assms(3)] by simp_all
  have blocks: "h = ?n" "th = ?n + 1" "ex = ?m" "(case orelse of None \<Rightarrow> ex | Some _ \<Rightarrow> el) = ?n + 2"
    "orelse \<noteq> None \<Longrightarrow> el = ?n + 2"
    "s1'' = new_blocks (cur_fn s b)
       ([''if.entry'', ''if.then''] @ (if orelse \<noteq> None then [''if.else''] else []) @ [''if.end'']) s"
    using append_blockD [OF run(2)] append_blockD [OF run(3)] append_blockD [OF run(5)] run(4)
    by (auto simp: f new_blocks_append split: option.splits dest!: append_blockD)
  have "t1 = push_instr b (Br ?n) s1''"
    using emit_unitD [OF run(6)] assms(3) by (simp add: blocks)
  then have t2: "t2 = if_start (orelse \<noteq> None) b s"
    using position_at_endD [OF run(7)] by (simp add: blocks if_start_def enter_def)
  have "cs_builder t2 = Some ?n" "?n < length (cs_blocks t2)"
    by (simp_all add: t2 if_start_def)
  then have s2: "cs_builder s2 = Some ?n" "?n + 3 \<le> length (cs_blocks s2)"
    using straightD [OF straight.visit_expr_R [OF run(8)]] by (auto simp: t2 if_start_def)
  then have t4: "t4 = goto_block (?n + 1) (push_instr ?n (CBr c (?n + 1) (?n + 2)) s2)"
    using emit_unitD [OF run(9)] position_at_endD [OF run(10)] by (simp add: blocks)
  obtain b' where b': "cs_builder s4 = Some b'"
    using body [OF run(11)] s2 by (auto simp: moves_def t4)
  have t6: "t6 = closed_by b' ?m s4" using branch_if_openD [OF assms(1) run(12) b'] by (simp add: blocks)
  have "s' = goto_block ?m s6"
    using position_at_endD [OF run(14)] by (simp add: blocks)
  then show thesis using that [of ?n ?m c s2 s4 b' s6] run(8,11,13) b' blocks(3,5)
    by (cases orelse) (simp_all add: t2 t4 t6)
qed

section \<open>Statements without declarations\<close>

text \<open>From the block \<open>b\<close> of \<open>s\<close>, the builder stays on \<open>b\<close> and on new blocks.\<close>

definition inside :: "nat \<Rightarrow> cstate \<Rightarrow> cstate \<Rightarrow> bool" where
  "inside b s t \<longleftrightarrow>
     writes_to {b} s t \<and>
     (\<exists>b'. cs_builder t = Some b' \<and> b' < length (cs_blocks t) \<and> (b' = b \<or> length (cs_blocks s) \<le> b'))"

lemma moves_inside: "moves s s' \<longleftrightarrow> (\<forall>b. cs_builder s = Some b \<longrightarrow> b < length (cs_blocks s) \<longrightarrow> inside b s s')"
  by (simp add: moves_def inside_def)

lemma inside_moves:
  assumes "inside b s t" and "moves t u"
  shows "inside b s u"
proof -
  obtain b' where b': "cs_builder t = Some b'" "b' < length (cs_blocks t)" "b' = b \<or> length (cs_blocks s) \<le> b'"
    and st: "writes_to {b} s t"
    using assms(1) by (auto simp: inside_def)
  obtain b'' where b'': "cs_builder u = Some b''" "b'' < length (cs_blocks u)" "b'' = b' \<or> length (cs_blocks t) \<le> b''"
    and tu: "writes_to {b'} t u"
    using movesE [OF assms(2) b'(1,2)] .
  have "length (cs_blocks s) \<le> length (cs_blocks t)" using st by (simp add: writes_to_def)
  moreover have "writes_to {b} s u" using writes_to_trans [OF st tu] b'(3) by auto
  ultimately show ?thesis using b'' b'(3) by (auto simp: inside_def)
qed

lemma inside_refl: "cs_builder s = Some b \<Longrightarrow> b < length (cs_blocks s) \<Longrightarrow> inside b s s"
  by (simp add: inside_def)

interpretation moves: frame moves
proof unfold_locales
  show "moves s s" for s by (simp add: moves_inside inside_refl)
  show "moves s u" if "moves s t" "moves t u" for s t u
    using that by (auto simp: moves_inside [of s] intro: inside_moves)
qed

lemma straight_moves: "straight s s' \<Longrightarrow> moves s s'"
  by (simp add: straight_def moves_def)

lemma moves_push: "cs_builder s = Some b \<Longrightarrow> moves s (push_instr b i s)"
  by (auto simp: moves_def intro: writes_to_push)

lemma moves_new: "moves s (new_blocks f names s)"
  by (auto simp: moves_def intro: writes_to_new)

lemma moves_closed_by: "cs_builder s = Some b \<Longrightarrow> moves s (closed_by b t s)"
  by (simp add: closed_by_def moves_push moves.R_refl)

lemma inside_goto:
  "inside b s t \<Longrightarrow> length (cs_blocks s) \<le> k \<Longrightarrow> k < length (cs_blocks t) \<Longrightarrow> inside b s (goto_block k t)"
  unfolding inside_def by (auto simp: writes_to_def keeps_types_def)

lemma inside_enter:
  assumes "cs_builder s = Some b" and "b < length (cs_blocks s)" and "names \<noteq> []"
  shows "inside b s (enter names b s)"
  unfolding enter_def
  by (intro inside_goto inside_moves [OF inside_moves [OF inside_refl [OF assms(1,2)] moves_new] moves_push])
    (simp_all add: assms)

interpretation moves: leave_frame L moves for L
proof unfold_locales
  show "moves s s'" if "\<not> terminator i" "emit L i s = Inr (v, s')" for i s v s'
    using that by (intro straight_moves straight_emit)
  show "moves s s'" if "p \<in> literal_prefixes" "bindS (next_name p) (\<lambda>n. new_data L n t bytes c) s = Inr (v, s')" for p n t bytes c s v s'
    using that by (intro straight_moves straight.R_literal)
  show "moves s s'"
    if "n \<in> set (dict_keys (cs_layouts s))" "dict_get (cs_types s) n = None"
      "set_type n (PtrT (StructT n)) s = Inr (u, s')" for n s u s'
    using that by (intro straight_moves straight.R_lazy_type)
  show "moves s s'" if "emit L i s = Inr (v, s')" for i s v s'
    using emit_InrD [OF that] by (auto intro: moves_push)
qed

fun no_decl :: "stmt \<Rightarrow> bool" where
  "no_decl (If test body orelse) = (list_all no_decl body \<and> list_all no_decl orelse)"
| "no_decl (While test body orelse) = list_all no_decl body"
| "no_decl (OtherStmt c children) =
     list_all (\<lambda>ch. case ch of ChildE e \<Rightarrow> True | ChildS st \<Rightarrow> no_decl st) children"
| "no_decl st = (case st of Return _ \<Rightarrow> True | ExprStmt _ \<Rightarrow> True | Assign _ _ \<Rightarrow> True | Pass \<Rightarrow> True | _ \<Rightarrow> False)"

lemma moves_While:
  assumes "terminator_law L" and "moves.within run"
  shows "moves.within (visit_While L test run)"
proof (rule moves.withinI)
  fix s u s'
  assume visit: "visit_While L test run s = Inr (u, s')"
  show "moves s s'"
    unfolding moves_inside
  proof (intro allI impI)
    fix b
    assume b: "cs_builder s = Some b" "b < length (cs_blocks s)"
    obtain n c s2 s4 b' where w: "n = length (cs_blocks s)" "visit_expr L test (loop_start b s) = Inr (c, s2)"
      "run (goto_block (n + 1) (push_instr n (CBr c (n + 1) (n + 2)) s2)) = Inr ((), s4)"
      "cs_builder s4 = Some b'" "s' = goto_block (n + 2) (closed_by b' n s4)"
      by (rule visit_WhileD [OF assms(1) visit b(1) moves.withinD [OF assms(2)] b(2)])
    have "inside b s (loop_start b s)"
      unfolding loop_start_def by (rule inside_enter [OF b]) simp
    then have "inside b s s2"
      using inside_moves straight_moves [OF straight.visit_expr_R [OF w(2)]] by blast
    moreover have s2: "cs_builder s2 = Some n" "length (cs_blocks s2) = n + 3"
      using straightD [OF straight.visit_expr_R [OF w(2)], of n] by (simp_all add: loop_start_def w(1))
    ultimately have "inside b s (goto_block (n + 1) (push_instr n (CBr c (n + 1) (n + 2)) s2))"
      by (intro inside_goto inside_moves [OF _ moves_push]) (simp_all add: w(1))
    then have 4: "inside b s (closed_by b' n s4)"
      using inside_moves moves.withinD [OF assms(2) w(3)] moves_closed_by [OF w(4)] by blast
    show "inside b s s'"
      unfolding w(5)
    proof (rule inside_goto [OF 4])
      have "n + 3 \<le> length (cs_blocks s4)"
        using moves.withinD [OF assms(2) w(3)] s2 by (auto simp: moves_def writes_to_def)
      then show "n + 2 < length (cs_blocks (closed_by b' n s4))" by (simp add: closed_by_def)
    qed (simp add: w(1))
  qed
qed

lemma moves_If:
  assumes "terminator_law L" and "moves.within run" and run_else: "\<And>m. orelse = Some m \<Longrightarrow> moves.within m"
  shows "moves.within (visit_If L test run orelse)"
proof (rule moves.withinI)
  fix s u s'
  assume visit: "visit_If L test run orelse s = Inr (u, s')"
  show "moves s s'"
    unfolding moves_inside
  proof (intro allI impI)
    fix b
    assume b: "cs_builder s = Some b" "b < length (cs_blocks s)"
    obtain n m c s2 s4 b1 s6 where w: "n = length (cs_blocks s)" "m = (case orelse of None \<Rightarrow> n + 2 | Some _ \<Rightarrow> n + 3)"
      "visit_expr L test (if_start (orelse \<noteq> None) b s) = Inr (c, s2)"
      "run (goto_block (n + 1) (push_instr n (CBr c (n + 1) (n + 2)) s2)) = Inr ((), s4)" "cs_builder s4 = Some b1"
      and el: "(case orelse of
        None \<Rightarrow> retS ()
      | Some run_else \<Rightarrow> bindS (position_at_end (n + 2)) (\<lambda>_. bindS run_else (\<lambda>_. branch_if_open L m))) (closed_by b1 m s4) =
        Inr ((), s6)" and s': "s' = goto_block m s6"
      by (rule visit_If_prefixD [OF assms(1) visit b(1) moves.withinD [OF assms(2)] b(2)])
    have "inside b s (if_start (orelse \<noteq> None) b s)"
      unfolding if_start_def by (rule inside_enter [OF b]) simp
    then have "inside b s s2"
      using inside_moves straight_moves [OF straight.visit_expr_R [OF w(3)]] by blast
    moreover have s2: "cs_builder s2 = Some n" "m < length (cs_blocks s2)" "n + 2 < length (cs_blocks s2)"
      using straightD [OF straight.visit_expr_R [OF w(3)], of n] w(2)
      by (auto simp: if_start_def w(1) split: option.splits)
    ultimately have "inside b s (goto_block (n + 1) (push_instr n (CBr c (n + 1) (n + 2)) s2))"
      by (intro inside_goto inside_moves [OF _ moves_push]) (simp_all add: w(1))
    then have 4: "inside b s (closed_by b1 m s4)"
      using inside_moves moves.withinD [OF assms(2) w(4)] moves_closed_by [OF w(5)] by blast
    have len4: "m < length (cs_blocks (closed_by b1 m s4))" "n + 2 < length (cs_blocks (closed_by b1 m s4))"
      using moves.withinD [OF assms(2) w(4)] s2 by (auto simp: moves_def writes_to_def closed_by_def)
    have "inside b s s6 \<and> m < length (cs_blocks s6)"
    proof (cases orelse)
      case None
      then show ?thesis using el 4 len4 by simp
    next
      case (Some run')
      let ?t = "goto_block (n + 2) (closed_by b1 m s4)"
      obtain u1 t1 where t1: "run' ?t = Inr (u1, t1)" "branch_if_open L m t1 = Inr ((), s6)"
        using el by (auto simp: Some dest!: position_at_endD)
      have "inside b s ?t" by (rule inside_goto [OF 4 _ len4(2)]) (simp add: w(1))
      moreover have t: "moves ?t t1" by (rule moves.withinD [OF run_else [OF Some] t1(1)])
      ultimately have ins: "inside b s t1" by (rule inside_moves)
      then obtain b2 where b2: "cs_builder t1 = Some b2" by (auto simp: inside_def)
      have "m < length (cs_blocks t1)" using t len4 by (auto simp: moves_def writes_to_def)
      moreover have "s6 = closed_by b2 m t1" by (rule branch_if_openD [OF assms(1) t1(2) b2])
      ultimately show ?thesis using inside_moves [OF ins moves_closed_by [OF b2]] by (simp add: closed_by_def)
    qed
    then show "inside b s s'"
      unfolding s' by (intro inside_goto) (auto simp: w(1,2) split: option.splits)
  qed
qed

lemma moves_visit_stmt:
  "terminator_law L \<Longrightarrow> no_decl st \<Longrightarrow> moves.within (visit_stmt L st)"
  "terminator_law L \<Longrightarrow> case ch of ChildE e \<Rightarrow> True | ChildS st \<Rightarrow> no_decl st \<longrightarrow> moves.within (visit_stmt L st)"
proof (induction st and ch)
  case (If test body orelse)
  then have "moves.within (iterS (visit_stmt L) body)" "moves.within (iterS (visit_stmt L) orelse)"
    by (auto intro!: moves.within_iter simp: list_all_iff)
  then show ?case using If by (auto intro: moves_If)
next
  case (While test body orelse)
  then have "moves.within (iterS (visit_stmt L) body)" by (auto intro!: moves.within_iter simp: list_all_iff)
  then show ?case using While by (auto intro: moves_While)
next
  case (OtherStmt c children)
  have "moves.within (case ch of ChildE e \<Rightarrow> bindS (visit_expr L e) (\<lambda>_. retS ()) | ChildS st \<Rightarrow> visit_stmt L st)"
    if "ch \<in> set children" for ch
    using OtherStmt that by (force simp: list_all_iff split: child.splits)
  then show ?case by (auto intro!: moves.within_iter)
qed auto

lemma moves_body:
  "terminator_law L \<Longrightarrow> list_all no_decl body \<Longrightarrow> moves.within (iterS (visit_stmt L) body)"
  by (rule moves.within_iter) (simp add: list_all_iff moves_visit_stmt)

section \<open>Declarations of integers\<close>

text \<open>With declarations the local scope changes too; code is still only appended.\<close>

definition grown :: "cstate \<Rightarrow> cstate \<Rightarrow> bool" where
  "grown s s' \<longleftrightarrow>
     (\<forall>b. cs_builder s = Some b \<longrightarrow> b < length (cs_blocks s) \<longrightarrow>
        (\<exists>b'. cs_builder s' = Some b' \<and> b' < length (cs_blocks s')) \<and>
        length (cs_blocks s) \<le> length (cs_blocks s') \<and> keeps_types s s' \<and>
        (\<forall>j < length (cs_blocks s). prefix (code s j) (code s' j)))"

lemma moves_grown: "moves s s' \<Longrightarrow> grown s s'"
  by (auto simp: moves_def grown_def writes_to_def)

interpretation grown: frame grown
proof unfold_locales
  show "grown s s" for s by (simp add: grown_def)
  show "grown s u" if "grown s t" "grown t u" for s t u
    using that unfolding grown_def keeps_types_def
    by (meson le_trans less_le_trans prefix_order.trans)
qed

lemma grown_if_moves: "moves.within m \<Longrightarrow> grown.within m"
  by (auto simp: moves.within_def grown.within_def intro: moves_grown)

interpretation grown: line_frame L grown for L
proof unfold_locales
  show "grown s s'" if "\<not> terminator i" "emit L i s = Inr (v, s')" for i s v s'
    using that by (intro moves_grown moves.R_emit)
  show "grown s s'" if "p \<in> literal_prefixes" "bindS (next_name p) (\<lambda>n. new_data L n t bytes c) s = Inr (v, s')" for p n t bytes c s v s'
    using that by (intro moves_grown moves.R_literal)
  show "grown s s'"
    if "n \<in> set (dict_keys (cs_layouts s))" "dict_get (cs_types s) n = None"
      "set_type n (PtrT (StructT n)) s = Inr (u, s')" for n s u s'
    using that by (intro moves_grown moves.R_lazy_type)
  show "grown s s'" if "terminator i" "branch_targets i = []" "emit L i s = Inr (v, s')" for i s v s'
    using that by (intro moves_grown moves.R_leave)
qed (simp_all add: grown_def keeps_types_def code_def)

definition int_decl :: "stmt \<Rightarrow> bool" where
  "int_decl st =
     (case st of
        AnnAssign target annotation v \<Rightarrow>
          (case (target, annotation) of (Name x, Name t) \<Rightarrow> t = ''int'' | _ \<Rightarrow> False)
      | _ \<Rightarrow> False)"

lemma int_declE:
  assumes "int_decl st"
  obtains x v where "st = AnnAssign (Name x) (Name ''int'') v"
  using assms by (auto simp: int_decl_def split: stmt.splits expr.splits)

lemma grown_visit_stmt:
  assumes "terminator_law L" and "no_decl st \<or> int_decl st"
  shows "grown.within (visit_stmt L st)"
  using assms(2)
proof
  assume "no_decl st"
  then show ?thesis by (intro grown_if_moves moves_visit_stmt(1) assms(1))
next
  assume "int_decl st"
  then obtain x v where "st = AnnAssign (Name x) (Name ''int'') v" by (rule int_declE)
  then show ?thesis by (simp add: grown.within_AnnAssign)
qed

section \<open>Code in place\<close>

text \<open>The code \<open>C\<close> continues what the compiler has written.\<close>

definition loaded :: "(nat \<Rightarrow> (nat \<times> instr) list) \<Rightarrow> cstate \<Rightarrow> bool" where
  "loaded C s \<longleftrightarrow> (\<forall>j < length (cs_blocks s). prefix (code s j) (C j))"

lemma loaded_writes_to: "loaded C s' \<Longrightarrow> writes_to M s s' \<Longrightarrow> loaded C s"
  unfolding loaded_def writes_to_def by (meson less_le_trans prefix_order.trans)

lemma loaded_push:
  assumes "loaded C (push_instr b i s)" and "b < length (cs_blocks s)"
  shows "loaded C s" "length (code s b) < length (C b)" "C b ! length (code s b) = (cs_next s, i)"
proof -
  show "loaded C s" by (rule loaded_writes_to [OF assms(1) writes_to_push [OF assms(2)]])
  have "prefix (code s b @ [(cs_next s, i)]) (C b)"
    using assms by (auto simp: loaded_def code_push)
  then show "length (code s b) < length (C b)" "C b ! length (code s b) = (cs_next s, i)"
    by (auto simp: prefix_def nth_append)
qed

lemma loaded_grown:
  "loaded C s' \<Longrightarrow> grown s s' \<Longrightarrow> cs_builder s = Some b \<Longrightarrow> b < length (cs_blocks s) \<Longrightarrow> loaded C s"
  unfolding loaded_def grown_def by (meson less_le_trans prefix_order.trans)

end
