(* ===== verification/LlvmSem.thy ===== *)
theory LlvmSem
  imports Llvm PieSem "HOL-Library.Sublist"
begin

text \<open>
  Running generated code on 64-bit integers. What an instruction does is LLVM's business, so it
  is a parameter, \<open>X k i m\<close>, and what the development relies on is the predicate
  \<open>langref\<close>: the effect the language reference documents for the instructions the compiler
  generates for integer programs. Control flow between the blocks of a function is the
  inductive relation \<open>mstep\<close>. A concrete instance shows that the laws can hold.
\<close>

section \<open>Machine states\<close>

text \<open>A register holds a 64-bit word, a truth value, or the address of a stack slot. A slot that
  was never stored to is \<open>None\<close>.\<close>

datatype sval =
    VWord "64 word"
  | VBool bool
  | VSlot nat

record mstate =
  m_regs :: "nat \<Rightarrow> sval option"
  m_args :: "64 word list"
  m_slots :: "64 word option list"

definition set_reg :: "nat \<Rightarrow> sval \<Rightarrow> mstate \<Rightarrow> mstate" where
  "set_reg k v m = m\<lparr>m_regs := (m_regs m)(k := Some v)\<rparr>"

lemma set_reg_simps [simp]:
  "m_regs (set_reg k v m) j = (if j = k then Some v else m_regs m j)"
  "m_args (set_reg k v m) = m_args m"
  "m_slots (set_reg k v m) = m_slots m"
  by (simp_all add: set_reg_def)

definition eval_const :: "ty \<Rightarrow> const \<Rightarrow> sval option" where
  "eval_const t c =
     (if t = IntT 64
      then (case c of CInt n \<Rightarrow> if int64 n then Some (VWord (word_of_int n)) else None | _ \<Rightarrow> None)
      else None)"

definition eval_val :: "mstate \<Rightarrow> val \<Rightarrow> sval option" where
  "eval_val m v =
     (case v of
        ConstV t c \<Rightarrow> eval_const t c
      | ArgV f i t \<Rightarrow> if i < length (m_args m) then Some (VWord (m_args m ! i)) else None
      | InstrV k t \<Rightarrow> m_regs m k
      | _ \<Rightarrow> None)"

definition eval_obj :: "mstate \<Rightarrow> obj \<Rightarrow> sval option" where
  "eval_obj m v = (case v of OVal x \<Rightarrow> eval_val m x | _ \<Rightarrow> None)"

lemma eval_obj_OVal [simp]: "eval_obj m (OVal v) = eval_val m v"
  by (simp add: eval_obj_def)

section \<open>The effect of instructions\<close>

definition bin_sem :: "opcode \<Rightarrow> 64 word \<Rightarrow> 64 word \<Rightarrow> 64 word option" where
  "bin_sem oc a b =
     (case oc of
        OpAdd \<Rightarrow> Some (a + b)
      | OpSub \<Rightarrow> Some (a - b)
      | OpMul \<Rightarrow> Some (a * b)
      | OpAnd \<Rightarrow> Some (a AND b)
      | OpOr \<Rightarrow> Some (a OR b)
      | OpXor \<Rightarrow> Some (a XOR b)
      | OpShl \<Rightarrow> if unat b < 64 then Some (push_bit (unat b) a) else None
      | OpLshr \<Rightarrow> if unat b < 64 then Some (drop_bit (unat b) a) else None
      | OpSrem \<Rightarrow> if b = 0 \<or> (sint a = - (2 ^ 63) \<and> sint b = -1) then None
                  else Some (word_of_int (sint a smod sint b)))"

definition icmp_sem :: "icmp \<Rightarrow> 64 word \<Rightarrow> 64 word \<Rightarrow> bool" where
  "icmp_sem c a b =
     (case c of
        IcmpEq \<Rightarrow> a = b
      | IcmpNe \<Rightarrow> a \<noteq> b
      | IcmpLt \<Rightarrow> sint a < sint b
      | IcmpLe \<Rightarrow> sint a \<le> sint b
      | IcmpGt \<Rightarrow> sint b < sint a
      | IcmpGe \<Rightarrow> sint b \<le> sint a)"

type_synonym llsem = "nat \<Rightarrow> instr \<Rightarrow> mstate \<Rightarrow> mstate option"

text \<open>\<open>alloca\<close> gives a fresh slot, \<open>store\<close> and \<open>load\<close> access one, the arithmetic
  instructions and \<open>icmp\<close> put their result into their register. Nothing is said of operands
  for which the reference leaves the result undefined or poison.\<close>

definition langref :: "llsem \<Rightarrow> bool" where
  "langref X \<longleftrightarrow>
     (\<forall>k m. X k (Alloca (IntT 64)) m = Some (set_reg k (VSlot (length (m_slots m))) (m\<lparr>m_slots := m_slots m @ [None]\<rparr>))) \<and>
     (\<forall>k m v p w q. eval_obj m v = Some (VWord w) \<longrightarrow> eval_obj m p = Some (VSlot q) \<longrightarrow> q < length (m_slots m) \<longrightarrow>
        X k (Store v p) m = Some (m\<lparr>m_slots := (m_slots m)[q := Some w]\<rparr>)) \<and>
     (\<forall>k m p q w. eval_obj m p = Some (VSlot q) \<longrightarrow> q < length (m_slots m) \<longrightarrow> m_slots m ! q = Some w \<longrightarrow>
        X k (Load p) m = Some (set_reg k (VWord w) m)) \<and>
     (\<forall>k m oc a b x y z. eval_obj m a = Some (VWord x) \<longrightarrow> eval_obj m b = Some (VWord y) \<longrightarrow> bin_sem oc x y = Some z \<longrightarrow>
        X k (Bin oc a b) m = Some (set_reg k (VWord z) m)) \<and>
     (\<forall>k m c a b x y. eval_obj m a = Some (VWord x) \<longrightarrow> eval_obj m b = Some (VWord y) \<longrightarrow>
        X k (Icmp c a b) m = Some (set_reg k (VBool (icmp_sem c x y)) m))"

lemma langrefD:
  assumes "langref X"
  shows "X k (Alloca (IntT 64)) m = Some (set_reg k (VSlot (length (m_slots m))) (m\<lparr>m_slots := m_slots m @ [None]\<rparr>))"
    and "eval_obj m v = Some (VWord w) \<Longrightarrow> eval_obj m p = Some (VSlot q) \<Longrightarrow> q < length (m_slots m) \<Longrightarrow>
        X k (Store v p) m = Some (m\<lparr>m_slots := (m_slots m)[q := Some w]\<rparr>)"
    and "eval_obj m p = Some (VSlot q) \<Longrightarrow> q < length (m_slots m) \<Longrightarrow> m_slots m ! q = Some w \<Longrightarrow>
        X k (Load p) m = Some (set_reg k (VWord w) m)"
    and "eval_obj m a = Some (VWord x) \<Longrightarrow> eval_obj m b = Some (VWord y) \<Longrightarrow> bin_sem oc x y = Some z \<Longrightarrow>
        X k (Bin oc a b) m = Some (set_reg k (VWord z) m)"
    and "eval_obj m a = Some (VWord x) \<Longrightarrow> eval_obj m b = Some (VWord y) \<Longrightarrow>
        X k (Icmp c a b) m = Some (set_reg k (VBool (icmp_sem c x y)) m)"
  using assms unfolding langref_def by simp_all

text \<open>An instance.\<close>

definition std_llsem :: llsem where
  "std_llsem k i m =
     (case i of
        Alloca t \<Rightarrow> Some (set_reg k (VSlot (length (m_slots m))) (m\<lparr>m_slots := m_slots m @ [None]\<rparr>))
      | Store v p \<Rightarrow>
          (case (eval_obj m v, eval_obj m p) of
             (Some (VWord w), Some (VSlot q)) \<Rightarrow> Some (m\<lparr>m_slots := (m_slots m)[q := Some w]\<rparr>)
           | _ \<Rightarrow> None)
      | Load p \<Rightarrow>
          (case eval_obj m p of
             Some (VSlot q) \<Rightarrow> if q < length (m_slots m) then map_option (\<lambda>w. set_reg k (VWord w) m) (m_slots m ! q) else None
           | _ \<Rightarrow> None)
      | Bin oc a b \<Rightarrow>
          (case (eval_obj m a, eval_obj m b) of
             (Some (VWord x), Some (VWord y)) \<Rightarrow> map_option (\<lambda>z. set_reg k (VWord z) m) (bin_sem oc x y)
           | _ \<Rightarrow> None)
      | Icmp c a b \<Rightarrow>
          (case (eval_obj m a, eval_obj m b) of
             (Some (VWord x), Some (VWord y)) \<Rightarrow> Some (set_reg k (VBool (icmp_sem c x y)) m)
           | _ \<Rightarrow> None)
      | _ \<Rightarrow> None)"

lemma std_langref: "langref std_llsem"
  by (auto simp: langref_def std_llsem_def)

section \<open>Running the blocks of a function\<close>

text \<open>A position is a block and an index into its code.\<close>

type_synonym codemap = "nat \<Rightarrow> (nat \<times> instr) list"

type_synonym mconf = "(nat \<times> nat) \<times> mstate"

inductive mstep :: "llsem \<Rightarrow> codemap \<Rightarrow> mconf \<Rightarrow> mconf \<Rightarrow> bool" for X :: llsem and C :: codemap where
  m_instr: "\<lbrakk>j < length (C b); C b ! j = (k, i); \<not> terminator i; X k i m = Some m'\<rbrakk> \<Longrightarrow>
     mstep X C ((b, j), m) ((b, Suc j), m')"
| m_br: "\<lbrakk>j < length (C b); C b ! j = (k, Br t)\<rbrakk> \<Longrightarrow> mstep X C ((b, j), m) ((t, 0), m)"
| m_cbr: "\<lbrakk>j < length (C b); C b ! j = (k, CBr c t e); eval_obj m c = Some (VBool d)\<rbrakk> \<Longrightarrow>
     mstep X C ((b, j), m) ((if d then t else e, 0), m)"

inductive_cases mstepE: "mstep X C ((b, j), m) c'"

abbreviation msteps :: "llsem \<Rightarrow> codemap \<Rightarrow> mconf \<Rightarrow> mconf \<Rightarrow> bool" where
  "msteps X C \<equiv> (mstep X C)\<^sup>*\<^sup>*"

text \<open>The next instruction returns the word \<open>w\<close>.\<close>

definition at_return :: "codemap \<Rightarrow> mconf \<Rightarrow> 64 word \<Rightarrow> bool" where
  "at_return C c w =
     (case c of ((b, j), m) \<Rightarrow>
        j < length (C b) \<and> (\<exists>k v. C b ! j = (k, Ret v) \<and> eval_obj m v = Some (VWord w)))"

definition returns :: "llsem \<Rightarrow> codemap \<Rightarrow> mconf \<Rightarrow> 64 word \<Rightarrow> bool" where
  "returns X C c w \<longleftrightarrow> (\<exists>c'. msteps X C c c' \<and> at_return C c' w)"

lemma returns_step: "msteps X C c c' \<Longrightarrow> returns X C c' w \<Longrightarrow> returns X C c w"
  unfolding returns_def by (meson rtranclp_trans)

text \<open>A run has one successor at each point and none at a return, so a function returns one
  value.\<close>

lemma mstep_deterministic: "mstep X C c c1 \<Longrightarrow> mstep X C c c2 \<Longrightarrow> c1 = c2"
  by (induction rule: mstep.induct) (erule mstepE; auto)+

lemma at_return_stuck: "at_return C c w \<Longrightarrow> \<not> mstep X C c c'"
  by (auto simp: at_return_def elim: mstepE split: prod.splits)

lemma returns_unique:
  assumes "returns X C c w" and "returns X C c w'"
  shows "w = w'"
proof -
  obtain c1 c2 where c1: "msteps X C c c1" "at_return C c1 w" and c2: "msteps X C c c2" "at_return C c2 w'"
    using assms by (auto simp: returns_def)
  have "c1 = c2"
    using c1(1) c2(1)
  proof (induction rule: converse_rtranclp_induct)
    case base
    then show ?case using at_return_stuck [OF c1(2)] by (auto elim: converse_rtranclpE)
  next
    case (step c d)
    have "c \<noteq> c2" using at_return_stuck [OF c2(2)] step.hyps(1) by metis
    then obtain d' where "mstep X C c d'" "msteps X C d' c2" using step.prems by (metis converse_rtranclpE)
    then show ?case using step.IH mstep_deterministic [OF step.hyps(1)] by blast
  qed
  then show ?thesis using c1(2) c2(2) by (auto simp: at_return_def split: prod.splits)
qed

end
