(* ===== verification/CompilerSim.thy ===== *)
theory CompilerSim
  imports CompilerGrow LlvmSem
begin

text \<open>
  The simulation between integer programs and the code generated for them. While the compiler
  goes from state \<open>s\<close> to \<open>s'\<close>, the code that ends up in place takes the machine from
  the end of what was written in \<open>s\<close> to the end of what is written in \<open>s'\<close>, with the
  effect the source has.
\<close>

section \<open>The relation between stores and machines\<close>

text \<open>What the builder of the library says of the instructions for integers.\<close>

definition typing_law :: "llapi \<Rightarrow> bool" where
  "typing_law L \<longleftrightarrow>
     (\<forall>st code t u. build L st code (Alloca t) = Some u \<longrightarrow> u = PtrT t) \<and>
     (\<forall>st code v t u. val_type v = PtrT t \<longrightarrow> build L st code (Load (OVal v)) = Some u \<longrightarrow> u = t) \<and>
     (\<forall>st code oc v w u. build L st code (Bin oc (OVal v) (OVal w)) = Some u \<longrightarrow> u = val_type v)"

lemma std_typing_law: "typing_law std_llapi"
  by (auto simp: typing_law_def std_llapi_def otype_def split: if_splits option.splits ty.splits)

definition slot_of :: "cstate \<Rightarrow> mstate \<Rightarrow> string \<Rightarrow> nat \<Rightarrow> bool" where
  "slot_of s m x q \<longleftrightarrow>
     (\<exists>k. dict_get (cs_locals s) x = Some (InstrV k (PtrT (IntT 64))) \<and> k < cs_next s \<and>
        m_regs m k = Some (VSlot q) \<and> q < length (m_slots m))"

text \<open>Every variable in scope has a slot of its own, which holds its value; other names have no
  value.\<close>

definition rel :: "cstate \<Rightarrow> store \<Rightarrow> mstate \<Rightarrow> bool" where
  "rel s \<rho> m \<longleftrightarrow>
     (\<forall>x. if dict_get (cs_locals s) x = None then \<rho> x = None
          else \<exists>q. slot_of s m x q \<and> m_slots m ! q = \<rho> x) \<and>
     (\<forall>x y q. slot_of s m x q \<longrightarrow> slot_of s m y q \<longrightarrow> x = y)"

definition int_env :: "cstate \<Rightarrow> bool" where
  "int_env s \<longleftrightarrow> dict_get (cs_types s) ''int'' = Some (IntT 64)"

text \<open>Registers below \<open>k\<close> and the slots are as before.\<close>

definition later :: "nat \<Rightarrow> mstate \<Rightarrow> mstate \<Rightarrow> bool" where
  "later k m m' \<longleftrightarrow> (\<forall>j < k. m_regs m' j = m_regs m j) \<and> m_args m' = m_args m \<and> m_slots m' = m_slots m"

lemma later_refl [simp]: "later k m m"
  by (simp add: later_def)

lemma later_trans: "later k m m' \<Longrightarrow> later k' m' m'' \<Longrightarrow> k \<le> k' \<Longrightarrow> later k m m''"
  by (simp add: later_def)

lemma later_set_reg: "k \<le> j \<Longrightarrow> later k m (set_reg j v m)"
  by (simp add: later_def)

definition bound :: "nat \<Rightarrow> val \<Rightarrow> bool" where
  "bound k v = (case v of InstrV j t \<Rightarrow> j < k | _ \<Rightarrow> True)"

lemma eval_val_later: "later k m m' \<Longrightarrow> bound k v \<Longrightarrow> eval_val m' v = eval_val m v"
  by (auto simp: later_def bound_def eval_val_def split: val.splits)

lemma slot_of_later:
  assumes "later (cs_next s) m m'"
  shows "slot_of s m' x q = slot_of s m x q"
  using assms unfolding slot_of_def later_def by auto

lemma rel_later: "later (cs_next s) m m' \<Longrightarrow> rel s \<rho> m' = rel s \<rho> m"
  using slot_of_later [of s m m'] unfolding rel_def by (simp add: later_def)

lemma slot_of_grow: "cs_locals s' = cs_locals s \<Longrightarrow> cs_next s \<le> cs_next s' \<Longrightarrow> slot_of s m x q \<Longrightarrow> slot_of s' m x q"
  unfolding slot_of_def by auto

lemma rel_grow:
  assumes "rel s \<rho> m" and "cs_locals s' = cs_locals s" and "cs_next s \<le> cs_next s'"
  shows "rel s' \<rho> m"
proof -
  have "slot_of s' m x q \<longleftrightarrow> slot_of s m x q" for x q
  proof
    assume "slot_of s' m x q"
    then obtain k where k: "dict_get (cs_locals s) x = Some (InstrV k (PtrT (IntT 64)))"
      "m_regs m k = Some (VSlot q)" "q < length (m_slots m)"
      by (auto simp: slot_of_def assms(2))
    then obtain q' where "slot_of s m x q'" using assms(1) unfolding rel_def by (metis option.distinct(1))
    then show "slot_of s m x q" using k by (auto simp: slot_of_def)
  qed (rule slot_of_grow [OF assms(2,3)])
  then show ?thesis using assms(1) by (simp add: rel_def assms(2))
qed

lemma rel_writes_to: "rel s \<rho> m \<Longrightarrow> writes_to M s s' \<Longrightarrow> rel s' \<rho> m"
  unfolding writes_to_def by (blast intro: rel_grow)

lemma int_env_writes_to: "int_env s \<Longrightarrow> writes_to M s s' \<Longrightarrow> int_env s'"
  by (simp add: int_env_def writes_to_def keeps_types_def)

lemma rel_get:
  assumes "rel s \<rho> m" and "\<rho> x = Some w"
  obtains k q where "dict_get (cs_locals s) x = Some (InstrV k (PtrT (IntT 64)))" "k < cs_next s"
    "m_regs m k = Some (VSlot q)" "q < length (m_slots m)" "m_slots m ! q = Some w"
  using assms unfolding rel_def slot_of_def by (metis option.distinct(1))

text \<open>Storing to the slot of a variable updates the store.\<close>

lemma rel_set:
  assumes "rel s \<rho> m" and "slot_of s m x q"
  shows "rel s (\<rho>(x := Some w)) (m\<lparr>m_slots := (m_slots m)[q := Some w]\<rparr>)"
proof -
  let ?m = "m\<lparr>m_slots := (m_slots m)[q := Some w]\<rparr>"
  have same: "slot_of s ?m y r \<longleftrightarrow> slot_of s m y r" for y r by (simp add: slot_of_def)
  have inj: "slot_of s m y r \<Longrightarrow> slot_of s m z r \<Longrightarrow> y = z" for y z r
    using assms(1) unfolding rel_def by blast
  have q: "q < length (m_slots m)" "dict_get (cs_locals s) x \<noteq> None" using assms(2) by (auto simp: slot_of_def)
  have "\<exists>r. slot_of s ?m y r \<and> m_slots ?m ! r = (\<rho>(x := Some w)) y" if y: "dict_get (cs_locals s) y \<noteq> None" for y
  proof (cases "y = x")
    case True
    then show ?thesis using assms(2) q(1) same by (auto intro!: exI [of _ q])
  next
    case False
    obtain r where r: "slot_of s m y r" "m_slots m ! r = \<rho> y"
      using assms(1) y unfolding rel_def by metis
    then have "r \<noteq> q" using inj [OF assms(2)] False by auto
    then show ?thesis using r same False by (auto intro!: exI [of _ r])
  qed
  then show ?thesis
    using assms(1) q(2) inj unfolding rel_def same by auto
qed

section \<open>Expressions\<close>

lemma emit_sim:
  assumes "emit L i s = Inr (v, s')" and "cs_builder s = Some b" and "b < length (cs_blocks s)" and "loaded C s'"
    and "\<not> terminator i" and "X (cs_next s) i m = Some m'"
  shows "mstep X C ((b, length (code s b)), m) ((b, length (code s' b)), m')"
    and "\<exists>t. v = InstrV (cs_next s) t \<and> build L (cs_structs s) (block_code s b) i = Some t"
    and "s' = push_instr b i s"
proof -
  show s': "s' = push_instr b i s" and "\<exists>t. v = InstrV (cs_next s) t \<and> build L (cs_structs s) (block_code s b) i = Some t"
    using emit_InrD [OF assms(1)] assms(2) by auto
  have "mstep X C ((b, length (code s b)), m) ((b, Suc (length (code s b))), m')"
    using loaded_push(2,3) [of C b i s] assms(3,4,5,6) unfolding s' by (intro m_instr) auto
  then show "mstep X C ((b, length (code s b)), m) ((b, length (code s' b)), m')"
    by (simp add: s' code_push assms(3))
qed

lemma word_binop_bin_sem:
  assumes "word_binop op a b = Some z"
  obtains oc where "opcode_of op = Some oc" "bin_sem oc a b = Some z"
  using assms by (cases op) (auto simp: word_binop_def opcode_of_def bin_sem_def)

lemma word_cmpop_icmp_sem:
  assumes "word_cmpop op a b = Some z"
  obtains c where "icmp_of op = Some c" "icmp_sem c a b = z"
  using assms by (cases op) (auto simp: word_cmpop_def icmp_of_def icmp_sem_def)

text \<open>From \<open>s\<close> to \<open>s'\<close> the code computes a value that evaluates to \<open>r\<close>, in a register that
  stays as it is from then on.\<close>

definition computes :: "llsem \<Rightarrow> codemap \<Rightarrow> nat \<Rightarrow> cstate \<Rightarrow> mstate \<Rightarrow> cstate \<Rightarrow> val \<Rightarrow> sval \<Rightarrow> bool" where
  "computes X C b s m s' x r \<longleftrightarrow>
     (\<exists>m'. msteps X C ((b, length (code s b)), m) ((b, length (code s' b)), m') \<and> later (cs_next s) m m' \<and>
        bound (cs_next s') x \<and> eval_val m' x = Some r)"

text \<open>One instruction that puts its result into its register.\<close>

lemma emit_computes:
  assumes "emit_obj L i s = Inr (v, s')" and "cs_builder s = Some b" and "b < length (cs_blocks s)" and "loaded C s'"
    and "\<not> terminator i" and "X (cs_next s) i m = Some (set_reg (cs_next s) r m)"
  obtains t where "v = OVal (InstrV (cs_next s) t)" "build L (cs_structs s) (block_code s b) i = Some t"
    "computes X C b s m s' (InstrV (cs_next s) t) r"
proof -
  obtain x where x: "emit L i s = Inr (x, s')" "v = OVal x" using assms(1) by (auto simp: emit_obj_def)
  note sim = emit_sim [where X = X, OF x(1) assms(2-6)]
  obtain t where t: "x = InstrV (cs_next s) t" "build L (cs_structs s) (block_code s b) i = Some t" using sim(2) by auto
  have "computes X C b s m s' x r"
    unfolding computes_def using sim(1,3)
    by (intro exI [of _ "set_reg (cs_next s) r m"]) (auto simp: t bound_def eval_val_def later_set_reg)
  then show thesis using that t x(2) by simp
qed

lemma computes_refl: "bound (cs_next s) x \<Longrightarrow> eval_val m x = Some r \<Longrightarrow> computes X C b s m s x r"
  unfolding computes_def by auto

text \<open>The intermediate state of two visits, with what the second one keeps.\<close>

lemma straight_frame:
  assumes "straight s s'" and "cs_builder s = Some b" and "b < length (cs_blocks s)" and "loaded C s'"
  shows "cs_builder s' = Some b" "b < length (cs_blocks s')" "writes_to {b} s s'" "loaded C s"
    "cs_next s \<le> cs_next s'" "is_open s' b = is_open s b" "length (cs_blocks s') = length (cs_blocks s)"
proof -
  note str = straightD [OF assms(1-3)]
  show "cs_builder s' = Some b" "b < length (cs_blocks s')" "writes_to {b} s s'"
    "is_open s' b = is_open s b" "length (cs_blocks s') = length (cs_blocks s)"
    using str assms(3) by simp_all
  show "loaded C s" by (rule loaded_writes_to [OF assms(4) str(4)])
  show "cs_next s \<le> cs_next s'" using str(4) by (simp add: writes_to_def)
qed

lemmas expr_frame = straight_frame [OF straight.visit_expr_R]

lemma emit_obj_straight: "\<not> terminator i \<Longrightarrow> emit_obj L i s = Inr (v, s') \<Longrightarrow> straight s s'"
  by (rule straight.withinD [OF straight.within_emit_obj])

text \<open>Two operands, one after the other.\<close>

lemma operands_sim:
  assumes 1: "computes X C b s m s1 x1 r1" and 2: "\<And>m1. later (cs_next s) m m1 \<Longrightarrow> computes X C b s1 m1 s2 x2 r2"
    and "cs_next s \<le> cs_next s1" and "cs_next s1 \<le> cs_next s2"
  obtains m2 where "msteps X C ((b, length (code s b)), m) ((b, length (code s2 b)), m2)" "later (cs_next s) m m2"
    "bound (cs_next s2) x1" "bound (cs_next s2) x2" "eval_val m2 x1 = Some r1" "eval_val m2 x2 = Some r2"
proof -
  obtain m1 where m1: "msteps X C ((b, length (code s b)), m) ((b, length (code s1 b)), m1)" "later (cs_next s) m m1"
    "bound (cs_next s1) x1" "eval_val m1 x1 = Some r1"
    using 1 unfolding computes_def by auto
  obtain m2 where m2: "msteps X C ((b, length (code s1 b)), m1) ((b, length (code s2 b)), m2)" "later (cs_next s1) m1 m2"
    "bound (cs_next s2) x2" "eval_val m2 x2 = Some r2"
    using 2 [OF m1(2)] unfolding computes_def by auto
  show thesis
  proof (rule that [OF _ _ _ m2(3) _ m2(4)])
    show "msteps X C ((b, length (code s b)), m) ((b, length (code s2 b)), m2)" using m1(1) m2(1) by (rule rtranclp_trans)
    show "later (cs_next s) m m2" by (rule later_trans [OF m1(2) m2(2) assms(3)])
    show "bound (cs_next s2) x1" using m1(3) assms(4) by (auto simp: bound_def split: val.splits)
    show "eval_val m2 x1 = Some r1" using m1(3,4) eval_val_later [OF m2(2)] by simp
  qed
qed

lemma computes_prepend:
  assumes "msteps X C ((b, length (code s b)), m) ((b, length (code s1 b)), m1)" and "later (cs_next s) m m1"
    and "cs_next s \<le> cs_next s1" and "computes X C b s1 m1 s2 x r"
  shows "computes X C b s m s2 x r"
proof -
  obtain m2 where m2: "msteps X C ((b, length (code s1 b)), m1) ((b, length (code s2 b)), m2)" "later (cs_next s1) m1 m2"
    "bound (cs_next s2) x" "eval_val m2 x = Some r"
    using assms(4) unfolding computes_def by auto
  have "msteps X C ((b, length (code s b)), m) ((b, length (code s2 b)), m2)"
    using assms(1) m2(1) by (rule rtranclp_trans)
  then show ?thesis
    using m2 later_trans [OF assms(2) m2(2) assms(3)] unfolding computes_def by (intro exI [of _ m2]) simp
qed

lemma typing_lawD:
  assumes "typing_law L"
  shows "build L st cd (Alloca t) = Some u \<Longrightarrow> u = PtrT t"
    and "val_type v = PtrT t \<Longrightarrow> build L st cd (Load (OVal v)) = Some u \<Longrightarrow> u = t"
    and "build L st cd (Bin oc (OVal v) (OVal w)) = Some u \<Longrightarrow> u = val_type v"
  using assms unfolding typing_law_def by blast+

lemma bin_sim:
  assumes "typing_law L" and "langref X" and "emit_obj L (Bin oc (OVal x) (OVal y)) s = Inr (v, s')"
    and "cs_builder s = Some b" and "b < length (cs_blocks s)" and "loaded C s'" and "val_type x = IntT 64"
    and "eval_val m x = Some (VWord a)" and "eval_val m y = Some (VWord c)" and "bin_sem oc a c = Some w"
  shows "\<exists>z. v = OVal z \<and> val_type z = IntT 64 \<and> computes X C b s m s' z (VWord w)"
proof -
  have "X (cs_next s) (Bin oc (OVal x) (OVal y)) m = Some (set_reg (cs_next s) (VWord w) m)"
    using langrefD(4) [OF assms(2)] assms(8-10) by simp
  then obtain t where t: "v = OVal (InstrV (cs_next s) t)"
    "build L (cs_structs s) (block_code s b) (Bin oc (OVal x) (OVal y)) = Some t"
    "computes X C b s m s' (InstrV (cs_next s) t) (VWord w)"
    using emit_computes [where X = X and m = m and r = "VWord w", OF assms(3-6)] by auto
  show ?thesis using t typing_lawD(3) [OF assms(1) t(2)] assms(7) by simp
qed

text \<open>An expression with a value is computed by its code.\<close>

definition simulated :: "llapi \<Rightarrow> llsem \<Rightarrow> codemap \<Rightarrow> expr \<Rightarrow> bool" where
  "simulated L X C e \<longleftrightarrow>
     (\<forall>s v s' b \<rho> m w. visit_expr L e s = Inr (v, s') \<longrightarrow> cs_builder s = Some b \<longrightarrow> b < length (cs_blocks s) \<longrightarrow>
        int_env s \<longrightarrow> rel s \<rho> m \<longrightarrow> word_eval \<rho> e = Some w \<longrightarrow> loaded C s' \<longrightarrow>
        (\<exists>x. v = OVal x \<and> val_type x = IntT 64 \<and> computes X C b s m s' x (VWord w)))"

lemma two_operands:
  assumes "simulated L X C l" and "simulated L X C r"
    and run: "visit_expr L l s = Inr (lhs, s1)" "visit_expr L r s1 = Inr (rhs, s2)"
    and b: "cs_builder s = Some b" "b < length (cs_blocks s)"
    and "int_env s" and "rel s \<rho> m" and "word_eval \<rho> l = Some a" and "word_eval \<rho> r = Some c" and "loaded C s2"
  obtains x y m2 where "lhs = OVal x" "rhs = OVal y" "val_type x = IntT 64" "val_type y = IntT 64"
    "msteps X C ((b, length (code s b)), m) ((b, length (code s2 b)), m2)" "later (cs_next s) m m2"
    "eval_val m2 x = Some (VWord a)" "eval_val m2 y = Some (VWord c)"
proof -
  note st1 = straight.visit_expr_R [OF run(1)] and st2 = straight.visit_expr_R [OF run(2)]
  have b1: "cs_builder s1 = Some b" "b < length (cs_blocks s1)"
    using straightD [OF st1 b] b by simp_all
  note f2 = straight_frame [OF st2 b1 assms(11)]
  note f1 = straight_frame [OF st1 b f2(4)]
  obtain x where x: "lhs = OVal x" "val_type x = IntT 64" "computes X C b s m s1 x (VWord a)"
    using assms(1) run(1) b assms(7-9) f2(4) unfolding simulated_def by blast
  have r: "\<exists>y. rhs = OVal y \<and> val_type y = IntT 64 \<and> computes X C b s1 m1 s2 y (VWord c)" if "later (cs_next s) m m1" for m1
  proof -
    have "rel s1 \<rho> m1" using rel_writes_to [OF _ f1(3)] rel_later [OF that] assms(8) by simp
    then show ?thesis
      using assms(2) run(2) b1 int_env_writes_to [OF assms(7) f1(3)] assms(10,11) unfolding simulated_def by blast
  qed
  obtain y where y: "rhs = OVal y" "val_type y = IntT 64" using r [OF later_refl] by auto
  have "computes X C b s1 m1 s2 y (VWord c)" if "later (cs_next s) m m1" for m1
    using r [OF that] by (simp add: y(1))
  from operands_sim [OF x(3) this f1(5) f2(5)] show thesis using that [OF x(1) y(1) x(2) y(2)] by blast
qed

lemma unary_sim:
  assumes "typing_law L" and "langref X" and IH: "simulated L X C e"
    and visit: "visit_expr L (UnaryOp op e) s = Inr (v, s')" and b: "cs_builder s = Some b" "b < length (cs_blocks s)"
    and env: "int_env s" "rel s \<rho> m" and val: "word_eval \<rho> (UnaryOp op e) = Some w" and C: "loaded C s'"
  shows "\<exists>x. v = OVal x \<and> val_type x = IntT 64 \<and> computes X C b s m s' x (VWord w)"
proof -
  obtain arg s1 where run: "visit_expr L e s = Inr (arg, s1)" "visit_unaryop L op arg s1 = Inr (v, s')"
    using visit by auto
  obtain a where a: "word_eval \<rho> e = Some a"
    "(case op of Invert \<Rightarrow> Some (NOT a) | USub \<Rightarrow> Some (- a) | UAdd \<Rightarrow> Some a | UNot \<Rightarrow> None) = Some w"
    using val by (auto simp: Option.bind_eq_Some_conv)
  have st: "straight s s1" "straight s1 s'"
    using straight.visit_expr_R [OF run(1)] straight.withinD [OF straight.within_visit_unaryop run(2)] by simp_all
  have b1: "cs_builder s1 = Some b" "b < length (cs_blocks s1)"
    using straightD [OF st(1) b] b(2) by simp_all
  note f2 = straight_frame [OF st(2) b1 C]
  note f1 = straight_frame [OF st(1) b f2(4)]
  obtain x where x: "arg = OVal x" "val_type x = IntT 64" "computes X C b s m s1 x (VWord a)"
    using IH run(1) b env a(1) f2(4) unfolding simulated_def by blast
  obtain m1 where m1: "msteps X C ((b, length (code s b)), m) ((b, length (code s1 b)), m1)" "later (cs_next s) m m1"
    "eval_val m1 x = Some (VWord a)"
    using x(3) unfolding computes_def by auto
  have const: "eval_val m1 (ConstV (IntT 64) (CInt n)) = Some (VWord (word_of_int n))" if "int64 n" for n
    using that by (simp add: eval_val_def eval_const_def)
  show ?thesis
  proof (cases op)
    case UAdd
    then show ?thesis using run(2) a(2) x by (auto simp: visit_unaryop_def)
  next
    case Invert
    have "emit_obj L (Bin OpXor (OVal x) (OVal (ConstV (IntT 64) (CInt (-1))))) s1 = Inr (v, s')"
      using run(2) by (auto simp: Invert visit_unaryop_def x(1,2) obj_type_def)
    from bin_sim [where X = X and m = m1 and w = w, OF assms(1,2) this b1 C x(2) m1(3) const]
    have "\<exists>z. v = OVal z \<and> val_type z = IntT 64 \<and> computes X C b s1 m1 s' z (VWord w)"
      using a(2) by (auto simp: int64_def bin_sem_def Invert)
    then show ?thesis using computes_prepend [OF m1(1,2) f1(5)] by blast
  next
    case USub
    have "emit_obj L (Bin OpSub (OVal (ConstV (IntT 64) (CInt 0))) (OVal x)) s1 = Inr (v, s')"
      using run(2) by (auto simp: USub visit_unaryop_def x(1,2) obj_type_def)
    from bin_sim [where X = X and m = m1 and w = w, OF assms(1,2) this b1 C _ const m1(3)]
    have "\<exists>z. v = OVal z \<and> val_type z = IntT 64 \<and> computes X C b s1 m1 s' z (VWord w)"
      using a(2) by (auto simp: int64_def bin_sem_def USub)
    then show ?thesis using computes_prepend [OF m1(1,2) f1(5)] by blast
  next
    case UNot
    then show ?thesis using a(2) by simp
  qed
qed

lemma binop_sim:
  assumes laws: "typing_law L" "langref X" and sub: "simulated L X C l" "simulated L X C r"
    and visit: "visit_expr L (BinOp l op r) s = Inr (v, s')" and b: "cs_builder s = Some b" "b < length (cs_blocks s)"
    and env: "int_env s" "rel s \<rho> m" and val: "word_eval \<rho> (BinOp l op r) = Some w" and C: "loaded C s'"
  shows "\<exists>z. v = OVal z \<and> val_type z = IntT 64 \<and> computes X C b s m s' z (VWord w)"
proof -
  obtain lhs s1 rhs s2 where run: "visit_expr L l s = Inr (lhs, s1)" "visit_expr L r s1 = Inr (rhs, s2)"
    "visit_binop L op lhs rhs s2 = Inr (v, s')"
    using visit by auto
  obtain a c where ab: "word_eval \<rho> l = Some a" "word_eval \<rho> r = Some c" "word_binop op a c = Some w"
    using val by (auto simp: Option.bind_eq_Some_conv)
  obtain oc where oc: "opcode_of op = Some oc" "bin_sem oc a c = Some w" using word_binop_bin_sem [OF ab(3)] .
  have e: "emit_obj L (Bin oc lhs rhs) s2 = Inr (v, s')" using run(3) by (simp add: visit_binop_def oc)
  have 12: "straight s s2"
    using straight.R_trans straight.visit_expr_R [OF run(1)] straight.visit_expr_R [OF run(2)] by blast
  have b2: "cs_builder s2 = Some b" "b < length (cs_blocks s2)" using straightD [OF 12 b] b(2) by simp_all
  have C2: "loaded C s2" using straight_frame(4) [OF emit_obj_straight [OF _ e] b2 C] by simp
  obtain x y m2 where 2: "lhs = OVal x" "rhs = OVal y" "val_type x = IntT 64"
    "msteps X C ((b, length (code s b)), m) ((b, length (code s2 b)), m2)" "later (cs_next s) m m2"
    "eval_val m2 x = Some (VWord a)" "eval_val m2 y = Some (VWord c)"
    using two_operands [OF sub run(1,2) b env ab(1,2) C2] by blast
  obtain z where z: "v = OVal z" "val_type z = IntT 64" "computes X C b s2 m2 s' z (VWord w)"
    using bin_sim [OF laws _ b2 C 2(3,6,7) oc(2)] e by (auto simp: 2(1,2))
  show ?thesis
    using z(1,2) computes_prepend [OF 2(4,5) _ z(3)] straight_frame(5) [OF 12 b C2] by blast
qed

lemma name_sim:
  assumes laws: "typing_law L" "langref X"
    and visit: "visit_expr L (Name n) s = Inr (v, s')" and b: "cs_builder s = Some b" "b < length (cs_blocks s)"
    and env: "int_env s" "rel s \<rho> m" and val: "word_eval \<rho> (Name n) = Some w" and C: "loaded C s'"
  shows "\<exists>x. v = OVal x \<and> val_type x = IntT 64 \<and> computes X C b s m s' x (VWord w)"
proof -
  have val': "\<rho> n = Some w" using val by simp
  obtain k q where k: "dict_get (cs_locals s) n = Some (InstrV k (PtrT (IntT 64)))" "k < cs_next s"
    "m_regs m k = Some (VSlot q)" "q < length (m_slots m)" "m_slots m ! q = Some w"
    using rel_get [OF env(2) val'] .
  have e: "emit_obj L (Load (OVal (InstrV k (PtrT (IntT 64))))) s = Inr (v, s')"
    using visit by (simp add: visit_Name_def k(1))
  have "X (cs_next s) (Load (OVal (InstrV k (PtrT (IntT 64))))) m = Some (set_reg (cs_next s) (VWord w) m)"
    using langrefD(3) [OF laws(2)] k by (simp add: eval_val_def)
  then obtain t where t: "v = OVal (InstrV (cs_next s) t)"
    "build L (cs_structs s) (block_code s b) (Load (OVal (InstrV k (PtrT (IntT 64))))) = Some t"
    "computes X C b s m s' (InstrV (cs_next s) t) (VWord w)"
    using emit_computes [where X = X and m = m and r = "VWord w", OF e b C] by auto
  have "t = IntT 64" by (rule typing_lawD(2) [OF laws(1) _ t(2)]) simp
  then show ?thesis using t by simp
qed

lemma expr_simulated:
  assumes "typing_law L" and "langref X"
  shows "simulated L X C e"
proof (induction e)
  case (BinOp l op r)
  then show ?case unfolding simulated_def [of L X C "BinOp l op r"] by (blast intro: binop_sim [OF assms])
next
  case (UnaryOp op e)
  then show ?case unfolding simulated_def [of L X C "UnaryOp op e"] by (blast intro: unary_sim [OF assms])
next
  case (Name n)
  show ?case unfolding simulated_def by (blast intro: name_sim [OF assms])
next
  case (Constant c)
  show ?case
    unfolding simulated_def
    by (auto simp: visit_Constant_def types_get_def int_env_def eval_val_def eval_const_def bound_def
        intro!: computes_refl split: const.splits if_splits)
qed (simp_all add: simulated_def)

lemmas expr_sim = expr_simulated [unfolded simulated_def, rule_format]

end
