(* ===== verification/CompilerSimStmt.thy ===== *)
theory CompilerSimStmt
  imports CompilerSim
begin

text \<open>
  The simulation for statements without declarations: the code of a statement takes the machine
  to where the compiler continues, or returns what the statement returns.
\<close>

section \<open>Outcomes\<close>

text \<open>From position \<open>p\<close> the code reaches \<open>p'\<close> with a store related by \<open>R\<close>, or returns.\<close>

definition leads ::
  "llsem \<Rightarrow> codemap \<Rightarrow> nat \<times> nat \<Rightarrow> mstate \<Rightarrow> 64 word outcome \<Rightarrow> nat \<times> nat \<Rightarrow> (store \<Rightarrow> mstate \<Rightarrow> bool) \<Rightarrow> bool" where
  "leads X C p m out p' R \<longleftrightarrow>
     (case out of
        Normal \<rho> \<Rightarrow> \<exists>m'. msteps X C (p, m) (p', m') \<and> R \<rho> m'
      | Returned w \<Rightarrow> returns X C (p, m) w)"

lemma leads_before: "msteps X C (p, m) (q, m1) \<Longrightarrow> leads X C q m1 out p' R \<Longrightarrow> leads X C p m out p' R"
  by (cases out) (auto simp: leads_def intro: returns_step rtranclp_trans)

lemma leads_after:
  assumes "leads X C p m out q R"
    and "\<And>\<rho> m1. out = Normal \<rho> \<Longrightarrow> R \<rho> m1 \<Longrightarrow> \<exists>m2. msteps X C (q, m1) (p', m2) \<and> R' \<rho> m2"
  shows "leads X C p m out p' R'"
proof (cases out)
  case (Normal \<rho>)
  then obtain m1 where m1: "msteps X C (p, m) (q, m1)" "R \<rho> m1" using assms(1) by (auto simp: leads_def)
  obtain m2 where "msteps X C (q, m1) (p', m2)" "R' \<rho> m2" using assms(2) [OF Normal m1(2)] by auto
  then have "msteps X C (p, m) (p', m2) \<and> R' \<rho> m2" using rtranclp_trans [OF m1(1)] by blast
  then show ?thesis by (auto simp: leads_def Normal)
qed (use assms(1) in \<open>simp add: leads_def\<close>)

lemma leads_seq:
  assumes "leads X C p m (Normal \<rho>) q R" and "\<And>m1. R \<rho> m1 \<Longrightarrow> leads X C q m1 out p' R'"
  shows "leads X C p m out p' R'"
  using assms unfolding leads_def [of X C p m "Normal \<rho>"] by (auto intro: leads_before)

text \<open>A loop whose test and body behave as the source's behaves as the source's loop.\<close>

lemma loop_leads:
  assumes test: "\<And>\<rho> m d. R \<rho> m \<Longrightarrow> word_test \<rho> test = Some d \<Longrightarrow>
      \<exists>m'. msteps X C ((h, 0), m) ((if d then bd else ex, 0), m') \<and> R \<rho> m'"
    and body: "\<And>k \<rho> m out. R \<rho> m \<Longrightarrow> exec_body k \<rho> body = Some out \<Longrightarrow> leads X C (bd, 0) m out (h, 0) R"
  shows "R \<rho> m \<Longrightarrow> exec_stmt k \<rho> (While test body []) = Some out \<Longrightarrow> leads X C (h, 0) m out (ex, 0) R"
proof (induction k arbitrary: \<rho> m)
  case (Suc k)
  obtain d where d: "word_test \<rho> test = Some d" using Suc.prems(2) by (auto simp: Option.bind_eq_Some_conv)
  obtain m1 where m1: "msteps X C ((h, 0), m) ((if d then bd else ex, 0), m1)" "R \<rho> m1"
    using test [OF Suc.prems(1) d] by auto
  show ?case
  proof (cases d)
    case False
    then show ?thesis using Suc.prems(2) m1 d by (auto simp: leads_def)
  next
    case True
    obtain out1 where out1: "exec_body k \<rho> body = Some out1"
      using Suc.prems(2) d True by (auto split: option.splits)
    have 1: "leads X C (h, 0) m out1 (h, 0) R"
      using leads_before [OF m1(1)] body [OF m1(2) out1] True by simp
    show ?thesis
    proof (cases out1)
      case (Normal \<rho>')
      have "exec_stmt k \<rho>' (While test body []) = Some out"
        using Suc.prems(2) by (simp add: d True out1 Normal)
      then show ?thesis using leads_seq [OF 1 [unfolded Normal]] Suc.IH by blast
    next
      case (Returned w)
      then have "out = out1" using Suc.prems(2) by (simp add: d True out1)
      then show ?thesis using 1 by (simp add: leads_def Returned)
    qed
  qed
qed simp

section \<open>Tests\<close>

lemma test_sim:
  assumes "typing_law L" and "langref X" and visit: "visit_expr L test s = Inr (c, s')"
    and b: "cs_builder s = Some b" "b < length (cs_blocks s)" and env: "int_env s" "rel s \<rho> m"
    and val: "word_test \<rho> test = Some d" and C: "loaded C s'"
  obtains m' where "msteps X C ((b, length (code s b)), m) ((b, length (code s' b)), m')" "later (cs_next s) m m'"
    "eval_obj m' c = Some (VBool d)"
proof -
  obtain l op r where t: "test = Compare l [op] [r]"
    using val unfolding word_test_def by (auto split: expr.splits list.splits)
  obtain x y where xy: "word_eval \<rho> l = Some x" "word_eval \<rho> r = Some y" "word_cmpop op x y = Some d"
    using val by (auto simp: word_test_def t Option.bind_eq_Some_conv)
  obtain ic where ic: "icmp_of op = Some ic" "icmp_sem ic x y = d" using word_cmpop_icmp_sem [OF xy(3)] .
  obtain lhs s1 rhs s2 where run: "visit_expr L l s = Inr (lhs, s1)" "visit_expr L r s1 = Inr (rhs, s2)"
    "visit_icmp L op lhs rhs s2 = Inr (c, s')"
    using visit by (auto simp: t)
  have e: "emit_obj L (Icmp ic lhs rhs) s2 = Inr (c, s')" using run(3) by (simp add: visit_icmp_def ic)
  have 12: "straight s s2"
    using straight.R_trans straight.visit_expr_R [OF run(1)] straight.visit_expr_R [OF run(2)] by blast
  have b2: "cs_builder s2 = Some b" "b < length (cs_blocks s2)" using straightD [OF 12 b] b(2) by simp_all
  have C2: "loaded C s2" using straight_frame(4) [OF emit_obj_straight [OF _ e] b2 C] by simp
  note sim = expr_simulated [OF assms(1,2)]
  obtain p q m2 where 2: "lhs = OVal p" "rhs = OVal q"
    "msteps X C ((b, length (code s b)), m) ((b, length (code s2 b)), m2)" "later (cs_next s) m m2"
    "eval_val m2 p = Some (VWord x)" "eval_val m2 q = Some (VWord y)"
    using two_operands [OF sim sim run(1,2) b env xy(1,2) C2] by blast
  have "X (cs_next s2) (Icmp ic lhs rhs) m2 = Some (set_reg (cs_next s2) (VBool d) m2)"
    using langrefD(5) [OF assms(2)] 2(5,6) by (simp add: 2(1,2) ic(2))
  then obtain t where t: "c = OVal (InstrV (cs_next s2) t)"
    "computes X C b s2 m2 s' (InstrV (cs_next s2) t) (VBool d)"
    using emit_computes [where X = X and m = m2 and r = "VBool d", OF e b2 C] by auto
  from computes_prepend [OF 2(3,4) _ t(2)] straight_frame(5) [OF 12 b C2]
  have "computes X C b s m s' (InstrV (cs_next s2) t) (VBool d)" by blast
  then show thesis using that by (auto simp: computes_def t(1))
qed

section \<open>Statements\<close>

text \<open>The end of the code written so far, when the builder is at \<open>b\<close>.\<close>

abbreviation here :: "cstate \<Rightarrow> nat \<Rightarrow> nat \<times> nat" where
  "here s b \<equiv> (b, length (code s b))"

text \<open>A visit from \<open>s\<close> to \<open>s'\<close> whose code has the outcome of the source.\<close>

definition lands_in :: "llsem \<Rightarrow> codemap \<Rightarrow> cstate \<Rightarrow> nat \<Rightarrow> mstate \<Rightarrow> 64 word outcome \<Rightarrow> cstate \<Rightarrow> bool" where
  "lands_in X C s b m out s' \<longleftrightarrow>
     (\<exists>b'. cs_builder s' = Some b' \<and>
        leads X C (here s b) m out (here s' b') (\<lambda>\<rho> m'. rel s' \<rho> m' \<and> is_open s' b'))"

definition ready :: "cstate \<Rightarrow> nat \<Rightarrow> store \<Rightarrow> mstate \<Rightarrow> bool" where
  "ready s b \<rho> m \<longleftrightarrow>
     cs_builder s = Some b \<and> b < length (cs_blocks s) \<and> is_open s b \<and> int_env s \<and> rel s \<rho> m"

definition stmt_simulated :: "llapi \<Rightarrow> llsem \<Rightarrow> codemap \<Rightarrow> stmt \<Rightarrow> bool" where
  "stmt_simulated L X C st \<longleftrightarrow>
     (\<forall>k \<rho> out s s' b m. visit_stmt L st s = Inr ((), s') \<longrightarrow> ready s b \<rho> m \<longrightarrow>
        exec_stmt k \<rho> st = Some out \<longrightarrow> loaded C s' \<longrightarrow> lands_in X C s b m out s')"

definition body_simulated :: "llapi \<Rightarrow> llsem \<Rightarrow> codemap \<Rightarrow> stmt list \<Rightarrow> bool" where
  "body_simulated L X C body \<longleftrightarrow>
     (\<forall>k \<rho> out s s' b m. iterS (visit_stmt L) body s = Inr ((), s') \<longrightarrow> ready s b \<rho> m \<longrightarrow>
        exec_body k \<rho> body = Some out \<longrightarrow> loaded C s' \<longrightarrow> lands_in X C s b m out s')"

lemma body_simulatedD:
  assumes "body_simulated L X C body" and "iterS (visit_stmt L) body s = Inr (u, s')" and "ready s b \<rho> m"
    and "exec_body k \<rho> body = Some out" and "loaded C s'"
  shows "lands_in X C s b m out s'"
  using assms unfolding body_simulated_def by simp

lemma lands_in_seq:
  assumes 1: "lands_in X C s b m (Normal \<rho>) s1" and "grown s s1" and "ready s b \<rho>0 m"
    and 2: "\<And>b1 m1. ready s1 b1 \<rho> m1 \<Longrightarrow> lands_in X C s1 b1 m1 out s'"
  shows "lands_in X C s b m out s'"
proof -
  obtain b1 m1 where 1: "cs_builder s1 = Some b1" "msteps X C (here s b, m) (here s1 b1, m1)"
    "rel s1 \<rho> m1" "is_open s1 b1"
    using 1 by (auto simp: lands_in_def leads_def)
  then have "ready s1 b1 \<rho> m1"
    using assms(2,3) by (auto simp: ready_def grown_def int_env_def keeps_types_def)
  from 2 [OF this] show ?thesis using leads_before [OF 1(2)] unfolding lands_in_def by blast
qed

lemma body_sim:
  assumes "\<And>st. st \<in> set body \<Longrightarrow> stmt_simulated L X C st \<and> grown.within (visit_stmt L st)"
  shows "body_simulated L X C body"
  using assms
proof (induction body)
  case Nil
  then show ?case by (auto simp: body_simulated_def lands_in_def ready_def leads_def)
next
  case (Cons st body)
  show ?case
    unfolding body_simulated_def
  proof (intro allI impI)
    fix k \<rho> out s s' b m
    assume visit: "iterS (visit_stmt L) (st # body) s = Inr ((), s')" and rdy: "ready s b \<rho> m"
      and val: "exec_body k \<rho> (st # body) = Some out" and C: "loaded C s'"
    obtain s1 where run: "visit_stmt L st s = Inr ((), s1)" "iterS (visit_stmt L) body s1 = Inr ((), s')"
      using visit by auto
    have "grown.within (iterS (visit_stmt L) body)" using Cons.prems by (intro grown.within_iter) simp
    then have g: "grown s s1" "grown s1 s'"
      using grown.withinD [where m = "visit_stmt L st", OF _ run(1)] grown.withinD [where m = "iterS (visit_stmt L) body", OF _ run(2)]
        Cons.prems [of st] by simp_all
    have b: "cs_builder s = Some b" "b < length (cs_blocks s)" using rdy by (simp_all add: ready_def)
    obtain b1 where b1: "cs_builder s1 = Some b1" "b1 < length (cs_blocks s1)"
      using g(1) b by (auto simp: grown_def)
    have C1: "loaded C s1" by (rule loaded_grown [OF C g(2) b1])
    obtain out1 where out1: "exec_stmt k \<rho> st = Some out1" using val by (auto split: option.splits)
    have l1: "lands_in X C s b m out1 s1"
      using Cons.prems [of st] run(1) rdy out1 C1 unfolding stmt_simulated_def by simp
    show "lands_in X C s b m out s'"
    proof (cases out1)
      case (Normal \<rho>1)
      have "exec_body k \<rho>1 body = Some out" using val by (simp add: out1 Normal)
      moreover have "body_simulated L X C body" using Cons by simp
      ultimately show ?thesis
        using lands_in_seq [OF l1 [unfolded Normal] g(1) rdy] body_simulatedD [OF _ run(2) _ _ C] by blast
    next
      case (Returned w)
      then have "out = Returned w" using val by (simp add: out1)
      then show ?thesis
        using l1 g(2) b1 by (auto simp: Returned lands_in_def leads_def grown_def)
    qed
  qed
qed

subsection \<open>Straight-line statements\<close>

lemma assign_sim:
  assumes "typing_law L" and "langref X"
  shows "stmt_simulated L X C (Assign [Name x] e)"
  unfolding stmt_simulated_def
proof (intro allI impI)
  fix k \<rho> out s s' b m
  assume visit: "visit_stmt L (Assign [Name x] e) s = Inr ((), s')" and rdy: "ready s b \<rho> m"
    and val: "exec_stmt k \<rho> (Assign [Name x] e) = Some out" and C: "loaded C s'"
  have b: "cs_builder s = Some b" "b < length (cs_blocks s)" "is_open s b" and env: "int_env s" "rel s \<rho> m"
    using rdy by (simp_all add: ready_def)
  obtain w where w: "word_eval \<rho> e = Some w" "out = Normal (\<rho>(x := Some w))" using val by (cases k) auto
  obtain alloc v s1 where run: "dict_get (cs_locals s) x = Some alloc" "visit_expr L e s = Inr (v, s1)"
    "emit_unit L (Store v (OVal alloc)) s1 = Inr ((), s')"
    using visit by (auto simp: visit_Assign_def split: option.splits)
  obtain q where q: "slot_of s m x q" using env(2) run(1) unfolding rel_def by (metis option.distinct(1))
  then obtain r where r: "alloc = InstrV r (PtrT (IntT 64))" "r < cs_next s" "m_regs m r = Some (VSlot q)"
    "q < length (m_slots m)"
    using run(1) by (auto simp: slot_of_def)
  have b1: "cs_builder s1 = Some b" "b < length (cs_blocks s1)"
    using straightD [OF straight.visit_expr_R [OF run(2)] b(1,2)] b(2) by simp_all
  have s': "s' = push_instr b (Store v (OVal alloc)) s1" by (rule emit_unitD [OF run(3) b1(1)])
  note pushed = loaded_push [OF C [unfolded s'] b1(2)]
  note f = expr_frame [OF run(2) b(1,2) pushed(1)]
  obtain y m1 where y: "v = OVal y" "msteps X C (here s b, m) (here s1 b, m1)" "later (cs_next s) m m1"
    "eval_val m1 y = Some (VWord w)"
    using expr_sim [OF assms run(2) b(1,2) env w(1) pushed(1)] unfolding computes_def by blast
  let ?m = "m1\<lparr>m_slots := (m_slots m1)[q := Some w]\<rparr>"
  have slot: "slot_of s m1 x q" using slot_of_later [OF y(3)] q by simp
  have "X (cs_next s1) (Store v (OVal alloc)) m1 = Some ?m"
    using langrefD(2) [OF assms(2)] y slot r by (auto simp: slot_of_def eval_val_def run(1) later_def)
  then have "mstep X C (here s1 b, m1) ((b, Suc (length (code s1 b))), ?m)"
    using pushed(2,3) by (intro m_instr) auto
  then have "msteps X C (here s b, m) (here s' b, ?m)"
    using y(2) by (simp add: s' code_push b1(2))
  moreover have "rel s' (\<rho>(x := Some w)) ?m"
  proof (rule rel_writes_to)
    show "rel s (\<rho>(x := Some w)) ?m" using rel_set [OF _ slot] rel_later [OF y(3)] env(2) by simp
    show "writes_to {b} s s'" using writes_to_trans [OF f(3) writes_to_push [OF b1(2)]] by (simp add: s')
  qed
  moreover have "is_open s' b"
    using f(6) b(3) by (simp add: is_open_def s' push_instr_code b1(2))
  ultimately show "lands_in X C s b m out s'"
    using b1(1) by (auto simp: lands_in_def leads_def w(2) s')
qed

lemma return_sim:
  assumes "typing_law L" and "langref X"
  shows "stmt_simulated L X C (Return (Some e))"
  unfolding stmt_simulated_def
proof (intro allI impI)
  fix k \<rho> out s s' b m
  assume visit: "visit_stmt L (Return (Some e)) s = Inr ((), s')" and rdy: "ready s b \<rho> m"
    and val: "exec_stmt k \<rho> (Return (Some e)) = Some out" and C: "loaded C s'"
  have b: "cs_builder s = Some b" "b < length (cs_blocks s)" and env: "int_env s" "rel s \<rho> m"
    using rdy by (simp_all add: ready_def)
  obtain w where w: "word_eval \<rho> e = Some w" "out = Returned w" using val by (cases k) auto
  obtain v s1 where run: "visit_expr L e s = Inr (v, s1)" "emit_unit L (Ret v) s1 = Inr ((), s')"
    using visit by (auto simp: visit_Return_def)
  have b1: "cs_builder s1 = Some b" "b < length (cs_blocks s1)"
    using straightD [OF straight.visit_expr_R [OF run(1)] b(1,2)] b(2) by simp_all
  have s': "s' = push_instr b (Ret v) s1" by (rule emit_unitD [OF run(2) b1(1)])
  note pushed = loaded_push [OF C [unfolded s'] b1(2)]
  obtain y m1 where y: "v = OVal y" "msteps X C (here s b, m) (here s1 b, m1)" "eval_val m1 y = Some (VWord w)"
    using expr_sim [OF assms run(1) b(1,2) env w(1) pushed(1)] unfolding computes_def by blast
  have "at_return C (here s1 b, m1) w" using pushed(2,3) y by (simp add: at_return_def)
  then have "returns X C (here s b, m) w" using y(2) by (auto simp: returns_def)
  then show "lands_in X C s b m out s'" using b1(1) by (simp add: lands_in_def leads_def w(2) s')
qed

subsection \<open>Branches\<close>

lemma br_step:
  assumes "loaded C (push_instr b (Br t) s)" and "b < length (cs_blocks s)"
  shows "msteps X C (here s b, m) ((t, 0), m)"
  using loaded_push(2,3) [OF assms] by (intro r_into_rtranclp m_br) auto

lemma cbr_step:
  assumes "loaded C (push_instr b (CBr c t e) s)" and "b < length (cs_blocks s)" and "eval_obj m c = Some (VBool d)"
  shows "msteps X C (here s b, m) ((if d then t else e, 0), m)"
  using loaded_push(2,3) [OF assms(1,2)] assms(3) by (intro r_into_rtranclp m_cbr) auto

lemma closed_step:
  assumes "loaded C (closed_by b t s)" and "b < length (cs_blocks s)" and "is_open s b"
  shows "msteps X C (here s b, m) ((t, 0), m)"
  using assms br_step by (simp add: closed_by_def)

lemma code_enter:
  assumes "b < length (cs_blocks s)" and "j < length (cs_blocks s) + length names" and "length (cs_blocks s) \<le> j"
  shows "code (enter names b s) j = []"
  using assms by (simp add: enter_def code_push code_new_blocks)

lemma is_open_empty: "code s b = [] \<Longrightarrow> is_open s b"
  by (simp add: is_open_def block_code_code)

text \<open>Entering the new blocks, and the test at the first of them.\<close>

lemma enter_sim:
  assumes rdy: "ready s b \<rho> m" and "names \<noteq> []" and C: "loaded C (enter names b s)"
  shows "ready (enter names b s) (length (cs_blocks s)) \<rho> m"
    and "msteps X C (here s b, m) ((length (cs_blocks s), 0), m)"
proof -
  let ?s = "new_blocks (cur_fn s b) names s"
  have b: "cs_builder s = Some b" "b < length (cs_blocks s)" using rdy by (simp_all add: ready_def)
  have w: "writes_to {b} s (enter names b s)" using inside_enter [OF b assms(2)] by (simp add: inside_def)
  have "is_open (enter names b s) (length (cs_blocks s))"
    by (rule is_open_empty, rule code_enter [OF b(2)]) (use assms(2) in auto)
  then show "ready (enter names b s) (length (cs_blocks s)) \<rho> m"
    using rdy assms(2) rel_writes_to [OF _ w] int_env_writes_to [OF _ w] by (simp add: ready_def)
  have "loaded C (push_instr b (Br (length (cs_blocks s))) ?s)"
    using C by (simp add: enter_def loaded_def)
  from br_step [OF this, where X = X and m = m] show "msteps X C (here s b, m) ((length (cs_blocks s), 0), m)"
    using b(2) by (simp add: code_new_blocks)
qed

lemma header_sim:
  assumes "typing_law L" and "langref X"
    and visit: "visit_expr L test s1 = Inr (c, s2)" and C: "loaded C (push_instr n (CBr c t e) s2)"
    and n: "cs_builder s1 = Some n" "n < length (cs_blocks s1)" "code s1 n = []"
    and env: "int_env s1" "rel s1 \<rho> m" and val: "word_test \<rho> test = Some d"
  shows "\<exists>m'. msteps X C ((n, 0), m) ((if d then t else e, 0), m') \<and> rel s1 \<rho> m'"
proof -
  have n2: "n < length (cs_blocks s2)" using straightD [OF straight.visit_expr_R [OF visit] n(1,2)] n(2) by simp
  obtain m' where m': "msteps X C (here s1 n, m) (here s2 n, m')" "later (cs_next s1) m m'" "eval_obj m' c = Some (VBool d)"
    using test_sim [OF assms(1,2) visit n(1,2) env val loaded_push(1) [OF C n2]] by blast
  have "msteps X C ((n, 0), m) ((if d then t else e, 0), m')"
    using rtranclp_trans [OF m'(1) cbr_step [OF C n2 m'(3)]] by (simp add: n(3))
  then show ?thesis using rel_later [OF m'(2)] env(2) by auto
qed

lemma rel_shrink:
  assumes "rel s' \<rho> m" and "rel s \<rho>0 m0" and "cs_locals s' = cs_locals s"
  shows "rel s \<rho> m"
proof -
  have "slot_of s m x q \<longleftrightarrow> slot_of s' m x q" for x q
  proof
    assume "slot_of s' m x q"
    then obtain k where k: "dict_get (cs_locals s) x = Some (InstrV k (PtrT (IntT 64)))"
      "m_regs m k = Some (VSlot q)" "q < length (m_slots m)"
      by (auto simp: slot_of_def assms(3))
    then obtain q' where "slot_of s m0 x q'" using assms(2) unfolding rel_def by (metis option.distinct(1))
    then show "slot_of s m x q" using k by (auto simp: slot_of_def)
  next
    assume sl: "slot_of s m x q"
    then obtain q' where "slot_of s' m x q'"
      using assms(1) unfolding rel_def by (metis assms(3) option.distinct(1) slot_of_def)
    then show "slot_of s' m x q" using sl by (auto simp: slot_of_def assms(3))
  qed
  then show ?thesis using assms(1) by (simp add: rel_def assms(3))
qed

lemma writes_to_code: "writes_to M s s' \<Longrightarrow> j < length (cs_blocks s) \<Longrightarrow> j \<notin> M \<Longrightarrow> code s' j = code s j"
  by (simp add: writes_to_def)

lemma writes_to_any: "writes_to M s t \<Longrightarrow> writes_to N t u \<Longrightarrow> writes_to UNIV s u"
  by (rule writes_to_trans [of UNIV s t N]) (auto elim: writes_to_mono)

lemma closed_by_writes: "b < length (cs_blocks s) \<Longrightarrow> writes_to {b} s (closed_by b t s)"
  by (simp add: closed_by_def writes_to_push)

lemma loaded_goto [simp]: "loaded C (goto_block b s) = loaded C s"
  by (simp add: loaded_def)

lemma code_closed_by: "b < length (cs_blocks s) \<Longrightarrow> j \<noteq> b \<Longrightarrow> code (closed_by b t s) j = code s j"
  by (simp add: closed_by_def code_push)

lemma closed_by_state [simp]:
  "length (cs_blocks (closed_by b t s)) = length (cs_blocks s)"
  "cs_locals (closed_by b t s) = cs_locals s" "cs_types (closed_by b t s) = cs_types s"
  by (simp_all add: closed_by_def)

text \<open>The state in which a part is compiled after the test \<open>c\<close> in block \<open>n\<close>: its block
  \<open>j\<close> is one of the new ones and still empty.\<close>

lemma part_ready:
  assumes st: "straight s1 s2" and n: "cs_builder s1 = Some n" "n < length (cs_blocks s1)"
    and j: "j < length (cs_blocks s1)" "j \<noteq> n" "code s1 j = []" and env: "int_env s1"
  shows "writes_to UNIV s1 (goto_block j (push_instr n i s2))"
    and "code (goto_block j (push_instr n i s2)) j = []"
    and "rel s1 \<rho> m \<Longrightarrow> ready (goto_block j (push_instr n i s2)) j \<rho> m"
proof -
  let ?s = "goto_block j (push_instr n i s2)"
  note f = straightD [OF st n]
  have n2: "n < length (cs_blocks s2)" using f(2) n(2) by simp
  show w: "writes_to UNIV s1 ?s"
    by (rule writes_to_any [OF writes_to_any [OF f(4) writes_to_push [OF n2]] writes_to_goto])
  show empty: "code ?s j = []"
    using writes_to_code [OF f(4) j(1)] j(2,3) by (simp add: code_push n2)
  show "ready ?s j \<rho> m" if "rel s1 \<rho> m"
    using rel_writes_to [OF that w] int_env_writes_to [OF env w] is_open_empty [OF empty] j(1) f(2)
    by (simp add: ready_def)
qed

text \<open>A part that ends in a branch to \<open>t\<close>.\<close>

lemma part_sim:
  assumes sim: "body_simulated L X C body" and run: "iterS (visit_stmt L) body s = Inr (u, s')"
    and rdy: "ready s j \<rho> m" and empty: "code s j = []" and val: "exec_body k \<rho> body = Some out"
    and b: "cs_builder s' = Some b" "b < length (cs_blocks s')" and C: "loaded C (closed_by b t s')"
  shows "leads X C (j, 0) m out (t, 0) (rel s')"
proof -
  have C': "loaded C s'" by (rule loaded_writes_to [OF C closed_by_writes [OF b(2)]])
  have "leads X C (here s j) m out (here s' b) (\<lambda>\<rho> m'. rel s' \<rho> m' \<and> is_open s' b)"
    using body_simulatedD [OF sim run rdy val C'] b(1) by (simp add: lands_in_def)
  then have "leads X C (j, 0) m out (here s' b) (\<lambda>\<rho> m'. rel s' \<rho> m' \<and> is_open s' b)"
    by (simp add: empty)
  then show ?thesis
    by (rule leads_after) (use closed_step [OF C b(2)] in blast)
qed

lemma lands_in_end:
  assumes "cs_builder s' = Some e" and "code s' e = []" and "leads X C (here s b) m out (e, 0) R"
    and "\<And>\<rho> m. R \<rho> m \<Longrightarrow> rel s' \<rho> m"
  shows "lands_in X C s b m out s'"
proof -
  have "leads X C (here s b) m out (here s' e) (\<lambda>\<rho> m'. rel s' \<rho> m' \<and> is_open s' e)"
    using assms(3) by (rule leads_after) (use assms(2,4) is_open_empty [OF assms(2)] in auto)
  then show ?thesis using assms(1) by (auto simp: lands_in_def)
qed

subsection \<open>Loops\<close>

lemma while_sim:
  assumes laws: "terminator_law L" "typing_law L" "langref X"
    and flat: "list_all no_decl body" and sim: "body_simulated L X C body"
  shows "stmt_simulated L X C (While test body [])"
  unfolding stmt_simulated_def
proof (intro allI impI)
  fix k \<rho> out s s' b m
  assume visit: "visit_stmt L (While test body []) s = Inr ((), s')" and rdy: "ready s b \<rho> m"
    and val: "exec_stmt k \<rho> (While test body []) = Some out" and C: "loaded C s'"
  have b: "cs_builder s = Some b" "b < length (cs_blocks s)" using rdy by (simp_all add: ready_def)
  note mv = moves.withinD [OF moves_body [OF laws(1) flat]]
  obtain n c s2 s4 b' where w: "n = length (cs_blocks s)" "visit_expr L test (loop_start b s) = Inr (c, s2)"
    "iterS (visit_stmt L) body (goto_block (n + 1) (push_instr n (CBr c (n + 1) (n + 2)) s2)) = Inr ((), s4)"
    "cs_builder s4 = Some b'" "s' = goto_block (n + 2) (closed_by b' n s4)"
    by (rule visit_WhileD [OF laws(1) visit [unfolded visit_stmt.simps] b(1) mv b(2)])
  let ?s1 = "loop_start b s" and ?i = "CBr c (n + 1) (n + 2)"
  let ?s3 = "goto_block (n + 1) (push_instr n ?i s2)"
  note st = straight.visit_expr_R [OF w(2)]
  have n1: "cs_builder ?s1 = Some n" "n < length (cs_blocks ?s1)" "length (cs_blocks ?s1) = n + 3"
    by (simp_all add: loop_start_def w(1))
  note f = straightD [OF st n1(1,2)]
  have empty: "code ?s1 j = []" if "n \<le> j" "j < n + 3" for j
    unfolding loop_start_def using that by (intro code_enter [OF b(2)]) (simp_all add: w(1))
  obtain b'' where m34: "cs_builder s4 = Some b''" "b'' < length (cs_blocks s4)"
    "b'' = n + 1 \<or> length (cs_blocks ?s3) \<le> b''" "writes_to {n + 1} ?s3 s4"
    by (rule movesE [OF mv [OF w(3)], of "n + 1"]) (simp_all add: f(2) n1(3))
  have b': "b'' = b'" "b' < length (cs_blocks s4)" "b' = n + 1 \<or> n + 3 \<le> b'"
    using m34 w(4) f(2) n1(3) by auto
  have C4: "loaded C (closed_by b' n s4)" using C by (simp add: w(5))
  have C3: "loaded C ?s3" using loaded_writes_to [OF _ m34(4)] loaded_writes_to [OF C4 closed_by_writes] b'(2) by blast
  have n2: "n < length (cs_blocks s2)" using f(2) n1 by simp
  have C1: "loaded C ?s1"
    by (rule loaded_writes_to [OF loaded_push(1) [OF _ n2] f(4)]) (use C3 in simp)
  have r1: "ready ?s1 n \<rho> m" "msteps X C (here s b, m) ((n, 0), m)"
    using enter_sim [OF rdy _ C1 [unfolded loop_start_def]] by (simp_all add: loop_start_def w(1))
  then have env: "int_env ?s1" "rel ?s1 \<rho> m" by (simp_all add: ready_def)
  note part = part_ready [where i = ?i and j = "n + 1", OF st n1(1,2)]
  have w14: "writes_to UNIV ?s1 s4" using writes_to_any [OF part(1) m34(4)] empty env(1) n1(3) by simp
  have "leads X C (n, 0) m out (n + 2, 0) (rel ?s1)"
  proof (rule loop_leads [where R = "rel ?s1", OF _ _ env(2) val])
    show "\<exists>m'. msteps X C ((n, 0), m) ((if d then n + 1 else n + 2, 0), m') \<and> rel ?s1 \<rho> m'"
      if "rel ?s1 \<rho> m" "word_test \<rho> test = Some d" for \<rho> m d
      by (rule header_sim [OF laws(2,3) w(2) _ n1(1,2) _ env(1) that]) (use C3 empty in simp_all)
    show "leads X C (n + 1, 0) m out (n, 0) (rel ?s1)"
      if r: "rel ?s1 \<rho> m" and v: "exec_body k \<rho> body = Some out" for k \<rho> m out
    proof -
      have "leads X C (n + 1, 0) m out (n, 0) (rel s4)"
        by (rule part_sim [OF sim w(3) part(3) part(2) v w(4) b'(2) C4]) (use r empty env(1) n1(3) in simp_all)
      moreover have "cs_locals s4 = cs_locals ?s1" using w14 by (simp add: writes_to_def)
      ultimately show ?thesis using rel_shrink [OF _ r] by (auto elim!: leads_after)
    qed
  qed
  then have "leads X C (here s b) m out (n + 2, 0) (rel ?s1)" by (rule leads_before [OF r1(2)])
  moreover have "code s' (n + 2) = []"
  proof -
    have "code s2 (n + 2) = []" using writes_to_code [OF f(4)] empty n1(3) by simp
    then have "code ?s3 (n + 2) = []" using n2 by (simp add: code_push)
    then have "code s4 (n + 2) = []" using writes_to_code [OF m34(4), of "n + 2"] f(2) n1(3) by simp
    then show ?thesis using code_closed_by [OF b'(2)] b'(3) by (auto simp: w(5))
  qed
  moreover have "rel s' \<rho> m" if "rel ?s1 \<rho> m" for \<rho> m
    by (rule rel_writes_to [OF that])
      (use writes_to_any [OF writes_to_any [OF w14 closed_by_writes [OF b'(2)]] writes_to_goto] w(5) in simp)
  ultimately show "lands_in X C s b m out s'"
    by (intro lands_in_end [where e = "n + 2" and R = "rel ?s1"]) (simp_all add: w(5))
qed

subsection \<open>Conditionals\<close>

text \<open>Control after a part \<open>body\<close>, compiled from block \<open>j\<close> in the frame of \<open>s\<close>: blocks
  that exist and are not \<open>j\<close> keep their code.\<close>

lemma part_frame:
  assumes laws: "terminator_law L" and flat: "list_all no_decl body"
    and run: "iterS (visit_stmt L) body (goto_block j s) = Inr (u, s')" and j: "j < length (cs_blocks s)"
    and b: "cs_builder s' = Some b"
  shows "b < length (cs_blocks s')" "length (cs_blocks s) \<le> length (cs_blocks s')"
    "\<And>i. i < length (cs_blocks s) \<Longrightarrow> i \<noteq> j \<Longrightarrow> code (closed_by b t s') i = code s i"
    "writes_to UNIV s (closed_by b t s')" "loaded C (closed_by b t s') \<Longrightarrow> loaded C s"
    "writes_to UNIV s' (closed_by b t s')"
proof -
  have "moves (goto_block j s) s'" by (rule moves.withinD [OF moves_body [OF laws flat] run])
  then obtain b' where m: "b' = b" "b < length (cs_blocks s')" "b = j \<or> length (cs_blocks s) \<le> b"
    "writes_to {j} (goto_block j s) s'"
    using j b by (auto simp: moves_def)
  show "b < length (cs_blocks s')" by fact
  show "length (cs_blocks s) \<le> length (cs_blocks s')" using m(4) by (simp add: writes_to_def)
  show "code (closed_by b t s') i = code s i" if "i < length (cs_blocks s)" "i \<noteq> j" for i
    using that m(3) writes_to_code [OF m(4)] code_closed_by [OF m(2), of i t] by auto
  show "writes_to UNIV s (closed_by b t s')"
    by (rule writes_to_any [OF writes_to_any [OF writes_to_goto m(4)] closed_by_writes [OF m(2)]])
  then show "loaded C s" if "loaded C (closed_by b t s')" by (rule loaded_writes_to [OF that])
  show "writes_to UNIV s' (closed_by b t s')"
    by (rule writes_to_mono [OF closed_by_writes [OF m(2)]]) simp
qed

text \<open>The else part, from the state \<open>s\<close> after the first part, with \<open>e\<close> the block where both
  continue.\<close>

lemma else_part:
  assumes laws: "terminator_law L" and flat: "list_all no_decl orelse"
    and run: "(case if orelse = [] then None else Some (iterS (visit_stmt L) orelse) of
        None \<Rightarrow> retS ()
      | Some run_else \<Rightarrow> bindS (position_at_end (n + 2)) (\<lambda>_. bindS run_else (\<lambda>_. branch_if_open L e))) s =
        Inr ((), s')"
    and len: "e < length (cs_blocks s)" and empty: "\<forall>j. n + 1 < j \<longrightarrow> j \<le> e \<longrightarrow> code s j = []"
    and e: "e = n + 2 \<and> orelse = [] \<or> e = n + 3 \<and> orelse \<noteq> []"
  shows "loaded C (goto_block e s') \<Longrightarrow> loaded C s"
    and "writes_to UNIV s (goto_block e s')"
    and "code s' e = []"
    and "body_simulated L X C orelse \<Longrightarrow> rel s \<rho> m \<Longrightarrow> int_env s \<Longrightarrow> exec_body k \<rho> orelse = Some out \<Longrightarrow>
      loaded C (goto_block e s') \<Longrightarrow> leads X C (n + 2, 0) m out (e, 0) (rel s')"
proof -
  have "(loaded C (goto_block e s') \<longrightarrow> loaded C s) \<and> writes_to UNIV s (goto_block e s') \<and> code s' e = [] \<and>
    (body_simulated L X C orelse \<longrightarrow> rel s \<rho> m \<longrightarrow> int_env s \<longrightarrow> exec_body k \<rho> orelse = Some out \<longrightarrow>
      loaded C (goto_block e s') \<longrightarrow> leads X C (n + 2, 0) m out (e, 0) (rel s'))"
  proof (cases "orelse = []")
    case True
    then show ?thesis using run e empty by (auto simp: writes_to_goto leads_def)
  next
    case False
    let ?t = "goto_block (n + 2) s"
    obtain u t1 where t1: "iterS (visit_stmt L) orelse ?t = Inr (u, t1)" "branch_if_open L e t1 = Inr ((), s')"
      using run False by (auto dest!: position_at_endD)
    have e3: "e = n + 3" and len2: "n + 2 < length (cs_blocks s)" using e False len by auto
    obtain b where b: "cs_builder t1 = Some b"
      using moves.withinD [OF moves_body [OF laws flat] t1(1)] len2 by (auto simp: moves_def)
    have s': "s' = closed_by b e t1" by (rule branch_if_openD [OF laws t1(2) b])
    note fr = part_frame [OF laws flat t1(1) len2 b]
    have w: "writes_to UNIV s (goto_block e s')"
      unfolding s' by (rule writes_to_any [OF fr(4) writes_to_goto])
    have "leads X C (n + 2, 0) m out (e, 0) (rel s')"
      if sim: "body_simulated L X C orelse" and env: "rel s \<rho> m" "int_env s" and val: "exec_body k \<rho> orelse = Some out"
        and C: "loaded C (goto_block e s')"
    proof -
      have "ready ?t (n + 2) \<rho> m"
        using rel_writes_to [OF env(1) writes_to_goto] env(2) len2 is_open_empty [of ?t] empty e3
        by (simp add: ready_def int_env_def)
      then have "leads X C (n + 2, 0) m out (e, 0) (rel t1)"
        by (rule part_sim [OF sim t1(1) _ _ val b fr(1)]) (use C s' empty e3 in simp_all)
      moreover have "rel s' \<rho> m" if "rel t1 \<rho> m" for \<rho> m
        unfolding s' by (rule rel_writes_to [OF that fr(6)])
      ultimately show ?thesis by (auto elim!: leads_after)
    qed
    moreover have "code s' e = []" unfolding s' using fr(3) [of e] len empty e3 by simp
    ultimately show ?thesis using w loaded_writes_to by blast
  qed
  then show "loaded C (goto_block e s') \<Longrightarrow> loaded C s"
    and "writes_to UNIV s (goto_block e s')"
    and "code s' e = []"
    and "body_simulated L X C orelse \<Longrightarrow> rel s \<rho> m \<Longrightarrow> int_env s \<Longrightarrow> exec_body k \<rho> orelse = Some out \<Longrightarrow>
      loaded C (goto_block e s') \<Longrightarrow> leads X C (n + 2, 0) m out (e, 0) (rel s')"
    by simp_all
qed

lemma if_sim:
  assumes laws: "terminator_law L" "typing_law L" "langref X"
    and flat: "list_all no_decl body" "list_all no_decl orelse"
    and sim: "body_simulated L X C body" "body_simulated L X C orelse"
  shows "stmt_simulated L X C (If test body orelse)"
  unfolding stmt_simulated_def
proof (intro allI impI)
  fix k \<rho> out s s' b m
  let ?run_else = "if orelse = [] then None else Some (iterS (visit_stmt L) orelse)"
  assume visit: "visit_stmt L (If test body orelse) s = Inr ((), s')" and rdy: "ready s b \<rho> m"
    and val: "exec_stmt k \<rho> (If test body orelse) = Some out" and C: "loaded C s'"
  have b: "cs_builder s = Some b" "b < length (cs_blocks s)" using rdy by (simp_all add: ready_def)
  obtain n e c s2 s4 b1 s6 where w: "n = length (cs_blocks s)"
    "e = (case ?run_else of None \<Rightarrow> n + 2 | Some _ \<Rightarrow> n + 3)"
    "visit_expr L test (if_start (?run_else \<noteq> None) b s) = Inr (c, s2)"
    "iterS (visit_stmt L) body (goto_block (n + 1) (push_instr n (CBr c (n + 1) (n + 2)) s2)) = Inr ((), s4)"
    "cs_builder s4 = Some b1"
    and el: "(case ?run_else of
        None \<Rightarrow> retS ()
      | Some run_else \<Rightarrow> bindS (position_at_end (n + 2)) (\<lambda>_. bindS run_else (\<lambda>_. branch_if_open L e))) (closed_by b1 e s4) =
        Inr ((), s6)" and s': "s' = goto_block e s6"
    by (rule visit_If_prefixD [OF laws(1) visit [unfolded visit_stmt.simps] b(1) moves.withinD [OF moves_body [OF laws(1) flat(1)]] b(2)])
  let ?s1 = "if_start (?run_else \<noteq> None) b s" and ?i = "CBr c (n + 1) (n + 2)"
  let ?s3 = "push_instr n ?i s2" and ?s5 = "closed_by b1 e s4"
  note st = straight.visit_expr_R [OF w(3)]
  have e: "e = n + 2 \<and> orelse = [] \<or> e = n + 3 \<and> orelse \<noteq> []" using w(2) by auto
  have n1: "cs_builder ?s1 = Some n" "n < length (cs_blocks ?s1)" "length (cs_blocks ?s1) = Suc e"
    using e by (auto simp: if_start_def w(1))
  note f = straightD [OF st n1(1,2)]
  have empty: "code ?s1 j = []" if "n \<le> j" "j \<le> e" for j
    unfolding if_start_def using that e by (intro code_enter [OF b(2)]) (auto simp: w(1))
  have n2: "n < length (cs_blocks s2)" using f(2) n1 by simp
  have j3: "n + 1 < length (cs_blocks ?s3)" using f(2) n1 e by auto
  note fr = part_frame [OF laws(1) flat(1) w(4) j3 w(5)]
  have empty3: "code ?s3 j = []" if "n < j" "j \<le> e" for j
    using writes_to_code [OF f(4), of j] empty [of j] that n1(3) by (simp add: code_push n2)
  have empty5: "\<forall>j. n + 1 < j \<longrightarrow> j \<le> e \<longrightarrow> code ?s5 j = []"
    using fr(3) empty3 f(2) n1(3) by simp
  have w13: "writes_to UNIV ?s1 ?s3" by (rule writes_to_any [OF f(4) writes_to_push [OF n2]])
  have w15: "writes_to UNIV ?s1 ?s5" by (rule writes_to_any [OF w13 fr(4)])
  have len5: "e < length (cs_blocks ?s5)" using fr(2) f(2) n1(3) by simp
  note rest = else_part [OF laws(1) flat(2) el len5 empty5 e]
  have C5: "loaded C ?s5" using rest(1) C by (simp add: s')
  have C3: "loaded C ?s3" by (rule fr(5) [OF C5])
  have C1: "loaded C ?s1" by (rule loaded_writes_to [OF C3 w13])
  have r1: "ready ?s1 n \<rho> m" "msteps X C (here s b, m) ((n, 0), m)"
    using enter_sim [OF rdy _ C1 [unfolded if_start_def]] by (simp_all add: if_start_def w(1))
  then have env: "int_env ?s1" "rel ?s1 \<rho> m" by (simp_all add: ready_def)
  obtain k' d where d: "k = Suc k'" "word_test \<rho> test = Some d" "exec_body k' \<rho> (if d then body else orelse) = Some out"
    using val by (cases k) (auto simp: Option.bind_eq_Some_conv)
  obtain m1 where m1: "msteps X C ((n, 0), m) ((if d then n + 1 else n + 2, 0), m1)" "rel ?s1 \<rho> m1"
    using header_sim [OF laws(2,3) w(3) C3 n1(1,2) empty env d(2)] e by auto
  have "leads X C (if d then n + 1 else n + 2, 0) m1 out (e, 0) (rel s')"
  proof (cases d)
    case True
    note part = part_ready [where i = ?i and j = "n + 1", OF st n1(1,2) _ _ _ env(1)]
    have "leads X C (n + 1, 0) m1 out (e, 0) (rel s4)"
      by (rule part_sim [OF sim(1) w(4) part(3) part(2) _ w(5) fr(1) C5])
        (use d(3) True m1(2) empty e n1(3) in auto)
    moreover have "rel s' \<rho> m" if "rel s4 \<rho> m" for \<rho> m
      by (rule rel_writes_to [OF that]) (use writes_to_any [OF fr(6) rest(2)] s' in simp)
    ultimately show ?thesis using True by (auto elim!: leads_after)
  next
    case False
    have "rel ?s5 \<rho> m1" by (rule rel_writes_to [OF m1(2) w15])
    moreover have "int_env ?s5" by (rule int_env_writes_to [OF env(1) w15])
    ultimately have "leads X C (n + 2, 0) m1 out (e, 0) (rel s6)"
      using rest(4) [OF sim(2) _ _ _ C [unfolded s']] d(3) False by simp
    moreover have "rel s' \<rho> m" if "rel s6 \<rho> m" for \<rho> m
      unfolding s' by (rule rel_writes_to [OF that writes_to_goto])
    ultimately show ?thesis using False by (auto elim!: leads_after)
  qed
  then show "lands_in X C s b m out s'"
    using leads_before [OF rtranclp_trans [OF r1(2) m1(1)]] rest(3)
    by (intro lands_in_end [where e = e and R = "rel s'"]) (simp_all add: s')
qed

section \<open>All statements without declarations\<close>

lemma stmt_sim:
  assumes laws: "terminator_law L" "typing_law L" "langref X"
  shows "no_decl st \<Longrightarrow> stmt_simulated L X C st"
    and "case ch of ChildE e \<Rightarrow> True | ChildS st \<Rightarrow> no_decl st \<longrightarrow> stmt_simulated L X C st"
proof (induction st and ch)
  case (If test body orelse)
  have "body_simulated L X C body" "body_simulated L X C orelse"
    using If by (auto intro!: body_sim grown_visit_stmt laws simp: list_all_iff)
  then show ?case using If.prems by (intro if_sim laws) simp_all
next
  case (While test body orelse)
  have "body_simulated L X C body"
    using While by (auto intro!: body_sim grown_visit_stmt laws simp: list_all_iff)
  then have "orelse = [] \<Longrightarrow> stmt_simulated L X C (While test body orelse)"
    using While.prems while_sim [OF laws] by simp
  moreover have "exec_stmt k \<rho> (While test body (x # xs)) = None" for k \<rho> x xs by (cases k) simp_all
  ultimately show ?case by (cases orelse) (simp_all add: stmt_simulated_def)
next
  case (Assign targets e)
  show ?case
  proof (cases "\<exists>x. targets = [Name x]")
    case True
    then show ?thesis using assign_sim [OF laws(2,3)] by auto
  next
    case False
    then have "exec_stmt k \<rho> (Assign targets e) = None" for k \<rho>
      by (cases k; cases targets rule: remdups_adj.cases; cases "hd targets") auto
    then show ?thesis by (simp add: stmt_simulated_def)
  qed
next
  case (Return v)
  show ?case
  proof (cases v)
    case None
    then have "exec_stmt k \<rho> (Return v) = None" for k \<rho> by (cases k) simp_all
    then show ?thesis by (simp add: stmt_simulated_def)
  next
    case (Some e)
    then show ?thesis using return_sim [OF laws(2,3)] by simp
  qed
next
  case Pass
  have "exec_stmt k \<rho> Pass = Some out \<Longrightarrow> out = Normal \<rho>" for k \<rho> out by (cases k) auto
  then show ?case by (force simp: stmt_simulated_def lands_in_def ready_def leads_def)
next
  case (OtherStmt c children)
  have "exec_stmt k \<rho> (OtherStmt c children) = None" for k \<rho> by (cases k) simp_all
  then show ?case by (simp add: stmt_simulated_def)
next
  case (ExprStmt e)
  have "exec_stmt k \<rho> (ExprStmt e) = None" for k \<rho> by (cases k) simp_all
  then show ?case by (simp add: stmt_simulated_def)
qed simp_all

end
