(* ===== verification/CompilerCorrect.thy ===== *)
theory CompilerCorrect
  imports CompilerSimStmt CompilerSteps
begin

text \<open>
  Compiler correctness for integer functions: what \<open>visit_FunctionDef\<close> generates for a
  function over \<open>int\<close> parameters and local variables returns what the function returns, also
  as part of the code of a whole program.
\<close>

section \<open>Declarations\<close>

lemma rel_alloc:
  assumes "rel s \<rho> m" and "dict_get (cs_locals s') x = Some (InstrV k (PtrT (IntT 64)))" and "cs_next s \<le> k"
    and "k < cs_next s'" and "\<And>y. y \<noteq> x \<Longrightarrow> dict_get (cs_locals s') y = dict_get (cs_locals s) y"
  shows "rel s' (\<rho>(x := None)) (set_reg k (VSlot (length (m_slots m))) (m\<lparr>m_slots := m_slots m @ [None]\<rparr>))"
    (is "rel s' _ ?m")
proof -
  have x: "slot_of s' ?m x q \<longleftrightarrow> q = length (m_slots m)" for q
    using assms(2,4) by (auto simp: slot_of_def)
  have y: "slot_of s' ?m y q \<longleftrightarrow> slot_of s m y q" if "y \<noteq> x" for y q
  proof
    assume "slot_of s m y q"
    then obtain j where "dict_get (cs_locals s) y = Some (InstrV j (PtrT (IntT 64)))" "j < cs_next s"
      "m_regs m j = Some (VSlot q)" "q < length (m_slots m)"
      unfolding slot_of_def by blast
    then show "slot_of s' ?m y q"
      using assms(3,4) assms(5) [OF \<open>y \<noteq> x\<close>] by (simp add: slot_of_def)
  next
    assume sl: "slot_of s' ?m y q"
    then obtain j where j: "dict_get (cs_locals s) y = Some (InstrV j (PtrT (IntT 64)))" "m_regs ?m j = Some (VSlot q)"
      using assms(5) [OF \<open>y \<noteq> x\<close>] by (auto simp: slot_of_def)
    then obtain q' where "slot_of s m y q'" using assms(1) unfolding rel_def by (metis option.distinct(1))
    then show "slot_of s m y q" using j assms(3) by (auto simp: slot_of_def split: if_splits)
  qed
  have old: "q < length (m_slots m)" if "slot_of s m y q" for y q using that by (auto simp: slot_of_def)
  have "\<exists>q. slot_of s' ?m z q \<and> m_slots ?m ! q = (\<rho>(x := None)) z" if z: "dict_get (cs_locals s') z \<noteq> None" for z
  proof (cases "z = x")
    case True
    then show ?thesis using x by (intro exI [of _ "length (m_slots m)"]) simp
  next
    case False
    then obtain q where "slot_of s m z q" "m_slots m ! q = \<rho> z"
      using assms(1,5) z unfolding rel_def by metis
    then show ?thesis using y [OF False] old False by (intro exI [of _ q]) (auto simp: nth_append)
  qed
  moreover have "(\<rho>(x := None)) z = None" if "dict_get (cs_locals s') z = None" for z
    using assms(1,5) that unfolding rel_def by (cases "z = x") auto
  moreover have "a = c" if "slot_of s' ?m a q" "slot_of s' ?m c q" for a c q
    using that x y old assms(1) unfolding rel_def by (metis order_less_irrefl)
  ultimately show ?thesis unfolding rel_def by (metis option.distinct(1))
qed

text \<open>A stack slot for the variable \<open>x\<close>.\<close>

lemma alloca_sim:
  assumes laws: "typing_law L" "langref X" and run: "emit L (Alloca (IntT 64)) s = Inr (v, s1)"
    and rdy: "ready s b \<rho> m" and C: "loaded C s1"
  obtains m' where "v = InstrV (cs_next s) (PtrT (IntT 64))" "s1 = push_instr b (Alloca (IntT 64)) s"
    "msteps X C (here s b, m) (here s1 b, m')" "m_args m' = m_args m"
    "ready (s1\<lparr>cs_locals := dict_set x v (cs_locals s1)\<rparr>) b (\<rho>(x := None)) m'"
proof -
  have b: "cs_builder s = Some b" "b < length (cs_blocks s)" "is_open s b" and env: "int_env s" "rel s \<rho> m"
    using rdy by (simp_all add: ready_def)
  let ?m = "set_reg (cs_next s) (VSlot (length (m_slots m))) (m\<lparr>m_slots := m_slots m @ [None]\<rparr>)"
  note sim = emit_sim [where X = X, OF run b(1,2) C _ langrefD(1) [OF laws(2), where m = m]]
  have s1: "s1 = push_instr b (Alloca (IntT 64)) s" using sim(3) by simp
  obtain t where t: "v = InstrV (cs_next s) t" "build L (cs_structs s) (block_code s b) (Alloca (IntT 64)) = Some t"
    using sim(2) by auto
  have v: "v = InstrV (cs_next s) (PtrT (IntT 64))" using typing_lawD(1) [OF laws(1) t(2)] t(1) by simp
  let ?s = "s1\<lparr>cs_locals := dict_set x v (cs_locals s1)\<rparr>"
  have "rel ?s (\<rho>(x := None)) ?m"
    by (rule rel_alloc [OF env(2), where k = "cs_next s"]) (simp_all add: v s1)
  moreover have "is_open ?s b"
    using b(3) by (simp add: is_open_def block_code_def push_instr_def s1 b(2))
  ultimately have "ready ?s b (\<rho>(x := None)) ?m"
    using b env(1) by (simp add: ready_def s1 int_env_def)
  then show thesis using that [OF v s1, of ?m] sim(1) by (auto intro: r_into_rtranclp)
qed

lemma decl_sim:
  assumes laws: "typing_law L" "langref X"
  shows "stmt_simulated L X C (AnnAssign (Name x) (Name ''int'') e)"
  unfolding stmt_simulated_def
proof (intro allI impI)
  fix k \<rho> out s s' b m
  assume visit: "visit_stmt L (AnnAssign (Name x) (Name ''int'') e) s = Inr ((), s')" and rdy: "ready s b \<rho> m"
    and val: "exec_stmt k \<rho> (AnnAssign (Name x) (Name ''int'') e) = Some out" and C: "loaded C s'"
  have b: "cs_builder s = Some b" "b < length (cs_blocks s)" and env: "int_env s"
    using rdy by (simp_all add: ready_def)
  obtain v s1 s3 where run: "emit L (Alloca (IntT 64)) s = Inr (v, s1)"
    "(case e of None \<Rightarrow> retS () | Some e \<Rightarrow> bindS (visit_expr L e) (\<lambda>w. emit_unit L (Store w (OVal v))))
       (s1\<lparr>cs_locals := dict_set x v (cs_locals s1)\<rparr>) = Inr ((), s3)"
    "s' = s3\<lparr>cs_arena_tags := dict_set x (cs_arena s3) (cs_arena_tags s3)\<rparr>"
    using visit env
    by (auto simp: visit_AnnAssign_def target_name_def set_local_def int_env_def split: option.splits)
  let ?s2 = "s1\<lparr>cs_locals := dict_set x v (cs_locals s1)\<rparr>"
  have C3: "loaded C s3" using C by (simp add: run(3) loaded_def code_def)
  have st: "straight s s1" by (rule straight_emit [OF _ run(1)]) simp
  have b1: "cs_builder s1 = Some b" "b < length (cs_blocks s1)" using straightD [OF st b] b(2) by simp_all
  have rest: "grown.within (case e of None \<Rightarrow> retS () | Some e \<Rightarrow> bindS (visit_expr L e) (\<lambda>w. emit_unit L (Store w (OVal v))))"
    by (cases e) (auto intro!: grown.within_emit_unit)
  have C2: "loaded C ?s2"
    by (rule loaded_grown [OF C3 grown.withinD [OF rest run(2)]]) (use b1 in auto)
  then have C1: "loaded C s1" by (simp add: loaded_def code_def)
  obtain m1 where m1: "v = InstrV (cs_next s) (PtrT (IntT 64))" "msteps X C (here s b, m) (here s1 b, m1)"
    "ready ?s2 b (\<rho>(x := None)) m1"
    using alloca_sim [OF laws run(1) rdy C1, of x] by blast
  have here: "here ?s2 b = here s1 b" by (simp add: code_def)
  have "lands_in X C ?s2 b m1 out s3"
  proof (cases e)
    case None
    then have "out = Normal (\<rho>(x := None))" using val by (cases k) auto
    then show ?thesis using run(2) m1(3) by (auto simp: None lands_in_def leads_def ready_def)
  next
    case (Some e')
    have "visit_stmt L (Assign [Name x] e') ?s2 = Inr ((), s3)"
      using run(2) by (simp add: Some visit_Assign_def)
    moreover have "exec_stmt 1 (\<rho>(x := None)) (Assign [Name x] e') = Some out"
      using val by (cases k) (auto simp: Some)
    ultimately show ?thesis using assign_sim [OF laws] m1(3) C3 unfolding stmt_simulated_def by blast
  qed
  then have "lands_in X C s b m out s3"
    unfolding lands_in_def here using leads_before [OF m1(2)] by blast
  moreover have "rel s' = rel s3" "is_open s' = is_open s3" "code s' = code s3"
    by (simp_all add: fun_eq_iff rel_def slot_of_def is_open_def block_code_def code_def run(3))
  ultimately show "lands_in X C s b m out s'" by (simp add: lands_in_def run(3))
qed

lemma int_body_sim:
  assumes laws: "terminator_law L" "typing_law L" "langref X" and "list_all (\<lambda>st. no_decl st \<or> int_decl st) body"
  shows "body_simulated L X C body"
proof (rule body_sim)
  fix st
  assume "st \<in> set body"
  then have st: "no_decl st \<or> int_decl st" using assms(4) by (simp add: list_all_iff)
  then have "stmt_simulated L X C st"
    using stmt_sim(1) [OF laws] decl_sim [OF laws(2,3)] by (auto elim: int_declE)
  then show "stmt_simulated L X C st \<and> grown.within (visit_stmt L st)"
    using grown_visit_stmt [OF laws(1) st] by simp
qed

section \<open>Functions\<close>

definition int_params :: "params \<Rightarrow> bool" where
  "int_params params \<longleftrightarrow>
     list_all (\<lambda>(n, a). n \<noteq> ''self'' \<and> a = Some (Name ''int'')) params \<and> distinct (map fst params)"

definition start :: "64 word list \<Rightarrow> mstate" where
  "start ws = \<lparr>m_regs = (\<lambda>k. None), m_args = ws, m_slots = []\<rparr>"

lemma int_arg_types:
  assumes "int_env s" and "list_all (\<lambda>(n, a). n \<noteq> ''self'' \<and> a = Some (Name ''int'')) params"
  shows "mapS (\<lambda>(n, a). get_type_opt a) params s = Inr (replicate (length params) (IntT 64), s)"
  using assms(2)
proof (induction params)
  case (Cons p params)
  have "get_type_opt (Some (Name ''int'')) s = Inr (IntT 64, s)"
    using assms(1) by (simp add: get_type_opt_def int_env_def retS_def)
  then show ?case using Cons by (cases p) (simp add: bindS_step retS_def)
qed (simp add: retS_def)

text \<open>A parameter gets a slot that holds its argument.\<close>

lemma bind_param_sim:
  assumes laws: "typing_law L" "langref X" and run: "bind_param L f (i, x, IntT 64) s = Inr (u, s')"
    and rdy: "ready s b \<rho> m" and i: "i < length (m_args m)" and C: "loaded C s'"
  obtains m' where "msteps X C (here s b, m) (here s' b, m')" "m_args m' = m_args m"
    "ready s' b (\<rho>(x := Some (m_args m ! i))) m'"
proof -
  obtain v s1 s2 where run: "emit L (Alloca (IntT 64)) s = Inr (v, s1)"
    "emit_unit L (Store (OVal (ArgV f i (IntT 64))) (OVal v)) s1 = Inr ((), s2)"
    "s' = s2\<lparr>cs_locals := dict_set x v (cs_locals s2)\<rparr>"
    using run by (auto simp: bind_param_def set_local_def)
  have b: "cs_builder s = Some b" "b < length (cs_blocks s)" using rdy by (simp_all add: ready_def)
  have st: "straight s s1" by (rule straight_emit [OF _ run(1)]) simp
  have b1: "cs_builder s1 = Some b" "b < length (cs_blocks s1)" using straightD [OF st b] b(2) by simp_all
  have s2: "s2 = push_instr b (Store (OVal (ArgV f i (IntT 64))) (OVal v)) s1" by (rule emit_unitD [OF run(2) b1(1)])
  have C2: "loaded C s2" using C by (simp add: run(3) loaded_def code_def)
  note pushed = loaded_push [OF C2 [unfolded s2] b1(2)]
  obtain m1 where m1: "v = InstrV (cs_next s) (PtrT (IntT 64))" "s1 = push_instr b (Alloca (IntT 64)) s"
    "msteps X C (here s b, m) (here s1 b, m1)" "m_args m1 = m_args m"
    "ready (s1\<lparr>cs_locals := dict_set x v (cs_locals s1)\<rparr>) b (\<rho>(x := None)) m1"
    using alloca_sim [OF laws run(1) rdy pushed(1), of x] by blast
  let ?s1 = "s1\<lparr>cs_locals := dict_set x v (cs_locals s1)\<rparr>"
  obtain q where q: "slot_of ?s1 m1 x q"
    using m1(5) unfolding ready_def rel_def by (metis (no_types, lifting) cstate.select_convs(3) cstate.surjective
        cstate.update_convs(3) dict_get_set option.distinct(1))
  let ?m = "m1\<lparr>m_slots := (m_slots m1)[q := Some (m_args m ! i)]\<rparr>"
  have "X (cs_next s1) (Store (OVal (ArgV f i (IntT 64))) (OVal v)) m1 = Some ?m"
    using langrefD(2) [OF laws(2)] q i m1(4) by (auto simp: slot_of_def eval_val_def m1(1))
  then have "mstep X C (here s1 b, m1) ((b, Suc (length (code s1 b))), ?m)"
    using pushed(2,3) by (intro m_instr) auto
  then have "msteps X C (here s b, m) (here s2 b, ?m)"
    using m1(3) by (simp add: s2 code_push b1(2))
  moreover have "here s' b = here s2 b" by (simp add: run(3) code_def)
  moreover have "ready s' b (\<rho>(x := Some (m_args m ! i))) ?m"
  proof -
    have rel1: "rel ?s1 ((\<rho>(x := None))(x := Some (m_args m ! i))) ?m"
      using rel_set [OF _ q, of "\<rho>(x := None)" "m_args m ! i"] m1(5) by (simp add: ready_def)
    have "rel s' (\<rho>(x := Some (m_args m ! i))) ?m"
      by (rule rel_grow [of ?s1]) (use rel1 in \<open>simp_all add: run(3) s2\<close>)
    moreover have "is_open s' b"
      using m1(5) by (simp add: ready_def is_open_def run(3) s2 block_code_def push_instr_def b1(2))
    ultimately show ?thesis using m1(5) by (simp add: ready_def run(3) s2 int_env_def)
  qed
  ultimately show thesis using that m1(4) by simp
qed

lemma bind_params_sim:
  assumes laws: "typing_law L" "langref X"
  shows "iterS (bind_param L f) (zip [i..<i + length names] (zip names (replicate (length names) (IntT 64)))) s = Inr (u, s') \<Longrightarrow>
    ready s b \<rho> m \<Longrightarrow> m_args m = ws \<Longrightarrow> i + length names \<le> length ws \<Longrightarrow> distinct names \<Longrightarrow> loaded C s' \<Longrightarrow>
    \<exists>m'. msteps X C (here s b, m) (here s' b, m') \<and> ready s' b (\<rho> ++ map_of (zip names (drop i ws))) m'"
proof (induction names arbitrary: i s \<rho> m)
  case Nil
  then show ?case by auto
next
  case (Cons x names)
  obtain s1 where run: "bind_param L f (i, x, IntT 64) s = Inr ((), s1)"
    "iterS (bind_param L f) (zip [Suc i..<Suc i + length names] (zip names (replicate (length names) (IntT 64)))) s1 = Inr (u, s')"
    using Cons.prems(1) by (auto simp: upt_conv_Cons simp del: upt_Suc)
  have b: "cs_builder s = Some b" "b < length (cs_blocks s)" using Cons.prems(2) by (simp_all add: ready_def)
  have g: "grown s s1" by (rule grown.withinD [OF grown.within_bind_param run(1)])
  obtain b1 where b1: "cs_builder s1 = Some b1" "b1 < length (cs_blocks s1)" using g b by (auto simp: grown_def)
  have "grown s1 s'"
    by (rule grown.withinD [OF grown.within_iter run(2)]) (rule grown.within_bind_param)
  then have C1: "loaded C s1" by (rule loaded_grown [OF Cons.prems(6) _ b1])
  obtain m1 where m1: "msteps X C (here s b, m) (here s1 b, m1)" "m_args m1 = ws"
    "ready s1 b (\<rho>(x := Some (ws ! i))) m1"
    using bind_param_sim [OF laws run(1) Cons.prems(2) _ C1] Cons.prems(3,4) by auto
  have "\<exists>m'. msteps X C (here s1 b, m1) (here s' b, m') \<and>
      ready s' b (\<rho>(x := Some (ws ! i)) ++ map_of (zip names (drop (Suc i) ws))) m'"
    by (rule Cons.IH [OF run(2) m1(3,2)]) (use Cons.prems(4,5,6) in simp_all)
  then obtain m' where m': "msteps X C (here s1 b, m1) (here s' b, m')"
    "ready s' b (\<rho>(x := Some (ws ! i)) ++ map_of (zip names (drop (Suc i) ws))) m'"
    by blast
  have drop: "drop i ws = ws ! i # drop (Suc i) ws" using Cons.prems(4) by (simp add: Cons_nth_drop_Suc)
  have "x \<notin> dom (map_of (zip names (drop (Suc i) ws)))"
    using Cons.prems(5) by (auto dest: map_of_SomeD set_zip_leftD)
  then have "\<rho>(x := Some (ws ! i)) ++ map_of (zip names (drop (Suc i) ws)) = \<rho> ++ map_of (zip (x # names) (drop i ws))"
    by (simp add: drop map_add_upd_left)
  then show ?case using m' rtranclp_trans [OF m1(1) m'(1)] by auto
qed

text \<open>The states of the visit of a function: at its entry block, after its parameters, after its
  body, at the end.\<close>

lemma visit_int_FunctionD:
  assumes visit: "visit_FunctionDef L None name params (Some (Name ''int'')) run s = Inr (u, s')"
    and params: "int_params params" and env: "int_env s"
  obtains f s2 s3 s4 s5 v where
    "cs_types s2 = cs_types s" "cs_builder s2 = Some (length (cs_blocks s))" "cs_locals s2 = []"
    "cs_blocks s2 = cs_blocks s @ [\<lparr>blk_fn = f, blk_name = ''entry'', blk_code = []\<rparr>]"
    "f = length (cs_funcs s)"
    "cs_funcs s2 = cs_funcs s @ [\<lparr>fn_name = name, fn_type = FunT (IntT 64) (replicate (length params) (IntT 64)) False\<rparr>]"
    "iterS (bind_param L f) (zip [0..<length params] (zip (map fst params) (replicate (length params) (IntT 64)))) s2 = Inr ((), s3)"
    "run s3 = Inr ((), s4)" "grown s4 s5" "steps.within L run \<Longrightarrow> csteps L s2 s'" "s' = s5\<lparr>cs_arena := cs_arena s\<rparr>"
proof -
  have flt: "filter (\<lambda>(n, a). n \<noteq> ''self'') params = params"
    using params by (auto simp: int_params_def list_all_iff intro: filter_True)
  obtain a0 z0 a1 s0 t t0 sts t1 ts t2 p t3 a2 t4 e t5 a3 t6 a4 s2 a5 s3 a6 s4 d t7 a7 s5 where r:
    "getS cs_arena s = Inr (a0, z0)" "(if name = ''handle'' then modS (\<lambda>s. s\<lparr>cs_arena := ARENA_REQ\<rparr>) else retS ()) z0 = Inr (a1, s0)"
    "get_type_opt (Some (Name ''int'')) s0 = Inr (t, t0)" "retS [] t0 = Inr (sts, t1)"
    "mapS (\<lambda>p. get_type_opt (snd p)) params t1 = Inr (ts, t2)"
    "new_function L name (FunT t (sts @ ts) False) t2 = Inr (p, t3)"
    "set_global name (snd p) t3 = Inr (a2, t4)" "append_block (fst p) ''entry'' t4 = Inr (e, t5)" "position_at_end e t5 = Inr (a3, t6)"
    "modS (\<lambda>s. s\<lparr>cs_locals := [], cs_arena_tags := []\<rparr>) t6 = Inr (a4, s2)"
    "iterS (bind_param L (fst p)) (zip [0..<length (sts @ ts)] (zip ([] @ map fst params) (sts @ ts))) s2 = Inr (a5, s3)"
    "run s3 = Inr (a6, s4)" "is_terminated L s4 = Inr (d, t7)"
    "(if d then retS () else if t \<noteq> VoidT then emit_unit L Unreachable else emit_unit L RetVoid) t7 = Inr (a7, s5)"
    "modS (\<lambda>s. s\<lparr>cs_arena := a0\<rparr>) s5 = Inr (u, s')"
    using visit unfolding visit_FunctionDef_def Let_def case_prod_beta flt [unfolded case_prod_beta] option.case simp_thms if_True
    by (elim bindS_InrE) (rule that; assumption)
  have s0: "s0 = (if name = ''handle'' then s\<lparr>cs_arena := ARENA_REQ\<rparr> else s)" "a0 = cs_arena s"
    using r(1,2) by (auto split: if_splits)
  then have env0: "int_env s0" using env by (simp add: int_env_def)
  have t: "t = IntT 64" "t0 = s0"
    using r(3) env0 by (auto simp: get_type_opt_def int_env_def)
  have t1: "sts = []" "t1 = s0" using r(4) t by auto
  have "mapS (\<lambda>p. get_type_opt (snd p)) params s0 = Inr (replicate (length params) (IntT 64), s0)"
    using int_arg_types [OF env0, of params] params by (simp add: int_params_def case_prod_beta')
  then have ts: "ts = replicate (length params) (IntT 64)" "t2 = s0" using r(5) t1 by auto
  have p: "fst p = length (cs_funcs s0)"
    "t3 = s0\<lparr>cs_names := cs_names s0 @ [name],
             cs_funcs := cs_funcs s0 @ [\<lparr>fn_name = name, fn_type = FunT t (sts @ ts) False\<rparr>]\<rparr>"
    using r(6) new_function_InrD [of L name _ t2 "fst p" "snd p"] ts by auto
  have t5: "e = length (cs_blocks t4)" "t5 = new_blocks (fst p) [''entry''] t4" using append_blockD [OF r(8)] by auto
  have s2: "s2 = (goto_block e t5)\<lparr>cs_locals := [], cs_arena_tags := []\<rparr>"
    using position_at_endD [OF r(9)] r(10) by auto
  have t4: "t4 = t3\<lparr>cs_globals := dict_set name (snd p) (cs_globals t3)\<rparr>" using r(7) by (simp add: set_global_def)
  have t7: "t7 = s4" using r(13) by (auto simp: is_terminated_def cur_block_def split: option.splits)
  have "grown.within (if d then retS () else if t \<noteq> VoidT then emit_unit L Unreachable else emit_unit L RetVoid)"
    by auto
  from grown.withinD [OF this r(14)] have g: "grown s4 s5" by (simp add: t7)
  have c: "csteps L s2 s'" if w: "steps.within L run"
  proof -
    have "csteps L s2 s3" by (rule steps.withinD [OF steps.within_iter r(11)]) (rule steps.within_bind_param)
    moreover have "csteps L s3 s4" by (rule steps.withinD [OF w r(12)])
    moreover have last: "steps.within L (if d then retS () else if t \<noteq> VoidT then emit_unit L Unreachable else emit_unit L RetVoid)"
      by auto
    have "csteps L s4 s5" using steps.withinD [OF last r(14)] by (simp add: t7)
    moreover have "csteps L s5 s'" using r(15) by (auto intro: csteps1 step_arena)
    ultimately show ?thesis by (meson rtranclp_trans)
  qed
  show thesis
    by (rule that [of s2 "fst p" s3 s4 s5])
      (use r(11,12,15) g c in \<open>simp_all add: s2 t4 t5 p ts t1 t s0 goto_block_def new_blocks_def\<close>)
qed

text \<open>The function's code, from its entry block with the arguments \<open>ws\<close>.\<close>

lemma int_function_returns:
  assumes laws: "terminator_law L" "typing_law L" "langref X"
    and params: "int_params params" and body: "list_all (\<lambda>st. no_decl st \<or> int_decl st) body"
    and visit: "visit_stmt L (FunctionDef name params body (Some (Name ''int''))) s = Inr ((), s')" and env: "int_env s"
    and ws: "length ws = length params"
    and val: "exec_body k (map_of (zip (map fst params) ws)) body = Some (Returned w)" and C: "loaded C s'"
  shows "returns X C ((length (cs_blocks s), 0), start ws) w"
proof -
  let ?n = "length (cs_blocks s)" and ?ts = "replicate (length params) (IntT 64)" and ?\<rho> = "map_of (zip (map fst params) ws)"
  obtain f s2 s3 s4 s5 where r: "cs_types s2 = cs_types s" "cs_builder s2 = Some ?n" "cs_locals s2 = []"
    "cs_blocks s2 = cs_blocks s @ [\<lparr>blk_fn = f, blk_name = ''entry'', blk_code = []\<rparr>]"
    "iterS (bind_param L f) (zip [0..<length params] (zip (map fst params) ?ts)) s2 = Inr ((), s3)"
    "iterS (visit_stmt L) body s3 = Inr ((), s4)" "grown s4 s5" "s' = s5\<lparr>cs_arena := cs_arena s\<rparr>"
    using visit_int_FunctionD [OF visit [unfolded visit_stmt.simps] params env] by metis
  have empty: "code s2 ?n = []" by (simp add: code_def r(4))
  have "rel s2 Map.empty (start ws)" by (simp add: rel_def slot_of_def r(3))
  then have rdy: "ready s2 ?n Map.empty (start ws)"
    using env is_open_empty [OF empty] by (simp add: ready_def r(1,2,4) int_env_def)
  have sim: "body_simulated L X C body" by (rule int_body_sim [OF laws body])
  have g23: "grown s2 s3" by (rule grown.withinD [OF grown.within_iter r(5)]) (rule grown.within_bind_param)
  have g34: "grown s3 s4"
    by (rule grown.withinD [OF grown.within_iter r(6)])
      (use body in \<open>auto simp: list_all_iff intro: grown_visit_stmt laws\<close>)
  obtain b3 where b3: "cs_builder s3 = Some b3" "b3 < length (cs_blocks s3)" using g23 r(2,4) by (auto simp: grown_def)
  obtain b4 where b4: "cs_builder s4 = Some b4" "b4 < length (cs_blocks s4)" using g34 b3 by (auto simp: grown_def)
  have "loaded C s5" using C by (simp add: r(8) loaded_def code_def)
  then have C4: "loaded C s4" by (rule loaded_grown [OF _ r(7) b4])
  have C3: "loaded C s3" by (rule loaded_grown [OF C4 g34 b3])
  have "\<exists>m'. msteps X C (here s2 ?n, start ws) (here s3 ?n, m') \<and>
      ready s3 ?n (Map.empty ++ map_of (zip (map fst params) (drop 0 ws))) m'"
    by (rule bind_params_sim [OF laws(2,3) _ rdy])
      (use r(5) C3 ws params in \<open>simp_all add: start_def int_params_def\<close>)
  then obtain m' where m': "msteps X C ((?n, 0), start ws) (here s3 ?n, m')" "ready s3 ?n ?\<rho> m'"
    by (auto simp: empty)
  have "lands_in X C s3 ?n m' (Returned w) s4" by (rule body_simulatedD [OF sim r(6) m'(2) val C4])
  then show ?thesis using returns_step [OF m'(1)] by (auto simp: lands_in_def leads_def)
qed

section \<open>Functions of a program\<close>

text \<open>The code of a finished module.\<close>

definition module_code :: "cstate \<Rightarrow> codemap" where
  "module_code s j = (if j < length (cs_blocks s) then code s j else [])"

text \<open>Later transitions only append code, and an \<open>int\<close> that is the 64-bit integer at the end
  has been so from the start.\<close>

lemma csteps_code:
  "csteps L s t \<Longrightarrow> length (cs_blocks s) \<le> length (cs_blocks t) \<and>
    (\<forall>j < length (cs_blocks s). prefix (code s j) (code t j) \<and> blk_fn (cs_blocks t ! j) = blk_fn (cs_blocks s ! j) \<and>
      blk_name (cs_blocks t ! j) = blk_name (cs_blocks s ! j))"
proof (induction rule: rtranclp_induct)
  case (step t u)
  have "length (cs_blocks t) \<le> length (cs_blocks u) \<and>
    (\<forall>j < length (cs_blocks t). prefix (code t j) (code u j) \<and> blk_fn (cs_blocks u ! j) = blk_fn (cs_blocks t ! j) \<and>
      blk_name (cs_blocks u ! j) = blk_name (cs_blocks t ! j))"
    using step.hyps(2)
  proof cases
    case (step_emit b i t')
    have "prefix (code t j) (code u j) \<and> blk_fn (cs_blocks u ! j) = blk_fn (cs_blocks t ! j) \<and>
        blk_name (cs_blocks u ! j) = blk_name (cs_blocks t ! j)" if "j < length (cs_blocks t)" for j
      using that by (cases "j = b") (simp_all add: step_emit(1) push_instr_def code_def)
    then show ?thesis by (simp add: step_emit(1) push_instr_def)
  qed (auto simp: code_def nth_append)
  then show ?case using step.IH by (auto intro: prefix_order.trans)
qed simp

lemma csteps_funcs: "csteps L s t \<Longrightarrow> prefix (cs_funcs s) (cs_funcs t)"
proof (induction rule: rtranclp_induct)
  case (step t u)
  have "prefix (cs_funcs t) (cs_funcs u)" using step.hyps(2) by cases (simp_all add: push_instr_def)
  then show ?case using step.IH by (auto intro: prefix_order.trans)
qed simp

lemma csteps_int_env:
  "csteps L s t \<Longrightarrow> int_env t \<Longrightarrow> dict_get (cs_types s) ''int'' \<noteq> None \<Longrightarrow> int_env s"
proof (induction rule: converse_rtranclp_induct)
  case (step s t)
  have "dict_get (cs_types t) ''int'' \<noteq> None \<and> (int_env t \<longrightarrow> int_env s)"
    using step.hyps(1) step.prems(2) by cases (auto simp: int_env_def push_instr_def)
  then show ?case using step.IH step.prems(1) by blast
qed simp

lemma csteps_int_present: "csteps L s t \<Longrightarrow> dict_get (cs_types s) ''int'' \<noteq> None \<Longrightarrow> dict_get (cs_types t) ''int'' \<noteq> None"
proof (induction rule: rtranclp_induct)
  case (step t u)
  then have "dict_get (cs_types t) ''int'' \<noteq> None" by blast
  with step.hyps(2) show ?case by cases (auto simp: push_instr_def)
qed simp

text \<open>A function of a program is visited from a state of the compilation, and the rest of the
  compilation goes on from there.\<close>

lemma compile_program_function:
  assumes "compile_program L triple builtin source = Inr s"
    and fd: "FunctionDef name params body ret \<in> set (builtin @ source)" and "name \<noteq> ''handle''"
  obtains s1 s2 where "csteps L empty_cstate s1" "visit_stmt L (FunctionDef name params body ret) s1 = Inr ((), s2)"
    "csteps L s2 s"
proof -
  let ?st = "FunctionDef name params body ret"
  obtain pre post where tree: "builtin @ source = pre @ ?st # post" using fd by (meson split_list)
  obtain u0 s0 u1 s' u where run: "compiler_init L triple empty_cstate = Inr (u0, s0)"
    "visit_Module L (builtin @ source) s0 = Inr (u1, s')" "synthesize_lambda_entry L s' = Inr (u, s)"
    using assms(1) by (auto simp: compile_program_def compile_def bindR_Inr_iff bindS_Inr_iff)
  obtain s1 s2 where r: "iterS (visit_top L) pre s0 = Inr ((), s1)" "visit_top L ?st s1 = Inr ((), s2)"
    "iterS (visit_top L) post s2 = Inr ((), s')"
    using run(2) unfolding visit_Module_def tree by (auto simp: iterS_append)
  have "csteps L empty_cstate s0" by (rule steps.withinD [OF steps_compiler_init run(1)])
  moreover have "csteps L s0 s1" by (rule steps.withinD [OF steps.within_iter r(1)]) (rule steps_visit_top)
  ultimately have "csteps L empty_cstate s1" by (rule rtranclp_trans)
  moreover have "visit_stmt L ?st s1 = Inr ((), s2)"
    using r(2) assms(3) by (simp add: visit_top_def is_main_block_def del: visit_stmt.simps)
  moreover have "csteps L s2 s'" by (rule steps.withinD [OF steps.within_iter r(3)]) (rule steps_visit_top)
  moreover have "csteps L s' s" by (rule steps.withinD [OF steps.within_synthesize_lambda_entry run(3)])
  ultimately show thesis using that by (meson rtranclp_trans)
qed

lemma program_function_returns:
  assumes laws: "terminator_law L" "typing_law L" "langref X"
    and compiled: "compile_program L triple builtin source = Inr s" and env: "int_env s"
    and fd: "FunctionDef name params body (Some (Name ''int'')) \<in> set (builtin @ source)" and "name \<noteq> ''handle''"
    and params: "int_params params" and body: "list_all (\<lambda>st. no_decl st \<or> int_decl st) body"
  shows "\<exists>e < length (cs_blocks s). blk_name (cs_blocks s ! e) = ''entry'' \<and>
    fn_name (cs_funcs s ! blk_fn (cs_blocks s ! e)) = name \<and>
    (\<forall>ws k w. length ws = length params \<longrightarrow> exec_body k (map_of (zip (map fst params) ws)) body = Some (Returned w) \<longrightarrow>
       (\<forall>w'. returns X (module_code s) ((e, 0), start ws) w' \<longleftrightarrow> w' = w))"
proof -
  obtain s1 s2 where r: "csteps L empty_cstate s1" "csteps L s2 s"
    and visit: "visit_stmt L (FunctionDef name params body (Some (Name ''int''))) s1 = Inr ((), s2)"
    using compile_program_function [OF compiled fd assms(7)] .
  have "csteps L s1 s2" by (rule steps.withinD [OF steps.within_visit_stmt visit])
  then have c: "csteps L s1 s" using r(2) by (rule rtranclp_trans)
  have "dict_get (cs_types s1) ''int'' \<noteq> None"
    by (rule csteps_int_present [OF r(1)]) (simp add: empty_cstate_def initial_types_def)
  then have env1: "int_env s1" by (rule csteps_int_env [OF c env])
  let ?e = "length (cs_blocks s1)"
  obtain f t where t: "cs_blocks t = cs_blocks s1 @ [\<lparr>blk_fn = f, blk_name = ''entry'', blk_code = []\<rparr>]"
    "f = length (cs_funcs s1)"
    "cs_funcs t = cs_funcs s1 @ [\<lparr>fn_name = name, fn_type = FunT (IntT 64) (replicate (length params) (IntT 64)) False\<rparr>]"
    "steps.within L (iterS (visit_stmt L) body) \<Longrightarrow> csteps L t s2"
    using visit_int_FunctionD [OF visit [unfolded visit_stmt.simps] params env1] by metis
  have "csteps L t s"
    using t(4) [OF steps.within_block] r(2) by (rule rtranclp_trans)
  then have blk: "?e < length (cs_blocks s)" "blk_name (cs_blocks s ! ?e) = ''entry''" "blk_fn (cs_blocks s ! ?e) = f"
    and fn: "fn_name (cs_funcs s ! f) = name"
    using csteps_code [of L t s] csteps_funcs [of L t s] by (auto simp: t(1,2,3) prefix_def nth_append)
  have "loaded (module_code s) s2"
    using csteps_code [OF r(2)] by (auto simp: loaded_def module_code_def)
  from int_function_returns [OF laws params body visit env1 _ _ this]
  have "returns X (module_code s) ((?e, 0), start ws) w"
    if "length ws = length params" "exec_body k (map_of (zip (map fst params) ws)) body = Some (Returned w)" for ws k w
    using that by blast
  then show ?thesis using blk fn returns_unique by (intro exI [of _ ?e]) blast
qed

text \<open>C2: Integer functions are compiled correctly. Take a program the compiler accepts and a
  top-level function of it other than \<open>handle\<close>, with \<open>int\<close> parameters, an \<open>int\<close>
  result and a body of \<open>int\<close> declarations, assignments, \<open>if\<close>, \<open>while\<close> without \<open>else\<close>,
  \<open>return\<close> and \<open>pass\<close> (statements outside this fragment may occur where a run does not
  reach them, except nested declarations). The finished module has an entry block of the function
  of that name, and whenever the body returns a word on the arguments, the machine code run from
  that block on these arguments returns exactly that word.\<close>

theorem int_functions_correct:
  assumes laws: "terminator_law L" "typing_law L" "langref X"
    and compiled: "compile_program L triple builtin source = Inr s" and env: "int_env s"
    and fd: "FunctionDef name params body (Some (Name ''int'')) \<in> set (builtin @ source)" and "name \<noteq> ''handle''"
    and params: "int_params params" and body: "list_all (\<lambda>st. no_decl st \<or> int_decl st) body"
  shows "\<exists>e < length (cs_blocks s). blk_name (cs_blocks s ! e) = ''entry'' \<and>
    fn_name (cs_funcs s ! blk_fn (cs_blocks s ! e)) = name \<and>
    (\<forall>ws k w. length ws = length params \<longrightarrow> exec_body k (map_of (zip (map fst params) ws)) body = Some (Returned w) \<longrightarrow>
       (\<forall>w'. returns X (module_code s) ((e, 0), start ws) w' \<longleftrightarrow> w' = w))"
  by (rule program_function_returns [OF assms])

section \<open>An instance\<close>

text \<open>A function with a loop, a branch and a local variable, and a handler that calls it:

  \<^verbatim>\<open>class Request:
    n: int
class Response:
    m: int
def odd_sum(n: int) -> int:
    s: int = 0
    while n > 0:
        if n % 2 == 1:
            s = s + n
        n = n - 1
    return s
def handle(event: Request) -> Response:
    return Response(odd_sum(event.n))\<close>\<close>

definition odd_sum_body :: "stmt list" where
  "odd_sum_body =
     [AnnAssign (Name ''s'') (Name ''int'') (Some (Constant (CInt 0))),
      While (Compare (Name ''n'') [Gt] [Constant (CInt 0)])
        [If (Compare (BinOp (Name ''n'') Mod (Constant (CInt 2))) [Eq] [Constant (CInt 1)])
           [Assign [Name ''s''] (BinOp (Name ''s'') Add (Name ''n''))] [],
         Assign [Name ''n''] (BinOp (Name ''n'') Sub (Constant (CInt 1)))] [],
      Return (Some (Name ''s''))]"

definition odd_sum_pie :: "stmt list" where
  "odd_sum_pie =
     [ClassDef ''Request'' [AnnAssign (Name ''n'') (Name ''int'') None],
      ClassDef ''Response'' [AnnAssign (Name ''m'') (Name ''int'') None],
      FunctionDef ''odd_sum'' [(''n'', Some (Name ''int''))] odd_sum_body (Some (Name ''int'')),
      FunctionDef ''handle'' [(''event'', Some (Name ''Request''))]
        [Return (Some (Call (Name ''Response'') [Call (Name ''odd_sum'') [Attribute (Name ''event'') ''n''] []] []))]
        (Some (Name ''Response''))]"

lemma odd_sum_compiles:
  "case compile_program std_llapi None [] odd_sum_pie of Inl e \<Rightarrow> False | Inr s \<Rightarrow> int_env s"
  by code_simp

lemma odd_sum_fragment:
  "FunctionDef ''odd_sum'' [(''n'', Some (Name ''int''))] odd_sum_body (Some (Name ''int'')) \<in> set ([] @ odd_sum_pie)"
  "''odd_sum'' \<noteq> ''handle''" "int_params [(''n'', Some (Name ''int''))]"
  "list_all (\<lambda>st. no_decl st \<or> int_decl st) odd_sum_body"
  by (simp_all add: odd_sum_pie_def odd_sum_body_def int_params_def int_decl_def)

lemma odd_sum_value: "exec_body 9 [''n'' \<mapsto> 3] odd_sum_body = Some (Returned 4)"
proof -
  have "case exec_body 9 [''n'' \<mapsto> 3] odd_sum_body of Some (Returned w) \<Rightarrow> w = 4 | _ \<Rightarrow> False" by code_simp
  then show ?thesis by (auto split: option.splits outcome.splits)
qed

theorem int_functions_correct_witness:
  "\<exists>s e. compile_program std_llapi None [] odd_sum_pie = Inr s \<and> fn_name (cs_funcs s ! blk_fn (cs_blocks s ! e)) = ''odd_sum'' \<and>
     (\<forall>w. returns std_llsem (module_code s) ((e, 0), start [3]) w \<longleftrightarrow> w = 4)"
proof -
  obtain s where s: "compile_program std_llapi None [] odd_sum_pie = Inr s" "int_env s"
    using odd_sum_compiles by (auto split: sum.splits)
  from int_functions_correct [OF std_terminator_law std_typing_law std_langref s odd_sum_fragment]
  obtain e where e: "fn_name (cs_funcs s ! blk_fn (cs_blocks s ! e)) = ''odd_sum''"
    "\<forall>ws k w. length ws = 1 \<longrightarrow> exec_body k (map_of (zip [''n''] ws)) odd_sum_body = Some (Returned w) \<longrightarrow>
       (\<forall>w'. returns std_llsem (module_code s) ((e, 0), start ws) w' \<longleftrightarrow> w' = w)"
    by auto
  have "\<forall>w'. returns std_llsem (module_code s) ((e, 0), start [3]) w' \<longleftrightarrow> w' = 4"
    using e(2) odd_sum_value by simp
  then show ?thesis using s(1) e(1) by blast
qed

end
