(* ===== verification/PiePython.thy ===== *)
theory PiePython
  imports CompilerCorrect
begin

text \<open>
  Integer programs against Python. Python's integers are unbounded, its \<open>%\<close> takes the sign
  of the divisor and its \<open>>>\<close> is arithmetic; generated code works on 64-bit words. The
  theory says for which operands an operator means the same on both sides, and that a function
  whose run in Python stays within those operands is compiled correctly with respect to Python.
\<close>

section \<open>Operators\<close>

text \<open>Python's operators on integers; \<open>None\<close> where Python raises, and for the operators whose
  result is no integer or that the compiler does not know.\<close>

definition py_binop :: "operator \<Rightarrow> int \<Rightarrow> int \<Rightarrow> int option" where
  "py_binop op a b =
     (case op of
        Add \<Rightarrow> Some (a + b)
      | Sub \<Rightarrow> Some (a - b)
      | Mult \<Rightarrow> Some (a * b)
      | BitAnd \<Rightarrow> Some (a AND b)
      | BitOr \<Rightarrow> Some (a OR b)
      | BitXor \<Rightarrow> Some (a XOR b)
      | LShift \<Rightarrow> if 0 \<le> b then Some (push_bit (nat b) a) else None
      | RShift \<Rightarrow> if 0 \<le> b then Some (drop_bit (nat b) a) else None
      | Mod \<Rightarrow> if b = 0 then None else Some (a mod b)
      | _ \<Rightarrow> None)"

text \<open>Operands on which the generated instruction computes what Python does.\<close>

definition faithful_operands :: "operator \<Rightarrow> int \<Rightarrow> int \<Rightarrow> bool" where
  "faithful_operands op a b \<longleftrightarrow>
     (case op of
        Mod \<Rightarrow> (a mod b = 0 \<or> (a < 0 \<longleftrightarrow> b < 0)) \<and> \<not> (a = - (2 ^ 63) \<and> b = -1)
      | LShift \<Rightarrow> b < 64
      | RShift \<Rightarrow> b < 64 \<and> (0 \<le> a \<or> b = 0)
      | _ \<Rightarrow> True)"

lemma word_of_int_eq64: "int64 m \<Longrightarrow> int64 n \<Longrightarrow> (word_of_int m :: 64 word) = word_of_int n \<longleftrightarrow> m = n"
  by (metis sint_word_of_int)

lemma unat_word_of_int: "int64 n \<Longrightarrow> 0 \<le> n \<Longrightarrow> unat (word_of_int n :: 64 word) = nat n"
  unfolding int64_def by (simp add: unat_eq_nat_uint uint_word_of_int)

lemma smod_mod_iff:
  assumes "(b :: int) \<noteq> 0"
  shows "a smod b = a mod b \<longleftrightarrow> a mod b = 0 \<or> (a < 0 \<longleftrightarrow> b < 0)"
proof -
  have "a smod b = a mod b - b * of_bool (sgn a \<noteq> sgn b \<and> \<not> b dvd a)" by (rule signed_modulo_int_eq_modulo_int)
  then show ?thesis using assms by (auto simp: sgn_if dvd_eq_mod_eq_0)
qed

text \<open>The unsigned shift of a non-negative number is Python's, that of a negative one is not.\<close>

lemma uint_drop_bit: "uint (drop_bit n (w :: 64 word)) = drop_bit n (uint w)"
  using uint_lt2p [of w] by (simp add: unsigned_drop_bit_eq take_bit_int_eq_self)

lemma drop_bit_word_of_int:
  assumes "int64 a" and "0 \<le> a"
  shows "drop_bit n (word_of_int a :: 64 word) = word_of_int (drop_bit n a)"
proof (rule word_uint_eqI)
  have "drop_bit n a \<le> a" using assms(2) zdiv_mono2 [of a 1 "2 ^ n"] by (simp add: drop_bit_eq_div)
  moreover have "0 \<le> drop_bit n a" using assms(2) by simp
  ultimately have "uint (word_of_int (drop_bit n a) :: 64 word) = drop_bit n a" "uint (word_of_int a :: 64 word) = a"
    using assms unfolding int64_def by (simp_all add: uint_word_of_int)
  then show "uint (drop_bit n (word_of_int a :: 64 word)) = uint (word_of_int (drop_bit n a) :: 64 word)"
    by (simp add: uint_drop_bit)
qed

lemma drop_bit_negative:
  assumes "int64 a" and "a < 0" and "0 < n" and "n < 64"
  shows "drop_bit n (word_of_int a :: 64 word) \<noteq> word_of_int (drop_bit n a)"
proof -
  let ?w = "word_of_int a :: 64 word"
  have "uint (drop_bit n ?w) = uint ?w div 2 ^ n" unfolding uint_drop_bit by (rule drop_bit_eq_div)
  also have "\<dots> \<le> uint ?w div 2 ^ 1"
    by (rule zdiv_mono2) (use assms(3) power_increasing [of 1 n "2 :: int"] in simp_all)
  also have "\<dots> < 2 ^ 63" using uint_lt2p [of ?w] by simp
  finally have "signed_take_bit 63 (uint (drop_bit n ?w)) = uint (drop_bit n ?w)"
    by (intro signed_take_bit_int_eq_self) (use uint_ge_0 [of "drop_bit n ?w"] in linarith)+
  then have "0 \<le> sint (drop_bit n ?w)" using uint_ge_0 [of "drop_bit n ?w"] by (simp only: sint_uint) simp
  moreover have "int64 (drop_bit n a)" "drop_bit n a < 0"
  proof -
    show "drop_bit n a < 0" using assms(2) by simp
    have "a div 1 \<le> a div 2 ^ n" by (rule zdiv_mono2_neg) (use assms(2) in simp_all)
    then show "int64 (drop_bit n a)" using assms(1,2) \<open>drop_bit n a < 0\<close> by (simp add: int64_def drop_bit_eq_div)
  qed
  ultimately show ?thesis using sint_word_of_int [of "drop_bit n a"] by auto
qed

text \<open>The generated instruction gives Python's result exactly on these operands.\<close>

lemma mod_agrees:
  assumes "int64 a" and "int64 b" and "b \<noteq> 0" and "int64 (a mod b)"
  shows "bin_sem OpSrem (word_of_int a) (word_of_int b) = Some (word_of_int (a mod b)) \<longleftrightarrow>
    (a mod b = 0 \<or> (a < 0 \<longleftrightarrow> b < 0)) \<and> \<not> (a = - (2 ^ 63) \<and> b = -1)"
proof -
  have s: "sint (word_of_int a :: 64 word) = a" "sint (word_of_int b :: 64 word) = b"
    using assms sint_word_of_int by simp_all
  have nz: "(word_of_int b :: 64 word) \<noteq> 0"
    using word_of_int_eq64 [OF assms(2), of 0] assms(3) by (simp add: int64_def)
  have "\<bar>a smod b\<bar> < \<bar>b\<bar>" using smod_int_range [OF assms(3), of a] by auto
  then have "int64 (a smod b)" using assms(2) by (auto simp: int64_def)
  then show ?thesis
    using word_of_int_eq64 [OF _ assms(4)] smod_mod_iff [OF assms(3), of a] s nz by (auto simp: bin_sem_def)
qed

lemma shift_agrees:
  assumes "int64 a" and "int64 b" and "0 \<le> b"
  shows "int64 (push_bit (nat b) a) \<Longrightarrow>
      bin_sem OpShl (word_of_int a) (word_of_int b) = Some (word_of_int (push_bit (nat b) a)) \<longleftrightarrow> b < 64"
    and "bin_sem OpLshr (word_of_int a) (word_of_int b) = Some (word_of_int (drop_bit (nat b) a)) \<longleftrightarrow>
      b < 64 \<and> (0 \<le> a \<or> b = 0)"
proof -
  have u: "unat (word_of_int b :: 64 word) = nat b" by (rule unat_word_of_int [OF assms(2,3)])
  have "(push_bit (nat b) (word_of_int a) :: 64 word) = word_of_int (push_bit (nat b) a)"
    by (simp add: push_bit_eq_mult)
  then show "bin_sem OpShl (word_of_int a) (word_of_int b) = Some (word_of_int (push_bit (nat b) a)) \<longleftrightarrow> b < 64"
    using u assms(3) by (auto simp: bin_sem_def)
  have "(drop_bit (nat b) (word_of_int a) :: 64 word) = word_of_int (drop_bit (nat b) a) \<longleftrightarrow> 0 \<le> a \<or> b = 0" if "b < 64"
  proof (cases "0 \<le> a \<or> b = 0")
    case True
    then show ?thesis using drop_bit_word_of_int [OF assms(1)] by auto
  next
    case False
    then show ?thesis using drop_bit_negative [OF assms(1), of "nat b"] assms(3) that by auto
  qed
  then show "bin_sem OpLshr (word_of_int a) (word_of_int b) = Some (word_of_int (drop_bit (nat b) a)) \<longleftrightarrow>
      b < 64 \<and> (0 \<le> a \<or> b = 0)"
    using u assms(3) by (auto simp: bin_sem_def)
qed

lemma operator_agrees:
  assumes "int64 a" and "int64 b" and "py_binop op a b = Some c" and "int64 c" and "opcode_of op = Some oc"
  shows "bin_sem oc (word_of_int a) (word_of_int b) = Some (word_of_int c) \<longleftrightarrow> faithful_operands op a b"
proof (cases op)
  case Mod
  then have "b \<noteq> 0" "c = a mod b" using assms(3) by (auto simp: py_binop_def split: if_splits)
  then show ?thesis using mod_agrees [OF assms(1,2)] assms(4,5) by (simp add: Mod faithful_operands_def opcode_of_def)
next
  case LShift
  then have "0 \<le> b" "c = push_bit (nat b) a" using assms(3) by (auto simp: py_binop_def split: if_splits)
  then show ?thesis using shift_agrees(1) [OF assms(1,2)] assms(4,5) by (simp add: LShift faithful_operands_def opcode_of_def)
next
  case RShift
  then have "0 \<le> b" "c = drop_bit (nat b) a" using assms(3) by (auto simp: py_binop_def split: if_splits)
  then show ?thesis using shift_agrees(2) [OF assms(1,2)] assms(5) by (simp add: RShift faithful_operands_def opcode_of_def)
qed (use assms(3,5) in \<open>auto simp: py_binop_def opcode_of_def bin_sem_def faithful_operands_def
      of_int_and_eq of_int_or_eq of_int_xor_eq\<close>)



section \<open>Expressions and conditions\<close>

text \<open>\<open>py_eval False\<close> and \<open>py_test False\<close> are Python's. With \<open>True\<close> they
  are defined only where every number fits 64 bits and every operator gets operands on which
  generated code agrees.\<close>

definition fits :: "bool \<Rightarrow> int \<Rightarrow> int option" where
  "fits strict n = (if strict \<and> \<not> int64 n then None else Some n)"

fun py_eval :: "bool \<Rightarrow> int env \<Rightarrow> expr \<Rightarrow> int option" where
  "py_eval strict \<rho> (Name x) = Option.bind (\<rho> x) (fits strict)"
| "py_eval strict \<rho> (Constant c) = (case c of CInt n \<Rightarrow> fits strict n | _ \<Rightarrow> None)"
| "py_eval strict \<rho> (BinOp l op r) =
     Option.bind (py_eval strict \<rho> l) (\<lambda>a. Option.bind (py_eval strict \<rho> r) (\<lambda>b.
       if strict \<and> \<not> faithful_operands op a b then None else Option.bind (py_binop op a b) (fits strict)))"
| "py_eval strict \<rho> (UnaryOp op e) =
     Option.bind (py_eval strict \<rho> e) (\<lambda>a.
       case op of Invert \<Rightarrow> fits strict (NOT a) | USub \<Rightarrow> fits strict (- a) | UAdd \<Rightarrow> Some a | UNot \<Rightarrow> None)"
| "py_eval strict \<rho> e = None"

definition py_cmpop :: "cmpop \<Rightarrow> int \<Rightarrow> int \<Rightarrow> bool option" where
  "py_cmpop op a b =
     (case op of
        Eq \<Rightarrow> Some (a = b)
      | NotEq \<Rightarrow> Some (a \<noteq> b)
      | Lt \<Rightarrow> Some (a < b)
      | LtE \<Rightarrow> Some (a \<le> b)
      | Gt \<Rightarrow> Some (b < a)
      | GtE \<Rightarrow> Some (b \<le> a)
      | _ \<Rightarrow> None)"

definition py_test :: "bool \<Rightarrow> int env \<Rightarrow> expr \<Rightarrow> bool option" where
  "py_test strict \<rho> e =
     (case e of
        Compare l [op] [r] \<Rightarrow>
          Option.bind (py_eval strict \<rho> l) (\<lambda>a. Option.bind (py_eval strict \<rho> r) (\<lambda>b. py_cmpop op a b))
      | _ \<Rightarrow> None)"

abbreviation py_body :: "bool \<Rightarrow> nat \<Rightarrow> int env \<Rightarrow> stmt list \<Rightarrow> int outcome option" where
  "py_body strict \<equiv> run_body (py_eval strict) (py_test strict)"

lemma fits_strict: "fits True n = Some m \<longleftrightarrow> m = n \<and> int64 n"
  by (auto simp: fits_def)

lemma fits_python: "fits False n = Some n"
  by (simp add: fits_def)

lemma strict_python: "py_eval True \<rho> e = Some v \<Longrightarrow> py_eval False \<rho> e = Some v"
  by (induction e arbitrary: v)
    (auto simp: fits_strict fits_python Option.bind_eq_Some_conv split: const.splits unaryop.splits if_splits)

lemma strict_int64: "py_eval True \<rho> e = Some v \<Longrightarrow> int64 v"
proof (induction e arbitrary: v)
  case (UnaryOp op e)
  then show ?case by (cases op) (auto simp: fits_strict Option.bind_eq_Some_conv)
qed (auto simp: fits_strict Option.bind_eq_Some_conv split: const.splits if_splits)

lemma word_binop_opcode:
  "word_binop op a b = (case opcode_of op of None \<Rightarrow> None | Some oc \<Rightarrow> bin_sem oc a b)"
  by (cases op) (simp_all add: word_binop_def opcode_of_def bin_sem_def)

lemma strict_word:
  "py_eval True \<rho> e = Some v \<Longrightarrow> word_eval (map_env word_of_int \<rho>) e = Some (word_of_int v)"
proof (induction e arbitrary: v)
  case (BinOp l op r)
  obtain a b where ab: "py_eval True \<rho> l = Some a" "py_eval True \<rho> r = Some b" "faithful_operands op a b"
    "py_binop op a b = Some v" "int64 v"
    using BinOp.prems by (auto simp: Option.bind_eq_Some_conv fits_strict split: if_splits)
  obtain oc where oc: "opcode_of op = Some oc"
    using ab(4) by (cases op) (auto simp: py_binop_def opcode_of_def)
  have "bin_sem oc (word_of_int a) (word_of_int b) = Some (word_of_int v)"
    using operator_agrees [OF _ _ ab(4,5) oc] strict_int64 [OF ab(1)] strict_int64 [OF ab(2)] ab(3) by simp
  then show ?case using BinOp.IH ab(1,2) by (simp add: word_binop_opcode oc)
next
  case (UnaryOp op e)
  obtain a where a: "py_eval True \<rho> e = Some a" using UnaryOp.prems by (auto simp: Option.bind_eq_Some_conv)
  then show ?case using UnaryOp
    by (cases op) (auto simp: fits_strict of_int_not_eq)
qed (auto simp: fits_strict Option.bind_eq_Some_conv map_env_def split: const.splits)

lemma strict_test:
  assumes "py_test True \<rho> e = Some v"
  shows "word_test (map_env word_of_int \<rho>) e = Some v" and "py_test False \<rho> e = Some v"
proof -
  obtain l op r where e: "e = Compare l [op] [r]"
    using assms unfolding py_test_def by (auto split: expr.splits list.splits)
  obtain a b where ab: "py_eval True \<rho> l = Some a" "py_eval True \<rho> r = Some b" "py_cmpop op a b = Some v"
    using assms by (auto simp: py_test_def e Option.bind_eq_Some_conv)
  have i: "int64 a" "int64 b" using ab strict_int64 by blast+
  have "word_cmpop op (word_of_int a) (word_of_int b) = Some v"
    using ab(3) sint_word_of_int [OF i(1)] sint_word_of_int [OF i(2)] word_of_int_eq64 [OF i]
    by (cases op) (simp_all add: py_cmpop_def word_cmpop_def)
  then show "word_test (map_env word_of_int \<rho>) e = Some v"
    using strict_word [OF ab(1)] strict_word [OF ab(2)] by (simp add: word_test_def e)
  show "py_test False \<rho> e = Some v"
    using strict_python [OF ab(1)] strict_python [OF ab(2)] ab(3) by (simp add: py_test_def e)
qed

section \<open>Functions\<close>

lemma map_env_id: "map_env id \<rho> = \<rho>"
  by (simp add: map_env_def option.map_id0)

lemma strict_run:
  assumes "py_body True k \<rho> body = Some (Returned v)"
  shows "py_body False k \<rho> body = Some (Returned v)"
    and "exec_body k (map_env word_of_int \<rho>) body = Some (Returned (word_of_int v))"
proof -
  have "run_body (py_eval False) (py_test False) k (map_env id \<rho>) body = Some (map_out id (Returned v))"
    by (rule run_map(2) [OF _ _ assms]) (simp_all add: map_env_id strict_python strict_test)
  then show "py_body False k \<rho> body = Some (Returned v)" by (simp add: map_env_id)
  have "exec_body k (map_env word_of_int \<rho>) body = Some (map_out word_of_int (Returned v))"
    by (rule run_map(2) [OF _ _ assms]) (simp_all add: strict_word strict_test)
  then show "exec_body k (map_env word_of_int \<rho>) body = Some (Returned (word_of_int v))" by simp
qed

text \<open>C3: Compiled integer functions against Python. For a top-level function of the fragment of
  \<open>int_functions_correct\<close> and integer arguments: if the run of its body in Python, with unbounded
  integers, meets only numbers of 64 bits and only operands of \<open>%\<close>, \<open><<\<close> and \<open>>>\<close>
  on which \<open>faithful_operands\<close> holds, then what Python returns is what the generated code
  returns, read as a signed number, and the code returns nothing else.\<close>

theorem python_functions_correct:
  assumes laws: "terminator_law L" "typing_law L" "langref X"
    and compiled: "compile_program L triple builtin source = Inr s" and env: "int_env s"
    and fd: "FunctionDef name params body (Some (Name ''int'')) \<in> set (builtin @ source)" and "name \<noteq> ''handle''"
    and params: "int_params params" and body: "list_all (\<lambda>st. no_decl st \<or> int_decl st) body"
  shows "\<exists>e < length (cs_blocks s). fn_name (cs_funcs s ! blk_fn (cs_blocks s ! e)) = name \<and>
    (\<forall>ns k v. length ns = length params \<longrightarrow> py_body True k (map_of (zip (map fst params) ns)) body = Some (Returned v) \<longrightarrow>
       py_body False k (map_of (zip (map fst params) ns)) body = Some (Returned v) \<and>
       (\<exists>w. sint w = v \<and> returns X (module_code s) ((e, 0), start (map word_of_int ns)) w) \<and>
       (\<forall>w. returns X (module_code s) ((e, 0), start (map word_of_int ns)) w \<longrightarrow> sint w = v))"
proof -
  obtain e where e: "e < length (cs_blocks s)" "fn_name (cs_funcs s ! blk_fn (cs_blocks s ! e)) = name"
    "\<And>ws k w. length ws = length params \<Longrightarrow> exec_body k (map_of (zip (map fst params) ws)) body = Some (Returned w) \<Longrightarrow>
       (\<forall>w'. returns X (module_code s) ((e, 0), start ws) w' \<longleftrightarrow> w' = w)"
    using program_function_returns [OF assms] by blast
  have "py_body False k (map_of (zip (map fst params) ns)) body = Some (Returned v) \<and>
      sint (word_of_int v :: 64 word) = v \<and>
      (\<forall>w. returns X (module_code s) ((e, 0), start (map word_of_int ns)) w \<longleftrightarrow> w = word_of_int v)"
    if "length ns = length params" and run: "py_body True k (map_of (zip (map fst params) ns)) body = Some (Returned v)" for ns k v
  proof (intro conjI)
    have "map_env word_of_int (map_of (zip (map fst params) ns)) = map_of (zip (map fst params) (map word_of_int ns :: 64 word list))"
      by (simp add: map_env_def map_of_map [symmetric] zip_map2 prod.case_distrib case_prod_unfold)
    then show "\<forall>w. returns X (module_code s) ((e, 0), start (map word_of_int ns)) w \<longleftrightarrow> w = word_of_int v"
      using e(3) [of "map word_of_int ns"] strict_run(2) [OF run] that(1) by simp
    obtain \<rho> ex where "py_eval True \<rho> ex = Some v" using run_returned(2) [OF run] by blast
    then show "sint (word_of_int v :: 64 word) = v" using sint_word_of_int strict_int64 by blast
  qed (rule strict_run(1) [OF run])
  then show ?thesis using e(1,2) by (intro exI [of _ e]) fastforce
qed

theorem python_functions_correct_witness:
  "\<exists>s e. compile_program std_llapi None [] odd_sum_pie = Inr s \<and>
     py_body False 9 [''n'' \<mapsto> 3] odd_sum_body = Some (Returned 4) \<and>
     (\<forall>w. returns std_llsem (module_code s) ((e, 0), start [3]) w \<longrightarrow> sint w = 4)"
proof -
  obtain s where s: "compile_program std_llapi None [] odd_sum_pie = Inr s" "int_env s"
    using odd_sum_compiles by (auto split: sum.splits)
  from python_functions_correct [OF std_terminator_law std_typing_law std_langref s odd_sum_fragment]
  obtain e where e: "\<forall>ns k v. length ns = length [(''n'', Some (Name ''int''))] \<longrightarrow>
       py_body True k (map_of (zip (map fst [(''n'', Some (Name ''int''))]) ns)) odd_sum_body = Some (Returned v) \<longrightarrow>
       (\<forall>w. returns std_llsem (module_code s) ((e, 0), start (map word_of_int ns)) w \<longrightarrow> sint w = v)"
    by blast
  have "case py_body True 9 [''n'' \<mapsto> 3] odd_sum_body of Some (Returned v) \<Rightarrow> v = 4 | _ \<Rightarrow> False" by code_simp
  then have run: "py_body True 9 [''n'' \<mapsto> 3] odd_sum_body = Some (Returned 4)"
    by (auto split: option.splits outcome.splits)
  have "\<forall>w. returns std_llsem (module_code s) ((e, 0), start [3]) w \<longrightarrow> sint w = 4"
    using e [rule_format, of "[3]" 9 4] run by simp
  then show ?thesis using strict_run(1) [OF run] s(1) by blast
qed

end
