(* ===== verification/JsonRuntime.thy ===== *)
theory JsonRuntime
  imports PieSem
begin

text \<open>
  The JSON functions of the C runtime (\<open>runtime/src/json.c\<close>), which the generated
  \<open>lambpie_handle\<close> calls for every field of the event and the response. A byte string is
  a list of characters; \<open>json\<close> stands for the \<open>json_len\<close> bytes at the pointer. A
  response buffer is the list of its bytes, and a store past its end, like a signed overflow, is
  undefined behaviour, a result of its own.
\<close>

section \<open>Reading\<close>

abbreviation quote :: char where
  "quote \<equiv> CHR 0x22"

definition is_ws :: "char \<Rightarrow> bool" where
  "is_ws c \<longleftrightarrow> c = CHR '' '' \<or> c = CHR 0x09 \<or> c = CHR 0x0D \<or> c = CHR 0x0A"

function skip_ws :: "string \<Rightarrow> nat \<Rightarrow> nat" where
  "skip_ws json pos = (if pos < length json \<and> is_ws (json ! pos) then skip_ws json (Suc pos) else pos)"
  by pat_completeness auto
termination by (relation "measure (\<lambda>(json, pos). length json - pos)") auto

declare skip_ws.simps [simp del]

text \<open>The loop of \<open>find_key\<close> from index \<open>i\<close>; the result is the length of the text when the key
  is not there.\<close>

function find_key_from :: "string \<Rightarrow> string \<Rightarrow> nat \<Rightarrow> nat" where
  "find_key_from json key i =
     (if i + length key + 1 < length json then
        if json ! i = quote \<and> take (length key) (drop (i + 1) json) = key \<and> json ! (i + 1 + length key) = quote
        then i else find_key_from json key (Suc i)
      else length json)"
  by pat_completeness auto
termination by (relation "measure (\<lambda>(json, key, i). length json - i)") auto

declare find_key_from.simps [simp del]

definition find_key :: "string \<Rightarrow> string \<Rightarrow> nat" where
  "find_key json key =
     (if length key = 0 \<or> length json < length key + 2 then length json else find_key_from json key 0)"

text \<open>The scan for the closing quote.\<close>

function scan_quote :: "string \<Rightarrow> nat \<Rightarrow> nat" where
  "scan_quote json pos = (if pos < length json \<and> json ! pos \<noteq> quote then scan_quote json (Suc pos) else pos)"
  by pat_completeness auto
termination by (relation "measure (\<lambda>(json, pos). length json - pos)") auto

declare scan_quote.simps [simp del]

text \<open>\<open>json_get_str\<close>: the offset of the value in the text and its length (\<open>out_len\<close>), or
  \<open>NULL\<close>, which leaves \<open>out_len\<close> unset.\<close>

definition json_get_str :: "string \<Rightarrow> string \<Rightarrow> (nat \<times> nat) option" where
  "json_get_str json key =
     (let key_pos = find_key json key in
      if key_pos = length json then None
      else
        let pos = skip_ws json (key_pos + 1 + length key + 1) in
        if length json \<le> pos \<or> json ! pos \<noteq> CHR '':'' then None
        else
          let pos = skip_ws json (pos + 1) in
          if length json \<le> pos \<or> json ! pos \<noteq> quote then None
          else
            let val_start = pos + 1; pos = scan_quote json val_start in
            if length json \<le> pos then None else Some (val_start, pos - val_start))"

text \<open>What a call of \<open>json_get_int\<close> does: the process exits with code 1, the behaviour is
  undefined, or an \<open>int64_t\<close> is returned.\<close>

datatype int_result =
    Exit1
  | Undefined
  | IntValue int

definition is_digit :: "char \<Rightarrow> bool" where
  "is_digit c \<longleftrightarrow> CHR ''0'' \<le> c \<and> c \<le> CHR ''9''"

definition digit_value :: "char \<Rightarrow> int" where
  "digit_value c = int (of_char c) - 48"

text \<open>The accumulation of the digits; \<open>None\<close> is a signed overflow.\<close>

function read_digits :: "string \<Rightarrow> nat \<Rightarrow> int \<Rightarrow> int option" where
  "read_digits json pos acc =
     (if pos < length json \<and> is_digit (json ! pos) then
        if int64 (acc * 10) \<and> int64 (acc * 10 + digit_value (json ! pos))
        then read_digits json (Suc pos) (acc * 10 + digit_value (json ! pos)) else None
      else Some acc)"
  by pat_completeness auto
termination by (relation "measure (\<lambda>(json, pos, acc). length json - pos)") auto

declare read_digits.simps [simp del]

definition json_get_int :: "string \<Rightarrow> string \<Rightarrow> int_result" where
  "json_get_int json key =
     (let key_pos = find_key json key in
      if key_pos = length json then Exit1
      else
        let pos = skip_ws json (key_pos + 1 + length key + 1) in
        if length json \<le> pos \<or> json ! pos \<noteq> CHR '':'' then Exit1
        else
          let pos = skip_ws json (pos + 1) in
          if length json \<le> pos then Exit1
          else
            let negative = (json ! pos = CHR ''-''); pos = (if negative then pos + 1 else pos) in
            if length json \<le> pos \<or> \<not> is_digit (json ! pos) then Exit1
            else (case read_digits json pos 0 of
                    None \<Rightarrow> Undefined
                  | Some v \<Rightarrow> IntValue (if negative then - v else v)))"

section \<open>Writing\<close>

text \<open>A buffer and the next position; \<open>None\<close> is a store outside the buffer.\<close>

type_synonym out = "string \<times> nat"

definition put :: "char \<Rightarrow> out \<Rightarrow> out option" where
  "put c b = (case b of (buf, pos) \<Rightarrow> if pos < length buf then Some (buf[pos := c], Suc pos) else None)"

text \<open>\<open>memcpy(buf + pos, s, n)\<close>, and the loop that copies the digits.\<close>

fun put_all :: "string \<Rightarrow> out \<Rightarrow> out option" where
  "put_all [] b = Some b"
| "put_all (c # cs) b = Option.bind (put c b) (put_all cs)"

definition json_open :: "out \<Rightarrow> out option" where
  "json_open = put CHR ''{''"

definition json_close :: "out \<Rightarrow> out option" where
  "json_close = put CHR ''}''"

definition put_comma :: "out \<Rightarrow> out option" where
  "put_comma b = (if 1 < snd b then put CHR '','' b else Some b)"

definition put_key :: "string \<Rightarrow> out \<Rightarrow> out option" where
  "put_key key b =
     Option.bind (put_comma b) (\<lambda>b.
     Option.bind (put quote b) (\<lambda>b.
     Option.bind (put_all key b) (\<lambda>b.
     Option.bind (put quote b) (put CHR '':''))))"

definition json_write_str :: "string \<Rightarrow> string \<Rightarrow> out \<Rightarrow> out option" where
  "json_write_str key val b =
     Option.bind (put_key key b) (\<lambda>b.
     Option.bind (put quote b) (\<lambda>b.
     Option.bind (put_all val b) (put quote)))"

text \<open>The digits of an unsigned value, least significant first, in \<open>char tmp[20]\<close>.\<close>

function tmp_digits :: "string \<Rightarrow> nat \<Rightarrow> string option" where
  "tmp_digits tmp uval =
     (if 0 < uval then
        if length tmp < 20 then tmp_digits (tmp @ [char_of (48 + uval mod 10)]) (uval div 10) else None
      else Some tmp)"
  by pat_completeness auto
termination by (relation "measure snd") auto

declare tmp_digits.simps [simp del]

definition json_write_int :: "string \<Rightarrow> int \<Rightarrow> out \<Rightarrow> out option" where
  "json_write_int key val b =
     Option.bind (put_key key b) (\<lambda>b.
       if val = 0 then put CHR ''0'' b
       else if val < 0 then
         Option.bind (put CHR ''-'' b) (\<lambda>b.
           Option.bind (tmp_digits [] (nat (- val))) (\<lambda>tmp. put_all (rev tmp) b))
       else Option.bind (tmp_digits [] (nat val)) (\<lambda>tmp. put_all (rev tmp) b))"

text \<open>A response object as \<open>lambpie_handle\<close> writes it: \<open>json_open\<close> at position 0, the
  fields in the order of the class layout, \<open>json_close\<close>.\<close>

datatype field_value =
    StrField string
  | IntField int

fun write_value :: "string \<times> field_value \<Rightarrow> out \<Rightarrow> out option" where
  "write_value (key, StrField v) = json_write_str key v"
| "write_value (key, IntField n) = json_write_int key n"

fun write_values :: "(string \<times> field_value) list \<Rightarrow> out \<Rightarrow> out option" where
  "write_values [] b = Some b"
| "write_values (f # fs) b = Option.bind (write_value f b) (write_values fs)"

definition write_response :: "(string \<times> field_value) list \<Rightarrow> string \<Rightarrow> out option" where
  "write_response fs buf =
     Option.bind (json_open (buf, 0)) (\<lambda>b. Option.bind (write_values fs b) json_close)"

end
