(* ===== verification/HandleSem.thy ===== *)
theory HandleSem
  imports CompilerExpr JsonRuntime
begin

text \<open>
  Running the generated \<open>lambpie_handle\<close>. Its code is one block that moves values between
  registers, heap objects and the C functions of the runtime. The C functions are those of
  \<open>JsonRuntime\<close>; what the other instructions do is LLVM's business, so it is a parameter
  \<open>X k i m\<close>, and \<open>langmem\<close> says what the language reference documents for the
  instructions \<open>lambpie_handle\<close> is made of. The user's \<open>handle\<close> is a function on the heap.
\<close>

section \<open>States\<close>

text \<open>A value: an integer, an object, the address of a field of an object (a stack slot is field 0
  of an object of its own), the bytes from a \<open>char\<close> pointer on, the response buffer, the null
  pointer, and the address of element 1 of a null pointer.\<close>

datatype hval =
    HInt "64 word"
  | HObj nat
  | HField nat nat
  | HBytes string
  | HBuffer
  | HNull
  | HSize ty

text \<open>The fields of the objects, and the number of objects.\<close>

type_synonym heap = "(nat \<Rightarrow> nat \<Rightarrow> hval option) \<times> nat"

record hstate =
  h_regs :: "nat \<Rightarrow> hval option"
  h_heap :: heap
  h_buffer :: string

text \<open>The arguments of the call, the bytes of the private globals, and the user's function;
  \<open>None\<close> is a call that does not return.\<close>

record henv =
  e_args :: "hval list"
  e_data :: "(string \<times> string) list"
  e_user :: "hval \<Rightarrow> heap \<Rightarrow> (hval \<times> heap) option"

definition set_hreg :: "nat \<Rightarrow> hval \<Rightarrow> hstate \<Rightarrow> hstate" where
  "set_hreg k v m = m\<lparr>h_regs := (h_regs m)(k := Some v)\<rparr>"

lemma set_hreg_simps [simp]:
  "h_regs (set_hreg k v m) j = (if j = k then Some v else h_regs m j)"
  "h_heap (set_hreg k v m) = h_heap m"
  "h_buffer (set_hreg k v m) = h_buffer m"
  by (simp_all add: set_hreg_def)

definition write_heap :: "nat \<Rightarrow> nat \<Rightarrow> hval \<Rightarrow> heap \<Rightarrow> heap" where
  "write_heap a j v h = ((fst h)(a := (fst h a)(j := Some v)), snd h)"

definition new_object :: "heap \<Rightarrow> heap" where
  "new_object h = ((fst h)(snd h := (\<lambda>_. None)), Suc (snd h))"

definition hvalue :: "henv \<Rightarrow> hstate \<Rightarrow> obj \<Rightarrow> hval option" where
  "hvalue E m v =
     (case v of
        OVal (ConstV t (CInt n)) \<Rightarrow> Some (HInt (word_of_int n))
      | OVal (ArgV f i t) \<Rightarrow> if i < length (e_args E) then Some (e_args E ! i) else None
      | OVal (InstrV k t) \<Rightarrow> h_regs m k
      | OVal (GlobalV n t) \<Rightarrow> map_option HBytes (map_of (e_data E) n)
      | _ \<Rightarrow> None)"

lemma hvalue_simps [simp]:
  "hvalue E m (OVal (ConstV t (CInt n))) = Some (HInt (word_of_int n))"
  "hvalue E m (OVal (ArgV f i t)) = (if i < length (e_args E) then Some (e_args E ! i) else None)"
  "hvalue E m (OVal (InstrV k t)) = h_regs m k"
  "hvalue E m (OVal (GlobalV g t)) = map_option HBytes (map_of (e_data E) g)"
  by (simp_all add: hvalue_def)

section \<open>The C functions\<close>

datatype call_result =
    Returns hval hstate
  | Exits
  | Stuck

text \<open>The first \<open>n\<close> bytes behind a pointer, when there are that many.\<close>

definition bytes :: "string \<Rightarrow> 64 word \<Rightarrow> string option" where
  "bytes s n = (if unat n \<le> length s then Some (take (unat n) s) else None)"

definition write_result :: "hstate \<Rightarrow> out option \<Rightarrow> call_result" where
  "write_result m r =
     (case r of None \<Rightarrow> Stuck | Some (buf, pos) \<Rightarrow> Returns (HInt (of_nat pos)) (m\<lparr>h_buffer := buf\<rparr>))"

definition call_alloc :: "hval list \<Rightarrow> hstate \<Rightarrow> call_result" where
  "call_alloc args m =
     (case args of
        [HInt tag, HInt sz] \<Rightarrow> Returns (HObj (snd (h_heap m))) (m\<lparr>h_heap := new_object (h_heap m)\<rparr>)
      | _ \<Rightarrow> Stuck)"

definition call_get_str :: "hval list \<Rightarrow> hstate \<Rightarrow> call_result" where
  "call_get_str args m =
     (case args of
        [HBytes json, HInt json_len, HBytes key, HInt key_len, HField a j] \<Rightarrow>
          (case (bytes json json_len, bytes key key_len) of
             (Some t, Some k) \<Rightarrow>
               (case json_get_str t k of
                  None \<Rightarrow> Returns HNull m
                | Some (p, n) \<Rightarrow>
                    Returns (HBytes (drop p json)) (m\<lparr>h_heap := write_heap a j (HInt (of_nat n)) (h_heap m)\<rparr>))
           | _ \<Rightarrow> Stuck)
      | _ \<Rightarrow> Stuck)"

definition call_get_int :: "hval list \<Rightarrow> hstate \<Rightarrow> call_result" where
  "call_get_int args m =
     (case args of
        [HBytes json, HInt json_len, HBytes key, HInt key_len] \<Rightarrow>
          (case (bytes json json_len, bytes key key_len) of
             (Some t, Some k) \<Rightarrow>
               (case json_get_int t k of
                  Exit1 \<Rightarrow> Exits
                | Undefined \<Rightarrow> Stuck
                | IntValue n \<Rightarrow> Returns (HInt (word_of_int n)) m)
           | _ \<Rightarrow> Stuck)
      | _ \<Rightarrow> Stuck)"

definition call_bracket :: "(out \<Rightarrow> out option) \<Rightarrow> hval list \<Rightarrow> hstate \<Rightarrow> call_result" where
  "call_bracket op args m =
     (case args of
        [HBuffer, HInt pos] \<Rightarrow> write_result m (op (h_buffer m, unat pos))
      | _ \<Rightarrow> Stuck)"

definition call_write_str :: "hval list \<Rightarrow> hstate \<Rightarrow> call_result" where
  "call_write_str args m =
     (case args of
        [HBuffer, HInt pos, HBytes key, HInt key_len, HBytes v, HInt v_len] \<Rightarrow>
          (case (bytes key key_len, bytes v v_len) of
             (Some k, Some x) \<Rightarrow> write_result m (json_write_str k x (h_buffer m, unat pos))
           | _ \<Rightarrow> Stuck)
      | _ \<Rightarrow> Stuck)"

definition call_write_int :: "hval list \<Rightarrow> hstate \<Rightarrow> call_result" where
  "call_write_int args m =
     (case args of
        [HBuffer, HInt pos, HBytes key, HInt key_len, HInt v] \<Rightarrow>
          (case bytes key key_len of
             Some k \<Rightarrow> write_result m (json_write_int k (sint v) (h_buffer m, unat pos))
           | None \<Rightarrow> Stuck)
      | _ \<Rightarrow> Stuck)"

definition call_user :: "henv \<Rightarrow> hval list \<Rightarrow> hstate \<Rightarrow> call_result" where
  "call_user E args m =
     (case args of
        [x] \<Rightarrow>
          (case e_user E x (h_heap m) of
             None \<Rightarrow> Stuck
           | Some (r, h) \<Rightarrow> Returns r (m\<lparr>h_heap := h\<rparr>))
      | _ \<Rightarrow> Stuck)"

text \<open>A call of the user's function, or of a C function.\<close>

definition call_fun :: "henv \<Rightarrow> string \<Rightarrow> hval list \<Rightarrow> hstate \<Rightarrow> call_result" where
  "call_fun E f args m =
     (if f = ''handle'' then call_user E args m
      else if f = ''lambpie_arena_alloc'' then call_alloc args m
      else if f = ''json_get_str'' then call_get_str args m
      else if f = ''json_get_int'' then call_get_int args m
      else if f = ''json_open'' then call_bracket json_open args m
      else if f = ''json_write_str'' then call_write_str args m
      else if f = ''json_write_int'' then call_write_int args m
      else if f = ''json_close'' then call_bracket json_close args m
      else Stuck)"

fun all_values :: "henv \<Rightarrow> hstate \<Rightarrow> obj list \<Rightarrow> hval list option" where
  "all_values E m [] = Some []"
| "all_values E m (v # vs) =
     (case hvalue E m v of None \<Rightarrow> None | Some x \<Rightarrow> map_option ((#) x) (all_values E m vs))"

section \<open>The instructions\<close>

type_synonym hsem = "henv \<Rightarrow> nat \<Rightarrow> instr \<Rightarrow> hstate \<Rightarrow> hstate option"

definition langmem :: "hsem \<Rightarrow> bool" where
  "langmem X \<longleftrightarrow>
     (\<forall>E k t m. X E k (Alloca t) m =
        Some (set_hreg k (HField (snd (h_heap m)) 0) (m\<lparr>h_heap := new_object (h_heap m)\<rparr>))) \<and>
     (\<forall>E k m v p x a j. hvalue E m v = Some x \<longrightarrow> hvalue E m p = Some (HField a j) \<longrightarrow>
        X E k (Store v p) m = Some (m\<lparr>h_heap := write_heap a j x (h_heap m)\<rparr>)) \<and>
     (\<forall>E k m p x a j. hvalue E m p = Some (HField a j) \<longrightarrow> fst (h_heap m) a j = Some x \<longrightarrow>
        X E k (Load p) m = Some (set_hreg k x m)) \<and>
     (\<forall>E k m p a j. hvalue E m p = Some (HObj a) \<longrightarrow>
        X E k (Gep p [i32c 0, i32c j] True) m = Some (set_hreg k (HField a j) m)) \<and>
     (\<forall>E k m t. X E k (Gep (OVal (NullV t)) [i32c 1] False) m = Some (set_hreg k (HSize t) m)) \<and>
     (\<forall>E k m p t u. hvalue E m p = Some (HSize t) \<longrightarrow>
        (\<exists>w. X E k (PtrToInt p u) m = Some (set_hreg k (HInt w) m))) \<and>
     (\<forall>E k m p x t. hvalue E m p = Some x \<longrightarrow> X E k (Bitcast p t) m = Some (set_hreg k x m))"

lemma langmemD:
  assumes "langmem X"
  shows "X E k (Alloca t) m = Some (set_hreg k (HField (snd (h_heap m)) 0) (m\<lparr>h_heap := new_object (h_heap m)\<rparr>))"
    and "hvalue E m v = Some x \<Longrightarrow> hvalue E m p = Some (HField a j) \<Longrightarrow>
        X E k (Store v p) m = Some (m\<lparr>h_heap := write_heap a j x (h_heap m)\<rparr>)"
    and "hvalue E m p = Some (HField a j) \<Longrightarrow> fst (h_heap m) a j = Some x \<Longrightarrow>
        X E k (Load p) m = Some (set_hreg k x m)"
    and "hvalue E m p = Some (HObj a) \<Longrightarrow>
        X E k (Gep p [i32c 0, i32c j] True) m = Some (set_hreg k (HField a j) m)"
    and "X E k (Gep (OVal (NullV t)) [i32c 1] False) m = Some (set_hreg k (HSize t) m)"
    and "hvalue E m p = Some (HSize t) \<Longrightarrow> \<exists>w. X E k (PtrToInt p u) m = Some (set_hreg k (HInt w) m)"
    and "hvalue E m p = Some x \<Longrightarrow> X E k (Bitcast p t) m = Some (set_hreg k x m)"
  using assms unfolding langmem_def by simp_all

text \<open>An instance.\<close>

definition std_hsem :: hsem where
  "std_hsem E k i m =
     (case i of
        Alloca t \<Rightarrow> Some (set_hreg k (HField (snd (h_heap m)) 0) (m\<lparr>h_heap := new_object (h_heap m)\<rparr>))
      | Store v p \<Rightarrow>
          (case (hvalue E m v, hvalue E m p) of
             (Some x, Some (HField a j)) \<Rightarrow> Some (m\<lparr>h_heap := write_heap a j x (h_heap m)\<rparr>)
           | _ \<Rightarrow> None)
      | Load p \<Rightarrow>
          (case hvalue E m p of
             Some (HField a j) \<Rightarrow> map_option (\<lambda>x. set_hreg k x m) (fst (h_heap m) a j)
           | _ \<Rightarrow> None)
      | Gep p ixs inb \<Rightarrow>
          (case (p, ixs) of
             (OVal (NullV t), [_]) \<Rightarrow> Some (set_hreg k (HSize t) m)
           | (_, [_, OVal (ConstV t (CInt n))]) \<Rightarrow>
               (case hvalue E m p of Some (HObj a) \<Rightarrow> Some (set_hreg k (HField a (nat n)) m) | _ \<Rightarrow> None)
           | _ \<Rightarrow> None)
      | PtrToInt p u \<Rightarrow>
          (case hvalue E m p of Some (HSize t) \<Rightarrow> Some (set_hreg k (HInt 8) m) | _ \<Rightarrow> None)
      | Bitcast p t \<Rightarrow> map_option (\<lambda>x. set_hreg k x m) (hvalue E m p)
      | _ \<Rightarrow> None)"

lemma std_langmem: "langmem std_hsem"
  unfolding langmem_def
  by (auto simp: std_hsem_def split: obj.splits val.splits)

text \<open>A block that ends with a return.\<close>

fun hrun :: "hsem \<Rightarrow> henv \<Rightarrow> (nat \<times> instr) list \<Rightarrow> hstate \<Rightarrow> call_result" where
  "hrun X E [] m = Stuck"
| "hrun X E ((k, i) # is) m =
     (case i of
        Ret v \<Rightarrow> (case hvalue E m v of None \<Rightarrow> Stuck | Some x \<Rightarrow> Returns x m)
      | CallI (OVal (FuncV f t)) args \<Rightarrow>
          (case all_values E m args of
             None \<Rightarrow> Stuck
           | Some xs \<Rightarrow>
               (case call_fun E f xs m of
                  Returns x m' \<Rightarrow> hrun X E is (set_hreg k x m')
                | Exits \<Rightarrow> Exits
                | Stuck \<Rightarrow> Stuck))
      | CallI _ args \<Rightarrow> Stuck
      | _ \<Rightarrow> (case X E k i m of None \<Rightarrow> Stuck | Some m' \<Rightarrow> hrun X E is m'))"

end
