(* ===== verification/JsonRuntimeProps.thy ===== *)
theory JsonRuntimeProps
  imports JsonRuntime Json
begin

text \<open>
  What the JSON functions of the C runtime promise: the text a response consists of and the buffer it
  needs, reading back what was written, and the keys that a string value can hide.
\<close>

section \<open>Writing\<close>

text \<open>An operation that writes the text \<open>t\<close> at the position, when it fits, and is undefined
  otherwise.\<close>

definition appends :: "(out \<Rightarrow> out option) \<Rightarrow> string \<Rightarrow> nat \<Rightarrow> bool" where
  "appends op t pos \<longleftrightarrow>
     (\<forall>buf. pos \<le> length buf \<longrightarrow> op (buf, pos) =
        (if pos + length t \<le> length buf then Some (take pos buf @ t @ drop (pos + length t) buf, pos + length t)
         else None))"

lemma appends_put: "appends (put c) [c] pos"
  by (auto simp: appends_def put_def upd_conv_take_nth_drop Suc_le_eq)

lemma appends_bind:
  assumes "appends f s pos" and "appends g t (pos + length s)"
  shows "appends (\<lambda>b. Option.bind (f b) g) (s @ t) pos"
  unfolding appends_def
proof (intro allI impI)
  fix buf :: string
  assume "pos \<le> length buf"
  let ?buf = "take pos buf @ s @ drop (pos + length s) buf"
  show "Option.bind (f (buf, pos)) g =
      (if pos + length (s @ t) \<le> length buf
       then Some (take pos buf @ (s @ t) @ drop (pos + length (s @ t)) buf, pos + length (s @ t)) else None)"
  proof (cases "pos + length s \<le> length buf")
    case True
    then have len: "length ?buf = length buf" by simp
    have f: "f (buf, pos) = Some (?buf, pos + length s)" using assms(1) True by (simp add: appends_def)
    have g: "g (b, p) = (if p + length t \<le> length b then Some (take p b @ t @ drop (p + length t) b, p + length t) else None)"
      if "p = pos + length s" "p \<le> length b" for b p
      using assms(2) that unfolding appends_def by blast
    have td: "take (pos + length s) ?buf = take pos buf @ s"
      "drop (pos + length s + length t) ?buf = drop (pos + length (s @ t)) buf"
      using True by (simp_all add: ac_simps)
    show ?thesis
      unfolding f Option.bind.simps g [OF refl, of ?buf, unfolded len, OF True] td by (simp add: add.assoc)
  next
    case False
    then show ?thesis using assms(1) \<open>pos \<le> length buf\<close> by (simp add: appends_def)
  qed
qed

lemma appends_none: "appends Some [] pos"
  by (simp add: appends_def)

lemma appends_put_all: "appends (put_all s) s pos"
proof (induction s arbitrary: pos)
  case Nil
  then show ?case by (simp add: appends_def)
next
  case (Cons c s)
  have "appends (\<lambda>b. Option.bind (put c b) (put_all s)) ([c] @ s) pos"
    by (rule appends_bind [OF appends_put]) (rule Cons)
  then show ?case by (simp add: appends_def)
qed

text \<open>The text of a field, after a comma unless it is the first.\<close>

fun value_text :: "field_value \<Rightarrow> string" where
  "value_text (StrField v) = quote # v @ [quote]"
| "value_text (IntField n) = int_str n"

definition field_text :: "string \<times> field_value \<Rightarrow> string" where
  "field_text f = quote # fst f @ quote # CHR '':'' # value_text (snd f)"

fun fields_text :: "(string \<times> field_value) list \<Rightarrow> string" where
  "fields_text [] = []"
| "fields_text [f] = field_text f"
| "fields_text (f # fs) = field_text f @ CHR '','' # fields_text fs"

definition response_text :: "(string \<times> field_value) list \<Rightarrow> string" where
  "response_text fs = CHR ''{'' # fields_text fs @ ''}''"

text \<open>The temporary buffer of 20 digits is big enough for every 64-bit value, and holds the
  decimal numeral reversed.\<close>

lemma tmp_digits_eq:
  "n < 10 ^ (20 - length tmp) \<Longrightarrow> length tmp \<le> 20 \<Longrightarrow>
    tmp_digits tmp n = Some (tmp @ (if n = 0 then [] else rev (nat_str n)))"
proof (induction tmp n rule: tmp_digits.induct)
  case (1 tmp n)
  show ?case
  proof (cases "n = 0")
    case True
    then show ?thesis by (simp add: tmp_digits.simps)
  next
    case False
    then have len: "length tmp < 20" using "1.prems" by (cases "length tmp = 20") auto
    have "10 ^ (20 - length tmp) = 10 * (10 :: nat) ^ (20 - Suc (length tmp))"
      using len by (simp flip: power_Suc add: Suc_diff_Suc)
    then have "n div 10 < 10 ^ (20 - Suc (length tmp))"
      using "1.prems"(1) by (simp add: less_mult_imp_div_less mult.commute)
    then have "tmp_digits (tmp @ [char_of (48 + n mod 10)]) (n div 10) =
        Some ((tmp @ [char_of (48 + n mod 10)]) @ (if n div 10 = 0 then [] else rev (nat_str (n div 10))))"
      using 1(1) False len by simp
    moreover have "rev (nat_str n) = char_of (48 + n mod 10) # (if n div 10 = 0 then [] else rev (nat_str (n div 10)))"
      by (subst nat_str.simps) auto
    ultimately show ?thesis using False len by (subst tmp_digits.simps) simp
  qed
qed

lemma nat_str_0: "nat_str 0 = ''0''"
  by code_simp

lemma appends_key:
  "appends (put_key key) ((if 1 < pos then '','' else []) @ quote # key @ [quote, CHR '':'']) pos"
proof -
  have comma: "appends put_comma (if 1 < pos then '','' else []) pos"
    using appends_put [of "CHR '',''" pos] by (auto simp: appends_def put_comma_def)
  have "appends (put_key key) ((if 1 < pos then '','' else []) @ [quote] @ key @ [quote] @ '':'') pos"
    unfolding put_key_def
    by (intro appends_bind appends_put_all appends_put comma)
  then show ?thesis by simp
qed

lemma appends_value:
  assumes "case snd f of StrField v \<Rightarrow> True | IntField n \<Rightarrow> int64 n"
  shows "appends (write_value f) ((if 1 < pos then '','' else []) @ field_text f) pos"
proof (cases f)
  case (Pair key v)
  let ?k = "(if 1 < pos then '','' else []) @ quote # key @ [quote, CHR '':'']"
  show ?thesis
  proof (cases v)
    case (StrField s)
    have "appends (json_write_str key s) (?k @ [quote] @ s @ [quote]) pos"
      unfolding json_write_str_def by (intro appends_bind appends_key appends_put appends_put_all)
    then show ?thesis by (simp add: Pair StrField field_text_def)
  next
    case (IntField n)
    have n: "int64 n" using assms by (simp add: Pair IntField)
    have "appends (\<lambda>b. if n = 0 then put CHR ''0'' b
       else if n < 0 then
         Option.bind (put CHR ''-'' b) (\<lambda>b.
           Option.bind (tmp_digits [] (nat (- n))) (\<lambda>tmp. put_all (rev tmp) b))
       else Option.bind (tmp_digits [] (nat n)) (\<lambda>tmp. put_all (rev tmp) b)) (int_str n) p" for p
    proof (cases "n = 0")
      case True
      then show ?thesis using appends_put by (simp add: int_str_def nat_str_0)
    next
      case False
      have tmp: "tmp_digits [] (nat \<bar>n\<bar>) = Some (rev (nat_str (nat \<bar>n\<bar>)))"
        using tmp_digits_eq [of "nat \<bar>n\<bar>" "[]"] n False by (auto simp: int64_def)
      show ?thesis
      proof (cases "n < 0")
        case True
        have "appends (\<lambda>b. Option.bind (put CHR ''-'' b) (put_all (nat_str (nat (- n))))) (''-'' @ nat_str (nat (- n))) p"
          by (intro appends_bind appends_put appends_put_all)
        then show ?thesis using tmp True by (simp add: int_str_def)
      next
        case False
        then show ?thesis using tmp \<open>n \<noteq> 0\<close> appends_put_all by (simp add: int_str_def)
      qed
    qed
    then have "appends (json_write_int key n) (?k @ int_str n) pos"
      unfolding json_write_int_def by (intro appends_bind appends_key)
    then show ?thesis by (simp add: Pair IntField field_text_def)
  qed
qed

lemma write_values_Nil: "write_values [] = Some"
  by (simp add: fun_eq_iff)

lemma write_values_Cons: "write_values (f # fs) = (\<lambda>b. Option.bind (write_value f b) (write_values fs))"
  by (simp add: fun_eq_iff)

lemma appends_values:
  "list_all (\<lambda>f. case snd f of StrField v \<Rightarrow> True | IntField n \<Rightarrow> int64 n) fs \<Longrightarrow> fs \<noteq> [] \<Longrightarrow>
    appends (write_values fs) ((if 1 < pos then '','' else []) @ fields_text fs) pos"
proof (induction fs arbitrary: pos rule: fields_text.induct)
  case (2 f)
  have "write_values [f] = write_value f" by (simp add: fun_eq_iff write_values_Nil bind_rzero split: option.split)
  then show ?case using appends_value [of f pos] 2 by simp
next
  case (3 f f' fs)
  let ?c = "if 1 < pos then '','' else []"
  let ?pos = "pos + length (?c @ field_text f)"
  have "1 < ?pos" by (simp add: field_text_def)
  moreover have "appends (write_values (f' # fs)) ((if 1 < ?pos then '','' else []) @ fields_text (f' # fs)) ?pos"
    by (rule "3.IH") (use "3.prems" in simp_all)
  ultimately have "appends (write_values (f' # fs)) ('','' @ fields_text (f' # fs)) ?pos" by simp
  moreover have "appends (write_value f) (?c @ field_text f) pos" by (rule appends_value) (use "3.prems" in simp)
  ultimately have "appends (write_values (f # f' # fs)) ((?c @ field_text f) @ '','' @ fields_text (f' # fs)) pos"
    unfolding write_values_Cons [of f] by (intro appends_bind)
  then show ?case by (simp del: write_values.simps)
qed simp

lemma appends_response:
  assumes "list_all (\<lambda>f. case snd f of StrField v \<Rightarrow> True | IntField n \<Rightarrow> int64 n) fs"
  shows "appends (\<lambda>b. Option.bind (json_open b) (\<lambda>b. Option.bind (write_values fs b) json_close)) (response_text fs) 0"
proof -
  have "appends (write_values fs) (fields_text fs) (0 + length ''{'')"
    using appends_values [OF assms, of 1] appends_none by (cases fs) (simp_all add: write_values_Nil)
  then have "appends (\<lambda>b. Option.bind (put CHR ''{'' b) (\<lambda>b. Option.bind (write_values fs b) (put CHR ''}'')))
      (''{'' @ (fields_text fs @ ''}'')) 0"
    by (intro appends_bind appends_put)
  then show ?thesis by (simp add: json_open_def json_close_def response_text_def)
qed

section \<open>Finding a key\<close>

text \<open>The first place where the key stands between quotes, by recursion on the text.\<close>

fun key_at :: "string \<Rightarrow> string \<Rightarrow> nat option" where
  "key_at key [] = None"
| "key_at key (c # xs) =
     (if c = quote \<and> length key < length xs \<and> take (length key) xs = key \<and> xs ! length key = quote then Some 0
      else map_option Suc (key_at key xs))"

lemma key_at_short: "length xs \<le> length key + 1 \<Longrightarrow> key_at key xs = None"
  by (induction xs) auto

lemma find_key_from_eq:
  "i \<le> length json \<Longrightarrow> find_key_from json key i = (case key_at key (drop i json) of None \<Rightarrow> length json | Some d \<Rightarrow> i + d)"
proof (induction json key i rule: find_key_from.induct)
  case (1 json key i)
  show ?case
  proof (cases "i + length key + 1 < length json")
    case True
    then have d: "drop i json = json ! i # drop (Suc i) json" by (simp add: Cons_nth_drop_Suc)
    have nth: "drop (Suc i) json ! length key = json ! (i + 1 + length key)" using True by (simp add: ac_simps)
    show ?thesis
      using 1 True by (subst find_key_from.simps) (auto simp: d nth split: option.splits)
  next
    case False
    then show ?thesis using key_at_short [of "drop i json" key] by (subst find_key_from.simps) auto
  qed
qed

lemma find_key_eq:
  "key \<noteq> [] \<Longrightarrow> find_key json key = (case key_at key json of None \<Rightarrow> length json | Some d \<Rightarrow> d)"
  using find_key_from_eq [of 0 json key] key_at_short [of json key] by (auto simp: find_key_def split: option.splits)

lemma key_at_plain: "quote \<notin> set s \<Longrightarrow> key_at key (s @ xs) = map_option ((+) (length s)) (key_at key xs)"
proof (induction s)
  case Nil
  then show ?case by (cases "key_at key xs") simp_all
next
  case (Cons c s)
  then have "c \<noteq> quote" by auto
  then show ?case using Cons by (simp add: option.map_comp comp_def)
qed

text \<open>A quoted piece of text is the key, or is skipped up to its closing quote.\<close>

lemma key_at_quoted:
  assumes "quote \<notin> set s" and "quote \<notin> set key"
  shows "key_at key (quote # s @ quote # xs) =
    (if s = key then Some 0 else map_option (\<lambda>d. Suc (length s) + d) (key_at key (quote # xs)))"
proof -
  have "s = key" if "length key < length (s @ quote # xs)" "take (length key) (s @ quote # xs) = key"
    "(s @ quote # xs) ! length key = quote"
  proof -
    have "length key \<le> length s"
    proof (rule ccontr)
      assume "\<not> length key \<le> length s"
      then have "quote \<in> set (take (length key) (s @ quote # xs))"
        by (cases "length key - length s") auto
      then show False using that(2) assms(2) by metis
    qed
    moreover have "\<not> length key < length s"
      using that(3) assms(1) by (auto simp: nth_append dest: nth_mem split: if_splits)
    ultimately show ?thesis using that(2) by simp
  qed
  moreover have "key_at key (s @ quote # xs) = map_option ((+) (length s)) (key_at key (quote # xs))"
    by (rule key_at_plain [OF assms(1)])
  ultimately show ?thesis by (auto simp: option.map_comp comp_def simp del: key_at.simps) (auto simp: option.map_comp comp_def)
qed

declare key_at.simps [simp del]

text \<open>A field name: not empty, no quote, and not starting with a colon or a comma.\<close>

definition plain_name :: "string \<Rightarrow> bool" where
  "plain_name k \<longleftrightarrow> k \<noteq> [] \<and> quote \<notin> set k \<and> hd k \<noteq> CHR '':'' \<and> hd k \<noteq> CHR '',''"

definition plain_field :: "string \<Rightarrow> string \<times> field_value \<Rightarrow> bool" where
  "plain_field key f \<longleftrightarrow>
     quote \<notin> set (fst f) \<and> (case snd f of StrField v \<Rightarrow> quote \<notin> set v \<and> v \<noteq> key | IntField n \<Rightarrow> True)"

lemma nat_str_digits: "c \<in> set (nat_str n) \<Longrightarrow> is_digit c"
proof (induction n rule: nat_str.induct)
  case (1 n)
  have dig: "is_digit (char_of (48 + d))" if "d < 10" for d :: nat
  proof -
    have "d \<in> {0, 1, 2, 3, 4, 5, 6, 7, 8, 9}" using that by auto
    then show ?thesis by (elim insertE) (simp_all add: is_digit_def less_eq_char_def)
  qed
  show ?case using 1 dig by (subst (asm) nat_str.simps) (auto split: if_splits)
qed

lemma int_str_plain: "quote \<notin> set (int_str n)"
proof -
  have "\<not> is_digit quote" by (simp add: is_digit_def less_eq_char_def)
  then have "quote \<notin> set (nat_str m)" for m using nat_str_digits by blast
  then show ?thesis by (simp add: int_str_def)
qed

lemma fields_text_Cons: "fs \<noteq> [] \<Longrightarrow> fields_text (f # fs) = field_text f @ CHR '','' # fields_text fs"
  by (cases fs) simp_all

lemma fields_text_quote: "fs \<noteq> [] \<Longrightarrow> \<exists>t. fields_text fs @ u = quote # t"
  by (cases fs rule: fields_text.cases) (simp_all add: field_text_def)

text \<open>A field with another name is skipped.\<close>

lemma key_at_skip:
  assumes "plain_name key" and "plain_field key f" and "fst f \<noteq> key"
  shows "key_at key (field_text f @ CHR '','' # quote # t) =
    map_option ((+) (Suc (length (field_text f)))) (key_at key (quote # t))"
proof -
  have key: "quote \<notin> set key" "'':'' \<noteq> key" "'','' \<noteq> key" "\<And>xs. CHR '':'' # xs \<noteq> key"
    using assms(1) by (auto simp: plain_name_def)
  have f: "quote \<notin> set (fst f)" using assms(2) by (simp add: plain_field_def)
  show ?thesis
  proof (cases "snd f")
    case (StrField v)
    then have v: "quote \<notin> set v" "v \<noteq> key" using assms(2) by (simp_all add: plain_field_def)
    have "key_at key (quote # fst f @ quote # '':'' @ quote # v @ quote # '','' @ quote # t) =
        map_option ((+) (Suc (length (field_text f)))) (key_at key (quote # t))"
      using key_at_quoted [OF f key(1)] key_at_quoted [OF _ key(1), of "'':''"] key_at_quoted [OF v(1) key(1)]
        key_at_quoted [OF _ key(1), of "'',''"] assms(3) v(2) key(2,3)
      by (simp del: key_at.simps append_Cons append_Nil add: option.map_comp comp_def field_text_def StrField) (cases "key_at key (quote # t)"; simp add: ac_simps)
    then show ?thesis by (simp add: field_text_def StrField del: key_at.simps)
  next
    case (IntField n)
    have n: "quote \<notin> set (CHR '':'' # int_str n @ '','')" using int_str_plain by simp
    have "key_at key (quote # fst f @ quote # (CHR '':'' # int_str n @ '','') @ quote # t) =
        map_option ((+) (Suc (length (field_text f)))) (key_at key (quote # t))"
      using key_at_quoted [OF f key(1)] key_at_quoted [OF n key(1)] assms(3) key(4)
      by (simp del: key_at.simps append_Cons append_Nil append_assoc add: option.map_comp comp_def field_text_def IntField) (cases "key_at key (quote # t)"; simp add: ac_simps)
    then show ?thesis by (simp add: field_text_def IntField del: key_at.simps)
  qed
qed

lemma key_at_field:
  assumes "plain_name key" and "list_all (plain_field key) fs1" and "key \<notin> fst ` set fs1"
  shows "\<exists>pre c post. fields_text (fs1 @ (key, v) # fs2) @ ''}'' = pre @ quote # key @ quote # CHR '':'' # value_text v @ c # post \<and>
    (c = CHR '','' \<or> c = CHR ''}'') \<and> key_at key (fields_text (fs1 @ (key, v) # fs2) @ ''}'') = Some (length pre)"
  using assms(2,3)
proof (induction fs1)
  case Nil
  have "quote \<notin> set key" using assms(1) by (simp add: plain_name_def)
  then have at: "key_at key (quote # key @ quote # t) = Some 0" for t
    using key_at_quoted [of key key] by simp
  obtain c post where c: "fields_text ((key, v) # fs2) @ ''}'' = field_text (key, v) @ c # post" "c = CHR '','' \<or> c = CHR ''}''"
    by (cases fs2) auto
  show ?case
    using at c(2) by (intro exI [of _ "[]"] exI [of _ c] exI [of _ post]) (simp add: c(1) field_text_def)
next
  case (Cons f fs1)
  let ?fs = "fs1 @ (key, v) # fs2"
  obtain t where t: "fields_text ?fs @ ''}'' = quote # t" using fields_text_quote [of ?fs] by auto
  obtain pre c post where IH: "fields_text ?fs @ ''}'' = pre @ quote # key @ quote # CHR '':'' # value_text v @ c # post"
    "c = CHR '','' \<or> c = CHR ''}''" "key_at key (fields_text ?fs @ ''}'') = Some (length pre)"
    using Cons by auto
  have "fields_text (f # ?fs) @ ''}'' = field_text f @ CHR '','' # fields_text ?fs @ ''}''"
    by (simp add: fields_text_Cons)
  moreover have "key_at key (field_text f @ CHR '','' # quote # t) = Some (Suc (length (field_text f)) + length pre)"
    using key_at_skip [OF assms(1), of f t] Cons.prems IH(3) t by auto
  ultimately show ?case
    using IH(1,2) t by (intro exI [of _ "field_text f @ CHR '','' # pre"] exI [of _ c] exI [of _ post]) simp
qed

section \<open>Reading a value\<close>

lemma skip_ws_stop: "pos < length json \<Longrightarrow> \<not> is_ws (json ! pos) \<Longrightarrow> skip_ws json pos = pos"
  by (subst skip_ws.simps) simp

lemma nth_after: "(xs @ ys) ! (length xs + n) = ys ! n"
  by (simp add: nth_append)

lemma drop_prefix: "drop (length xs) (xs @ ys) = ys"
  by simp

lemma scan_quote_plain:
  "quote \<notin> set v \<Longrightarrow> json = pre @ v @ quote # post \<Longrightarrow> scan_quote json (length pre) = length pre + length v"
proof (induction v arbitrary: pre)
  case Nil
  then show ?case by (subst scan_quote.simps) simp
next
  case (Cons c v)
  have "scan_quote json (length pre) = scan_quote json (Suc (length pre))"
    using Cons.prems by (subst scan_quote.simps) auto
  then show ?case using Cons.IH [of "pre @ [c]"] Cons.prems by simp
qed

text \<open>Reading a decimal numeral back, up to a character that is no digit.\<close>

lemma read_digits_digit:
  assumes "d < 10" and "json = pre @ char_of (48 + d) # post" and "int64 (acc * 10)" and "int64 (acc * 10 + int d)"
  shows "read_digits json (length pre) acc = read_digits json (Suc (length pre)) (acc * 10 + int d)"
proof -
  have "is_digit (char_of (48 + d)) \<and> digit_value (char_of (48 + d)) = int d"
  proof -
    have "d \<in> {0, 1, 2, 3, 4, 5, 6, 7, 8, 9}" using assms(1) by auto
    then show ?thesis by (elim insertE) (simp_all add: is_digit_def digit_value_def less_eq_char_def)
  qed
  then show ?thesis using assms by (subst read_digits.simps) simp
qed

lemma read_digits_numeral:
  "json = pre @ nat_str n @ post \<Longrightarrow> int64 (int n) \<Longrightarrow>
    read_digits json (length pre) 0 = read_digits json (length pre + length (nat_str n)) (int n)"
proof (induction n arbitrary: post rule: nat_str.induct)
  case (1 n)
  show ?case
  proof (cases "n < 10")
    case True
    then have s: "nat_str n = [char_of (48 + n)]" by (subst nat_str.simps) simp
    show ?thesis
      using read_digits_digit [of n json pre post 0] True "1.prems" by (simp add: s int64_def)
  next
    case False
    let ?d = "n mod 10" and ?q = "n div 10"
    have s: "nat_str n = nat_str ?q @ [char_of (48 + ?d)]" using False by (subst nat_str.simps) simp
    have q: "int ?q * 10 + int ?d = int n" by (simp add: zdiv_int zmod_int)
    have "int64 (int ?q)" "int64 (int ?q * 10)" using "1.prems"(2) q by (auto simp: int64_def)
    then have "read_digits json (length pre) 0 = read_digits json (length pre + length (nat_str ?q)) (int ?q)"
      using "1.IH" [of "char_of (48 + ?d) # post"] "1.prems"(1) False by (simp add: s)
    also have "\<dots> = read_digits json (Suc (length pre + length (nat_str ?q))) (int n)"
      using read_digits_digit [of ?d json "pre @ nat_str ?q" post "int ?q"] \<open>int64 (int ?q * 10)\<close> q "1.prems"
      by (simp add: s)
    finally show ?thesis by (simp add: s)
  qed
qed

lemma read_digits_stop:
  "json = pre @ c # post \<Longrightarrow> \<not> is_digit c \<Longrightarrow> read_digits json (length pre) acc = Some acc"
  by (subst read_digits.simps) simp

section \<open>Round trip\<close>

definition plain_response :: "(string \<times> field_value) list \<Rightarrow> bool" where
  "plain_response fs \<longleftrightarrow>
     distinct (map fst fs) \<and> list_all (\<lambda>f. plain_name (fst f)) fs \<and>
     (\<forall>f \<in> set fs. case snd f of
        StrField v \<Rightarrow> quote \<notin> set v \<and> v \<notin> fst ` set fs
      | IntField n \<Rightarrow> - (2 ^ 63) < n \<and> n < 2 ^ 63)"

lemma plain_response_split:
  assumes "plain_response (fs1 @ (key, v) # fs2)"
  shows "plain_name key" "list_all (plain_field key) fs1" "key \<notin> fst ` set fs1"
proof -
  show "plain_name key" "key \<notin> fst ` set fs1" using assms by (auto simp: plain_response_def)
  show "list_all (plain_field key) fs1"
    unfolding list_all_iff
  proof
    fix f assume f: "f \<in> set fs1"
    then have "plain_name (fst f)" using assms by (auto simp: plain_response_def list_all_iff)
    moreover have "case snd f of StrField v' \<Rightarrow> quote \<notin> set v' \<and> v' \<noteq> key | IntField n \<Rightarrow> True"
      using assms f by (auto simp: plain_response_def split: field_value.splits)
    ultimately show "plain_field key f" by (simp add: plain_field_def plain_name_def)
  qed
qed

text \<open>The text around the value of a field, and where the reader arrives.\<close>

lemma response_position:
  assumes "plain_response fs" and "(key, v) \<in> set fs"
  obtains pre c post where
    "response_text fs = pre @ quote # key @ quote # CHR '':'' # value_text v @ c # post"
    "c = CHR '','' \<or> c = CHR ''}''" "find_key (response_text fs) key = length pre"
proof -
  obtain fs1 fs2 where fs: "fs = fs1 @ (key, v) # fs2" using assms(2) by (meson split_list)
  note split = plain_response_split [OF assms(1) [unfolded fs]]
  obtain pre c post where at: "fields_text fs @ ''}'' = pre @ quote # key @ quote # CHR '':'' # value_text v @ c # post"
    "c = CHR '','' \<or> c = CHR ''}''" "key_at key (fields_text fs @ ''}'') = Some (length pre)"
    using key_at_field [OF split, of v fs2] unfolding fs by blast
  have "key_at key (''{'' @ fields_text fs @ ''}'') = Some (length (CHR ''{'' # pre))"
    using key_at_plain [of "''{''" key] at(3) by simp
  then have "find_key (response_text fs) key = length (CHR ''{'' # pre)"
    using split(1) find_key_eq [of key "response_text fs"] by (simp add: response_text_def plain_name_def)
  then show thesis using that [of "CHR ''{'' # pre" c post] at(1,2) by (simp add: response_text_def)
qed

lemma json_get_str_written:
  assumes "plain_response fs" and "(key, StrField v) \<in> set fs"
  shows "\<exists>p. json_get_str (response_text fs) key = Some (p, length v) \<and> take (length v) (drop p (response_text fs)) = v"
proof -
  obtain pre c post where at: "response_text fs = pre @ quote # key @ quote # CHR '':'' # value_text (StrField v) @ c # post"
    "find_key (response_text fs) key = length pre"
    using response_position [OF assms] by metis
  let ?json = "response_text fs" and ?pre = "pre @ quote # key @ [quote]"
  have v: "quote \<notin> set v" using assms by (auto simp: plain_response_def)
  have json: "?json = ?pre @ CHR '':'' # quote # v @ quote # c # post" using at(1) by simp
  have nth: "?json ! length ?pre = CHR '':''" "?json ! (length ?pre + 1) = quote"
    unfolding json by (simp_all only: nth_append_length nth_after) simp
  have len: "length ?pre + 1 < length ?json" "length ?pre + 2 + length v < length ?json" "length pre < length ?json"
    by (simp_all add: json)
  have ws: "skip_ws ?json (length pre + 1 + length key + 1) = length ?pre" "skip_ws ?json (length ?pre + 1) = length ?pre + 1"
    using skip_ws_stop [of "length ?pre" ?json] skip_ws_stop [of "length ?pre + 1" ?json] nth len
    by (simp_all add: is_ws_def)
  have scan: "scan_quote ?json (length ?pre + 2) = length ?pre + 2 + length v"
    using scan_quote_plain [OF v, of ?json "?pre @ [CHR '':'', quote]" "c # post"] json by simp
  have "json_get_str ?json key = Some (length ?pre + 2, length v)"
    unfolding json_get_str_def at(2) Let_def ws using len nth scan by (simp add: numeral_2_eq_2)
  moreover have "take (length v) (drop (length (?pre @ [CHR '':'', quote])) ?json) = v"
  proof -
    have "?json = (?pre @ [CHR '':'', quote]) @ v @ quote # c # post" using json by simp
    then show ?thesis by (simp only: drop_prefix) simp
  qed
  ultimately show ?thesis by (intro exI [of _ "length ?pre + 2"]) simp
qed

lemma json_get_int_written:
  assumes "plain_response fs" and "(key, IntField n) \<in> set fs"
  shows "json_get_int (response_text fs) key = IntValue n"
proof -
  obtain pre c post where at: "response_text fs = pre @ quote # key @ quote # CHR '':'' # value_text (IntField n) @ c # post"
    "c = CHR '','' \<or> c = CHR ''}''" "find_key (response_text fs) key = length pre"
    using response_position [OF assms] by metis
  let ?json = "response_text fs" and ?pre = "pre @ quote # key @ [quote, CHR '':'']"
  have n: "- (2 ^ 63) < n" "n < 2 ^ 63" using assms by (auto simp: plain_response_def)
  have json: "?json = ?pre @ int_str n @ c # post" using at(1) by simp
  have colon: "?json ! (length pre + 1 + length key + 1) = CHR '':''"
    using nth_append_length [of "pre @ quote # key @ [quote]" "CHR '':''" "int_str n @ c # post"] by (simp add: json)
  have len: "length ?pre < length ?json" "length pre + 1 + length key + 1 < length ?json" "length pre < length ?json"
    by (simp_all add: json)
  have stop: "\<not> is_digit c" using at(2) by (auto simp: is_digit_def less_eq_char_def)
  have digit: "is_digit (hd (nat_str m)) \<and> nat_str m = hd (nat_str m) # tl (nat_str m)" for m
    using nat_str_digits [of "hd (nat_str m)" m] nat_str_nonempty [of m] by (cases "nat_str m") auto
  have no_ws: "\<not> is_ws d \<and> d \<noteq> CHR ''-''" if "is_digit d" for d
    using that by (auto simp: is_ws_def is_digit_def less_eq_char_def)
  have read: "read_digits ?json (length us) 0 = Some (int m) \<and> length us < length ?json \<and> is_digit (?json ! length us)"
    if "?json = us @ nat_str m @ c # post" "int64 (int m)" for us m
  proof -
    have "read_digits ?json (length us + length (nat_str m)) (int m) = Some (int m)"
      using read_digits_stop [of ?json "us @ nat_str m" c post] that(1) stop by simp
    moreover have "?json ! length us = hd (nat_str m)"
      using digit [of m] unfolding that(1) by (metis append_Cons nth_append_length)
    ultimately show ?thesis
      using read_digits_numeral [OF that] digit [of m] nat_str_nonempty [of m] that(1) by simp
  qed
  have ws1: "skip_ws ?json (length pre + 1 + length key + 1) = length pre + 1 + length key + 1"
    by (rule skip_ws_stop) (use len colon in \<open>simp_all add: is_ws_def\<close>)
  have pos: "length pre + 1 + length key + 1 + 1 = length ?pre" by simp
  show ?thesis
  proof (cases "n < 0")
    case True
    have minus: "?json ! length ?pre = CHR ''-''"
      using nth_append_length [of ?pre "CHR ''-''"] True unfolding json by (simp only: int_str_def if_True append_Cons)
    have ws2: "skip_ws ?json (length ?pre) = length ?pre"
      by (rule skip_ws_stop [OF len(1)]) (simp only: minus, simp add: is_ws_def)
    have "read_digits ?json (length (?pre @ ''-'')) 0 = Some (int (nat (- n))) \<and>
        length (?pre @ ''-'') < length ?json \<and> is_digit (?json ! length (?pre @ ''-''))"
      by (rule read) (use json True n in \<open>simp_all add: int_str_def int64_def\<close>)
    then show ?thesis
      unfolding json_get_int_def at(3) Let_def ws1 pos ws2 using len colon minus True by (simp add: numeral_2_eq_2)
  next
    case False
    have r: "read_digits ?json (length ?pre) 0 = Some (int (nat n)) \<and> length ?pre < length ?json \<and> is_digit (?json ! length ?pre)"
      by (rule read) (use json False n in \<open>simp_all add: int_str_def int64_def\<close>)
    then have ws2: "skip_ws ?json (length ?pre) = length ?pre" by (intro skip_ws_stop) (use no_ws in auto)
    have "?json ! length ?pre \<noteq> CHR ''-''" using r no_ws by blast
    then show ?thesis
      unfolding json_get_int_def at(3) Let_def ws1 pos ws2 using len colon r False by simp
  qed
qed


lemma write_response_eq:
  assumes "list_all (\<lambda>f. case snd f of StrField v \<Rightarrow> True | IntField n \<Rightarrow> int64 n) fs"
  shows "write_response fs buf =
    (if length (response_text fs) \<le> length buf
     then Some (response_text fs @ drop (length (response_text fs)) buf, length (response_text fs)) else None)"
  using appends_response [OF assms] by (simp add: appends_def write_response_def)

lemma plain_response_int64:
  "plain_response fs \<Longrightarrow> list_all (\<lambda>f. case snd f of StrField v \<Rightarrow> True | IntField n \<Rightarrow> int64 n) fs"
  by (auto simp: plain_response_def list_all_iff int64_def split: field_value.splits)

text \<open>C5: the response functions and the event functions are inverse to each other. For field
  names without quotes, string values without quotes that are no field names, and every 64-bit
  integer but the smallest, the document that \<open>json_open\<close>, one \<open>json_write_str\<close> or
  \<open>json_write_int\<close> per field and \<open>json_close\<close> leave in a buffer that is large enough gives back
  every value, by \<open>json_get_str\<close> and \<open>json_get_int\<close>, under its key.\<close>

theorem response_roundtrip:
  assumes "plain_response fs" and "length (response_text fs) \<le> length buf"
  shows "\<exists>buf' n. write_response fs buf = Some (buf', n) \<and> length buf' = length buf \<and>
    (\<forall>(key, v) \<in> set fs. case v of
        StrField s \<Rightarrow> \<exists>p. json_get_str (take n buf') key = Some (p, length s) \<and> take (length s) (drop p buf') = s
      | IntField i \<Rightarrow> json_get_int (take n buf') key = IntValue i)"
proof -
  let ?t = "response_text fs"
  let ?buf = "?t @ drop (length ?t) buf"
  have str: "\<exists>p. json_get_str ?t key = Some (p, length s) \<and> take (length s) (drop p ?buf) = s"
    if field: "(key, StrField s) \<in> set fs" for key s
  proof -
    obtain p where p: "json_get_str ?t key = Some (p, length s)" "take (length s) (drop p ?t) = s"
      using json_get_str_written [OF assms(1) field] by blast
    then have "length s \<le> length ?t - p" by (metis length_drop length_take min.orderI min.commute)
    then have "take (length s) (drop p ?buf) = s" using p(2) by (cases "s = []") simp_all
    then show ?thesis using p(1) by blast
  qed
  show ?thesis
    using assms write_response_eq [OF plain_response_int64 [OF assms(1)], of buf]
      str json_get_int_written [OF assms(1)]
    by (auto split: field_value.split)
qed

lemma response_roundtrip_witness:
  "(let fs = [(''id'', IntField (- 42)), (''name'', StrField ''ann''), (''total'', IntField 907)];
        buf = replicate 64 CHR ''x''
    in (\<exists>buf' n. write_response fs buf = Some (buf', n) \<and> length buf' = length buf \<and>
      (\<forall>(key, v) \<in> set fs. case v of
          StrField s \<Rightarrow> \<exists>p. json_get_str (take n buf') key = Some (p, length s) \<and> take (length s) (drop p buf') = s
        | IntField i \<Rightarrow> json_get_int (take n buf') key = IntValue i)))"
  unfolding Let_def by (rule response_roundtrip) code_simp+

text \<open>C25: what a response costs. For string fields of any content and 64-bit integer fields the
  functions write exactly the document, from the first byte of the buffer, and leave the rest of
  the buffer as it was, when the document fits; otherwise they store outside the buffer, which
  nothing in \<open>json.c\<close> checks.\<close>

theorem response_bounds:
  assumes "\<forall>(key, v) \<in> set fs. case v of StrField s \<Rightarrow> True | IntField n \<Rightarrow> int64 n"
  shows "write_response fs buf =
    (if length (response_text fs) \<le> length buf
     then Some (response_text fs @ drop (length (response_text fs)) buf, length (response_text fs)) else None)"
  by (rule write_response_eq) (use assms in \<open>auto simp: list_all_iff\<close>)

lemma response_bounds_witness:
  "write_response [(''a'', IntField (- 42)), (''b'', StrField [quote])] (replicate 18 CHR ''x'') =
    Some (''{'' @ [quote] @ ''a'' @ [quote] @ '':-42,'' @ [quote] @ ''b'' @ [quote] @ '':'' @ [quote, quote, quote] @ ''}x'', 17) \<and>
   write_response [(''a'', IntField (- 42)), (''b'', StrField [quote])] (replicate 16 CHR ''x'') = None"
proof -
  let ?fs = "[(''a'', IntField (- 42)), (''b'', StrField [quote])]"
  have fits: "\<forall>(key, v) \<in> set ?fs. case v of StrField s \<Rightarrow> True | IntField n \<Rightarrow> int64 n"
    by (simp add: int64_def)
  show ?thesis
    unfolding response_bounds [OF fits] by code_simp
qed

section \<open>A value that equals the key\<close>

text \<open>The text in front of a field, and the first place of the key in it.\<close>

lemma key_at_fields:
  assumes "plain_name key" and "list_all (plain_field key) fs1" and "key \<notin> fst ` set fs1" and "fs2 \<noteq> []"
  shows "\<exists>pre. fields_text (fs1 @ fs2) = pre @ fields_text fs2 \<and>
    key_at key (fields_text (fs1 @ fs2) @ u) = map_option ((+) (length pre)) (key_at key (fields_text fs2 @ u))"
  using assms(2,3)
proof (induction fs1)
  case Nil
  show ?case by (intro exI [of _ "[]"]) (cases "key_at key (fields_text fs2 @ u)"; simp)
next
  case (Cons f fs1)
  let ?fs = "fs1 @ fs2"
  have ne: "?fs \<noteq> []" using assms(4) by simp
  obtain t where t: "fields_text ?fs @ u = quote # t" using fields_text_quote [OF ne] by blast
  obtain pre where IH: "fields_text ?fs = pre @ fields_text fs2"
    "key_at key (fields_text ?fs @ u) = map_option ((+) (length pre)) (key_at key (fields_text fs2 @ u))"
    using Cons by auto
  have "key_at key (field_text f @ CHR '','' # fields_text ?fs @ u) =
      map_option ((+) (Suc (length (field_text f)) + length pre)) (key_at key (fields_text fs2 @ u))"
    using key_at_skip [OF assms(1), of f t] Cons.prems IH(2) unfolding t
    by (cases "key_at key (fields_text fs2 @ u)") (auto simp: ac_simps)
  then show ?case
    using IH(1) ne by (intro exI [of _ "field_text f @ CHR '','' # pre"]) (cases "key_at key (fields_text fs2 @ u)"; simp add: fields_text_Cons)
qed

lemma find_key_value:
  assumes "plain_name key" and "list_all (plain_field key) fs1" and "key \<notin> fst ` set fs1"
    and "quote \<notin> set k" and "k \<noteq> key"
  obtains pre c post where "response_text (fs1 @ (k, StrField key) # fs2) = pre @ quote # key @ quote # c # post"
    "c = CHR '','' \<or> c = CHR ''}''" "find_key (response_text (fs1 @ (k, StrField key) # fs2)) key = length pre"
proof -
  let ?fs2 = "(k, StrField key) # fs2"
  have key: "quote \<notin> set key" "'':'' \<noteq> key" using assms(1) by (auto simp: plain_name_def)
  obtain pre where pre: "fields_text (fs1 @ ?fs2) = pre @ fields_text ?fs2"
    "key_at key (fields_text (fs1 @ ?fs2) @ ''}'') = map_option ((+) (length pre)) (key_at key (fields_text ?fs2 @ ''}''))"
    using key_at_fields [OF assms(1-3), of ?fs2 "''}''"] by blast
  obtain c post where c: "fields_text ?fs2 @ ''}'' = field_text (k, StrField key) @ c # post" "c = CHR '','' \<or> c = CHR ''}''"
    by (cases fs2) auto
  let ?k = "quote # k @ [quote, CHR '':'']"
  have "key_at key (quote # k @ quote # '':'' @ quote # key @ quote # c # post) = Some (length ?k)"
    using key_at_quoted [OF assms(4) key(1)] key_at_quoted [of "'':''" key] key_at_quoted [OF key(1) key(1)] assms(5) key
    by (simp del: append_Cons append_Nil)
  then have "key_at key (fields_text ?fs2 @ ''}'') = Some (length ?k)"
    unfolding c(1) by (simp add: field_text_def)
  then have "key_at key (''{'' @ fields_text (fs1 @ ?fs2) @ ''}'') = Some (length (CHR ''{'' # pre @ ?k))"
    using key_at_plain [of "''{''" key] pre(2) by simp
  then have "find_key (response_text (fs1 @ ?fs2)) key = length (CHR ''{'' # pre @ ?k)"
    using assms(1) find_key_eq [of key "response_text (fs1 @ ?fs2)"] by (simp add: response_text_def plain_name_def)
  moreover have "response_text (fs1 @ ?fs2) = (CHR ''{'' # pre @ ?k) @ quote # key @ quote # c # post"
    using pre(1) c(1) by (simp add: response_text_def field_text_def)
  ultimately show thesis using that c(2) by blast
qed

text \<open>C26: \<open>find_key\<close> does not tell keys from values. When a field in front of the one that is
  asked for has the name of that field as its string value, the reader finds the value, misses
  the colon behind it and fails although the key is in the document: \<open>json_get_str\<close> gives
  \<open>NULL\<close> and \<open>json_get_int\<close> ends the process with code 1.\<close>

theorem value_shadows_key:
  assumes "plain_name key" and "list_all (plain_field key) fs1" and "key \<notin> fst ` set fs1"
    and "quote \<notin> set k" and "k \<noteq> key"
  shows "json_get_str (response_text (fs1 @ (k, StrField key) # fs2)) key = None \<and>
    json_get_int (response_text (fs1 @ (k, StrField key) # fs2)) key = Exit1"
proof -
  let ?json = "response_text (fs1 @ (k, StrField key) # fs2)"
  obtain pre c post where json: "?json = pre @ quote # key @ quote # c # post"
    "c = CHR '','' \<or> c = CHR ''}''" "find_key ?json key = length pre"
    using find_key_value [OF assms] .
  have len: "length pre + 1 + length key + 1 < length ?json" by (simp add: json(1))
  have c: "?json ! (length pre + 1 + length key + 1) = c"
    using nth_append_length [of "pre @ quote # key @ [quote]" c post] by (simp add: json(1))
  have "skip_ws ?json (length pre + 1 + length key + 1) = length pre + 1 + length key + 1"
    by (rule skip_ws_stop [OF len]) (use c json(2) in \<open>auto simp: is_ws_def\<close>)
  then show ?thesis
    unfolding json_get_str_def json_get_int_def Let_def json(3) using len c json(2) by auto
qed

lemma value_shadows_key_witness:
  "json_get_str (response_text ([(''n'', IntField 1)] @ (''kind'', StrField ''name'') # [(''name'', StrField ''ann'')])) ''name'' = None \<and>
   json_get_int (response_text ([(''n'', IntField 1)] @ (''kind'', StrField ''name'') # [(''name'', StrField ''ann'')])) ''name'' = Exit1"
  by (rule value_shadows_key) (simp_all add: plain_name_def plain_field_def)

end
