(* ===== verification/HandleRead.thy ===== *)
theory HandleRead
  imports HandleSem JsonRuntimeProps CompilerGrow CompilerCode CompilerEntry
begin

text \<open>
  The first half of \<open>lambpie_handle\<close>, which fills an event object from the JSON text of the
  event: the instructions of each field, and what running them does to the object.
\<close>

section \<open>Code that is appended\<close>

fun numbered :: "nat \<Rightarrow> instr list \<Rightarrow> (nat \<times> instr) list" where
  "numbered n [] = []"
| "numbered n (i # is) = (n, i) # numbered (Suc n) is"

lemma numbered_append: "numbered n (xs @ ys) = numbered n xs @ numbered (n + length xs) ys"
  by (induction xs arbitrary: n) simp_all

definition ready :: "nat \<Rightarrow> cstate \<Rightarrow> bool" where
  "ready b s \<longleftrightarrow> cs_builder s = Some b \<and> b < length (cs_blocks s)"

definition adds :: "nat \<Rightarrow> cstate \<Rightarrow> instr list \<Rightarrow> cstate \<Rightarrow> bool" where
  "adds b s xs s' \<longleftrightarrow>
     ready b s' \<and> code s' b = code s b @ numbered (cs_next s) xs \<and> cs_next s' = cs_next s + length xs \<and>
     cs_types s' = cs_types s \<and> cs_layouts s' = cs_layouts s \<and> cs_globals s' = cs_globals s \<and>
     set (cs_data s) \<subseteq> set (cs_data s')"

lemma adds_trans: "adds b s xs t \<Longrightarrow> adds b t ys u \<Longrightarrow> adds b s (xs @ ys) u"
  by (auto simp: adds_def numbered_append)

lemma addsD:
  assumes "adds b s xs s'"
  shows "ready b s'" "code s' b = code s b @ numbered (cs_next s) xs" "cs_next s' = cs_next s + length xs"
    "cs_types s' = cs_types s" "cs_layouts s' = cs_layouts s" "cs_globals s' = cs_globals s"
    "set (cs_data s) \<subseteq> set (cs_data s')"
  using assms by (simp_all add: adds_def)

lemma code_push_all:
  "b < length (cs_blocks s) \<Longrightarrow> code (push_all b xs s) b = code s b @ numbered (cs_next s) xs"
  by (induction xs arbitrary: s) (simp_all add: code_push)

lemma adds_push: "ready b s \<Longrightarrow> adds b s xs (push_all b xs s)"
  by (simp add: adds_def ready_def code_push_all)

lemma object_size_pushD:
  assumes "object_size L t i64 s = Inr (v, s')" and "cs_builder s = Some b"
  obtains t1 t2 where "v = InstrV (cs_next s + 1) t2"
    and "s' = push_all b [Gep (OVal (NullV t)) [i32c 1] False, PtrToInt (OVal (InstrV (cs_next s) t1)) i64] s"
proof -
  obtain p s1 where p: "emit L (Gep (OVal (NullV t)) [i32c 1] False) s = Inr (p, s1)"
    and v: "emit L (PtrToInt (OVal p) i64) s1 = Inr (v, s')"
    using assms(1) by (auto simp: object_size_def)
  obtain t1 where t1: "p = InstrV (cs_next s) t1" "s1 = push_all b [Gep (OVal (NullV t)) [i32c 1] False] s"
    by (rule emit_pushD [OF p assms(2)])
  obtain t2 where "v = InstrV (cs_next s1) t2" "s' = push_all b [PtrToInt (OVal p) i64] s1"
    by (rule emit_pushD [OF v]) (simp add: t1 assms(2))
  then show thesis by (intro that [of t2 t1]) (simp_all add: t1)
qed

lemma object_at_pushD:
  assumes "object_at L t tag a sz s = Inr (v, s')" and "cs_builder s = Some b"
  obtains t1 t2 where "v = InstrV (cs_next s + 1) t2"
    and "s' = push_all b [CallI (OVal a) [i32c tag, OVal sz], Bitcast (OVal (InstrV (cs_next s) t1)) t] s"
proof -
  obtain p s1 where p: "emit L (CallI (OVal a) [i32c tag, OVal sz]) s = Inr (p, s1)"
    and v: "emit L (Bitcast (OVal p) t) s1 = Inr (v, s')"
    using assms(1) by (auto simp: object_at_def)
  obtain t1 where t1: "p = InstrV (cs_next s) t1" "s1 = push_all b [CallI (OVal a) [i32c tag, OVal sz]] s"
    by (rule emit_pushD [OF p assms(2)])
  obtain t2 where "v = InstrV (cs_next s1) t2" "s' = push_all b [Bitcast (OVal p) t] s1"
    by (rule emit_pushD [OF v]) (simp add: t1 assms(2))
  then show thesis by (intro that [of t2 t1]) (simp_all add: t1)
qed

text \<open>A key constant adds a private global with the bytes of the name and no code.\<close>

definition key_value :: "cstate \<Rightarrow> string \<Rightarrow> val \<Rightarrow> bool" where
  "key_value s n v \<longleftrightarrow> (\<exists>g u. v = GlobalV g u \<and> (g, name_bytes n) \<in> (\<lambda>d. (d_name d, d_init d)) ` set (cs_data s))"

lemma key_constant_adds:
  assumes "key_constant L n s = Inr (v, s')" and "ready b s"
  shows "adds b s [] s'" "key_value s' n v"
  using assms
  by (auto simp: key_constant_def adds_def ready_def code_def key_value_def
      dest!: next_name_InrD new_data_InrD)

section \<open>What the code can read\<close>

definition knows :: "henv \<Rightarrow> cstate \<Rightarrow> bool" where
  "knows E s \<longleftrightarrow> (\<forall>d \<in> set (cs_data s). map_of (e_data E) (d_name d) = Some (map char_of (d_init d)))"

lemma knows_mono: "knows E s' \<Longrightarrow> set (cs_data s) \<subseteq> set (cs_data s') \<Longrightarrow> knows E s"
  by (auto simp: knows_def)

lemma name_bytes_chars: "map char_of (name_bytes n) = n @ [char_of (0 :: nat)]"
  by (simp add: name_bytes_def comp_def)

lemma hvalue_key:
  assumes "key_value s n v" and "knows E s"
  shows "hvalue E m (OVal v) = Some (HBytes (n @ [char_of (0 :: nat)]))"
proof -
  obtain d u where d: "v = GlobalV (d_name d) u" "d \<in> set (cs_data s)" "d_init d = name_bytes n"
    using assms(1) by (auto simp: key_value_def)
  then show ?thesis using assms(2) name_bytes_chars [of n] by (simp add: knows_def)
qed

lemma bytes_key: "length n < 2 ^ 64 \<Longrightarrow> bytes (n @ [c]) (word_of_int (int (length n))) = Some n"
  by (simp add: bytes_def unat_of_nat take_bit_nat_eq_self)

text \<open>An operand that is no register from \<open>n\<close> on, and a state with the same registers below
  \<open>n\<close>.\<close>

definition old :: "nat \<Rightarrow> obj \<Rightarrow> bool" where
  "old n v \<longleftrightarrow> (case v of OVal (InstrV k t) \<Rightarrow> k < n | _ \<Rightarrow> True)"

definition keeps :: "nat \<Rightarrow> hstate \<Rightarrow> hstate \<Rightarrow> bool" where
  "keeps n m m' \<longleftrightarrow> (\<forall>k < n. h_regs m' k = h_regs m k)"

lemma hvalue_keeps: "old n v \<Longrightarrow> keeps n m m' \<Longrightarrow> hvalue E m' v = hvalue E m v"
  by (auto simp: old_def keeps_def hvalue_def split: obj.splits val.splits)

lemma keeps_refl [simp]: "keeps n m m"
  by (simp add: keeps_def)

lemma keeps_set [simp]: "n \<le> k \<Longrightarrow> keeps n m (set_hreg k x m') \<longleftrightarrow> keeps n m m'"
  by (auto simp: keeps_def)

lemma keeps_heap [simp]: "keeps n m (m'\<lparr>h_heap := h\<rparr>) \<longleftrightarrow> keeps n m m'"
  "keeps n m (m'\<lparr>h_buffer := s\<rparr>) \<longleftrightarrow> keeps n m m'"
  by (simp_all add: keeps_def)

lemma keeps_trans: "keeps n m m' \<Longrightarrow> keeps n' m' m'' \<Longrightarrow> n \<le> n' \<Longrightarrow> keeps n m m''"
  by (simp add: keeps_def)

lemma hvalue_set: "old k v \<Longrightarrow> hvalue E (set_hreg k x m) v = hvalue E m v"
  by (rule hvalue_keeps [where n = k]) simp_all

lemma hvalue_heap [simp]:
  "hvalue E (m\<lparr>h_heap := h\<rparr>) v = hvalue E m v" "hvalue E (m\<lparr>h_buffer := s\<rparr>) v = hvalue E m v"
  by (simp_all add: hvalue_def split: obj.split val.split const.split)

lemma old_mono: "old n v \<Longrightarrow> n \<le> n' \<Longrightarrow> old n' v"
  by (auto simp: old_def split: obj.splits val.splits)

lemma old_simps [simp]:
  "old n (OVal (InstrV k t)) \<longleftrightarrow> k < n" "old n (OVal (ConstV t c))" "old n (OVal (ArgV f i t))"
  "old n (OVal (GlobalV g t))"
  by (simp_all add: old_def)

section \<open>Values of fields\<close>

text \<open>The string a \<open>str\<close> object holds, and the value of a field of an object.\<close>

definition str_value :: "layout \<Rightarrow> heap \<Rightarrow> nat \<Rightarrow> string option" where
  "str_value sl h c =
     (case (dict_get sl ''len'', dict_get sl ''buffer'') of
        (Some (li, _), Some (bi, _)) \<Rightarrow>
          (case (fst h c li, fst h c bi) of
             (Some (HInt n), Some (HBytes s)) \<Rightarrow> bytes s n
           | _ \<Rightarrow> None)
      | _ \<Rightarrow> None)"

definition value_at :: "layout \<Rightarrow> heap \<Rightarrow> hval \<Rightarrow> string \<times> nat \<times> ty \<Rightarrow> field_value option" where
  "value_at sl h x fld =
     (case (x, fld) of
        (HObj a, (n, k, t)) \<Rightarrow>
          (case fst h a k of
             Some (HObj c) \<Rightarrow> if is_str_type t then map_option StrField (str_value sl h c) else None
           | Some (HInt w) \<Rightarrow> if is_str_type t then None else Some (IntField (sint w))
           | _ \<Rightarrow> None)
      | _ \<Rightarrow> None)"

text \<open>The value of the event under the name of a field.\<close>

definition event_value :: "string \<Rightarrow> string \<times> nat \<times> ty \<Rightarrow> field_value option" where
  "event_value ev fld =
     (case fld of (n, k, t) \<Rightarrow>
        if is_str_type t then
          (case json_get_str ev n of None \<Rightarrow> None | Some (p, l) \<Rightarrow> Some (StrField (take l (drop p ev))))
        else (case json_get_int ev n of IntValue i \<Rightarrow> Some (IntField i) | _ \<Rightarrow> None))"

lemma read_digits_int64: "read_digits json pos acc = Some v \<Longrightarrow> int64 acc \<Longrightarrow> int64 v"
proof (induction json pos acc rule: read_digits.induct)
  case (1 json pos acc)
  then show ?case by (subst (asm) (2) read_digits.simps) (auto split: if_splits)
qed

lemma read_digits_nonneg: "read_digits json pos acc = Some v \<Longrightarrow> 0 \<le> acc \<Longrightarrow> 0 \<le> v"
proof (induction json pos acc rule: read_digits.induct)
  case (1 json pos acc)
  have "0 \<le> digit_value c" if "is_digit c" for c
    using that by (auto simp: is_digit_def digit_value_def less_eq_char_def)
  then show ?case using 1 by (subst (asm) (2) read_digits.simps) (auto split: if_splits)
qed

lemma json_get_int_int64: "json_get_int json key = IntValue v \<Longrightarrow> int64 v"
proof -
  have "0 \<le> r \<and> r < 2 ^ 63" if "read_digits json pos 0 = Some r" for pos r
    using read_digits_int64 [OF that] read_digits_nonneg [OF that] by (simp add: int64_def)
  then show "json_get_int json key = IntValue v \<Longrightarrow> int64 v"
    by (fastforce simp: json_get_int_def Let_def int64_def split: if_splits option.splits)
qed

lemma json_get_str_bounds:
  assumes "json_get_str json key = Some (p, n)"
  shows "p + n < length json"
proof -
  have "pos \<le> scan_quote json pos" for pos
    by (induction json pos rule: scan_quote.induct) (subst scan_quote.simps, force)
  then have "p + (scan_quote json p - p) = scan_quote json p" by simp
  moreover have "n = scan_quote json p - p" "scan_quote json p < length json"
    using assms by (auto simp: json_get_str_def Let_def split: if_splits)
  ultimately show ?thesis by simp
qed

section \<open>Reading a field\<close>

definition handle_args :: "string \<Rightarrow> 64 word \<Rightarrow> henv \<Rightarrow> bool" where
  "handle_args ev cap E \<longleftrightarrow>
     e_args E = [HBytes ev, HInt (of_nat (length ev)), HBuffer, HInt cap] \<and> length ev < 2 ^ 64"

lemma bytes_all: "length ev < 2 ^ 64 \<Longrightarrow> bytes ev (of_nat (length ev)) = Some ev"
  by (simp add: bytes_def unat_of_nat take_bit_nat_eq_self)

lemma field_get_InrE:
  assumes "liftS (field_get l n) s = Inr (v, s')"
  obtains "dict_get l n = Some v" "s' = s"
  using assms by (auto simp: field_get_def liftS_def split: option.splits)

lemma read_int_run:
  assumes "read_field L (IntT 64) a jf (OVal (ArgV f 0 p)) (OVal (ArgV f 1 q)) es (n, k, IntT 64) s = Inr (u, s')" and "ready b s"
    and "jf_get_int jf = FuncV ''json_get_int'' ft" and "length n < 2 ^ 64"
    and "old (cs_next s) es"
  obtains xs where "adds b s xs s'" and
    "\<And>X E m rest e ev cap i. \<lbrakk>langmem X; knows E s'; handle_args ev cap E; hvalue E m es = Some (HObj e)\<rbrakk> \<Longrightarrow>
       (json_get_int ev n = Exit1 \<longrightarrow> hrun X E (numbered (cs_next s) xs @ rest) m = Exits) \<and>
       (json_get_int ev n = IntValue i \<longrightarrow>
         (\<exists>m'. hrun X E (numbered (cs_next s) xs @ rest) m = hrun X E rest m' \<and> keeps (cs_next s) m m' \<and>
           h_buffer m' = h_buffer m \<and> h_heap m' = write_heap e k (HInt (word_of_int i)) (h_heap m)))"
proof -
  let ?call = "\<lambda>key. CallI (OVal (jf_get_int jf)) [OVal (ArgV f 0 p), OVal (ArgV f 1 q), OVal key, key_length (IntT 64) n]"
  have "bindS (key_constant L n) (\<lambda>key. bindS (struct_gep L es k) (\<lambda>fp.
      bindS (emit L (?call key)) (\<lambda>v. emit_unit L (Store (OVal v) (OVal fp))))) s = Inr (u, s')"
    using assms(1) by (simp add: read_field_def is_str_type_def)
  then obtain key s1 where key: "key_constant L n s = Inr (key, s1)"
    and rest: "bindS (struct_gep L es k) (\<lambda>fp. bindS (emit L (?call key)) (\<lambda>v. emit_unit L (Store (OVal v) (OVal fp)))) s1 = Inr (u, s')"
    by (rule bindS_InrE) (rule that)
  note k1 = key_constant_adds [OF key assms(2)]
  have b1: "cs_builder s1 = Some b" using addsD(1) [OF k1(1)] by (simp add: ready_def)
  obtain fp s2 where fp: "struct_gep L es k s1 = Inr (fp, s2)"
    and rest2: "bindS (emit L (?call key)) (\<lambda>v. emit_unit L (Store (OVal v) (OVal fp))) s2 = Inr (u, s')"
    using rest by (rule bindS_InrE) (rule that)
  obtain t1 where t1: "fp = InstrV (cs_next s1) t1" "s2 = push_all b [Gep es [i32c 0, i32c k] True] s1"
    by (rule emit_pushD [OF fp [unfolded struct_gep_def] b1])
  obtain v s3 where v: "emit L (?call key) s2 = Inr (v, s3)" and st: "emit_unit L (Store (OVal v) (OVal fp)) s3 = Inr (u, s')"
    using rest2 by (rule bindS_InrE) (rule that)
  have b2: "cs_builder s2 = Some b" by (simp add: t1 b1)
  obtain t2 where t2: "v = InstrV (cs_next s2) t2" "s3 = push_all b [?call key] s2"
    by (rule emit_pushD [OF v b2])
  have s': "s' = push_all b [Store (OVal v) (OVal fp)] s3"
    by (rule emit_unit_pushD [OF st]) (simp add: t2 b2)
  let ?n = "cs_next s"
  let ?xs = "[Gep es [i32c 0, i32c k] True, ?call key,
      Store (OVal (InstrV (?n + 1) t2)) (OVal (InstrV ?n t1))]"
  have n1: "cs_next s1 = ?n" using addsD(3) [OF k1(1)] by simp
  have "s' = push_all b ?xs s1" by (simp add: s' t2 t1 n1)
  then have code: "adds b s ?xs s'" "set (cs_data s1) \<subseteq> set (cs_data s')"
    using adds_trans [OF k1(1) adds_push [OF addsD(1) [OF k1(1)], of ?xs]] by simp_all
  show thesis
  proof (rule that [OF code(1)])
    fix X E m rest e ev cap i
    assume X: "langmem X" and E: "knows E s'" "handle_args ev cap E" and es: "hvalue E m es = Some (HObj e)"
    note l = langmemD [OF X, simplified]
    have kv: "hvalue E m' (OVal key) = Some (HBytes (n @ [char_of (0 :: nat)]))" for m'
      by (rule hvalue_key [OF k1(2) knows_mono [OF E(1) code(2)]])
    have args: "e_args E = [HBytes ev, HInt (of_nat (length ev)), HBuffer, HInt cap]" "bytes ev (of_nat (length ev)) = Some ev"
      using E(2) bytes_all by (auto simp: handle_args_def)
    let ?m = "(set_hreg (Suc ?n) (HInt (word_of_int i)) (set_hreg ?n (HField e k) m))
        \<lparr>h_heap := write_heap e k (HInt (word_of_int i)) (h_heap m)\<rparr>"
    have "hrun X E (numbered ?n ?xs @ rest) m = Exits" if "json_get_int ev n = Exit1"
      using assms(3) that es bytes_key [OF assms(4)]
      by (simp add: l(4) kv args key_length_def call_fun_def call_get_int_def)
    moreover have "hrun X E (numbered ?n ?xs @ rest) m = hrun X E rest ?m" if "json_get_int ev n = IntValue i"
      using assms(3) that es bytes_key [OF assms(4)]
      by (simp add: l(4) l(2) [where a = e and j = k and x = "HInt (word_of_int i)"] kv args key_length_def call_fun_def call_get_int_def)
    ultimately show "(json_get_int ev n = Exit1 \<longrightarrow> hrun X E (numbered ?n ?xs @ rest) m = Exits) \<and>
       (json_get_int ev n = IntValue i \<longrightarrow>
         (\<exists>m'. hrun X E (numbered ?n ?xs @ rest) m = hrun X E rest m' \<and> keeps ?n m m' \<and>
           h_buffer m' = h_buffer m \<and> h_heap m' = write_heap e k (HInt (word_of_int i)) (h_heap m)))"
      by (intro conjI impI exI [of _ ?m]) simp_all
  qed
qed

text \<open>The heap after a string field was read: the slot of the length, the \<open>str\<close> object
  and the field.\<close>

definition str_heap :: "nat \<Rightarrow> nat \<Rightarrow> nat \<Rightarrow> nat \<Rightarrow> nat \<Rightarrow> string \<Rightarrow> nat \<Rightarrow> heap \<Rightarrow> heap" where
  "str_heap e k rc li bi s l h =
     (let slot = snd h; c = Suc slot in
      write_heap e k (HObj c) (write_heap c bi (HBytes s) (write_heap c li (HInt (of_nat l)) (write_heap c rc (HInt 1)
        (new_object (write_heap slot 0 (HInt (of_nat l)) (new_object h)))))))"

text \<open>The part of \<open>read_str_field\<close> that fills the \<open>str\<close> object.\<close>

definition fill_str :: "llapi \<Rightarrow> val \<Rightarrow> val \<Rightarrow> val \<Rightarrow> obj \<Rightarrow> unit cm" where
  "fill_str L str_struct str_len str_data field_ptr =
     bindS (layout_get ''str'') (\<lambda>layout.
     bindS (liftS (field_get layout ''__ref_count__'')) (\<lambda>rc.
     bindS (store_field L (OVal str_struct) (fst rc) (i32c 1)) (\<lambda>_.
     bindS (liftS (field_get layout ''len'')) (\<lambda>len_f.
     bindS (store_field L (OVal str_struct) (fst len_f) (OVal str_len)) (\<lambda>_.
     bindS (liftS (field_get layout ''buffer'')) (\<lambda>buf_f.
     bindS (store_field L (OVal str_struct) (fst buf_f) (OVal str_data)) (\<lambda>_.
       emit_unit L (Store (OVal str_struct) field_ptr))))))))"

lemma read_str_field_fill:
  "read_str_field L i64 a jf ep el key kl fp =
     bindS (emit L (Alloca i64)) (\<lambda>out_len.
     bindS (emit L (CallI (OVal (jf_get_str jf)) [ep, el, key, kl, OVal out_len])) (\<lambda>str_data.
     bindS (emit L (Load (OVal out_len))) (\<lambda>str_len.
     bindS (types_get ''str'') (\<lambda>str_t.
     bindS (object_size L str_t i64) (\<lambda>sz.
     bindS (object_at L str_t ARENA_REQ a sz) (\<lambda>str_struct.
       fill_str L str_struct str_len str_data fp))))))"
  by (simp add: read_str_field_def fill_str_def)

lemma fill_str_pushD:
  assumes "fill_str L c l d fp s = Inr (u, s')" and "cs_builder s = Some b"
    and "dict_get (cs_layouts s) ''str'' = Some sl" and "dict_get sl ''__ref_count__'' = Some (rc, rt)"
    and "dict_get sl ''len'' = Some (li, lt)" and "dict_get sl ''buffer'' = Some (bi, bt)"
  obtains t1 t2 t3 where "s' = push_all b
      (store_code (OVal c) rc (i32c 1) (InstrV (cs_next s) t1) @
       store_code (OVal c) li (OVal l) (InstrV (cs_next s + 2) t2) @
       store_code (OVal c) bi (OVal d) (InstrV (cs_next s + 4) t3) @ [Store (OVal c) fp]) s"
proof -
  have "bindS (store_field L (OVal c) rc (i32c 1)) (\<lambda>_.
     bindS (store_field L (OVal c) li (OVal l)) (\<lambda>_.
     bindS (store_field L (OVal c) bi (OVal d)) (\<lambda>_. emit_unit L (Store (OVal c) fp)))) s = Inr (u, s')"
    using assms(1,3-6) by (simp add: fill_str_def layout_get_def field_get_def bindS_def liftS_def cong: sum.case_cong)
  then obtain u1 s1 u2 s2 u3 s3 where
    st: "store_field L (OVal c) rc (i32c 1) s = Inr (u1, s1)" "store_field L (OVal c) li (OVal l) s1 = Inr (u2, s2)"
      "store_field L (OVal c) bi (OVal d) s2 = Inr (u3, s3)" "emit_unit L (Store (OVal c) fp) s3 = Inr (u, s')"
    by (elim bindS_InrE) (rule that; assumption)
  obtain t1 where t1: "s1 = push_all b (store_code (OVal c) rc (i32c 1) (InstrV (cs_next s) t1)) s"
    by (rule store_field_pushD [OF st(1) assms(2)])
  obtain t2 where t2: "s2 = push_all b (store_code (OVal c) li (OVal l) (InstrV (cs_next s1) t2)) s1"
    by (rule store_field_pushD [OF st(2)]) (simp add: t1 assms(2))
  obtain t3 where t3: "s3 = push_all b (store_code (OVal c) bi (OVal d) (InstrV (cs_next s2) t3)) s2"
    by (rule store_field_pushD [OF st(3)]) (simp add: t1 t2 assms(2))
  have "s' = push_all b [Store (OVal c) fp] s3"
    by (rule emit_unit_pushD [OF st(4)]) (simp add: t1 t2 t3 assms(2))
  then show thesis by (intro that [of t1 t2 t3]) (simp add: t1 t2 t3 push_all_append numeral_eq_Suc)
qed

lemma read_str_pushD:
  assumes "read_str_field L i64 a jf ep el key kl fp s = Inr (u, s')" and "cs_builder s = Some b"
    and "dict_get (cs_layouts s) ''str'' = Some sl" and "dict_get sl ''__ref_count__'' = Some (rc, rt)"
    and "dict_get sl ''len'' = Some (li, lt)" and "dict_get sl ''buffer'' = Some (bi, bt)"
  obtains str_t t v where "v = (\<lambda>j. InstrV (cs_next s + j) (t j))" and "s' = push_all b
      ([Alloca i64, CallI (OVal (jf_get_str jf)) [ep, el, key, kl, OVal (v 0)], Load (OVal (v 0)),
        Gep (OVal (NullV str_t)) [i32c 1] False, PtrToInt (OVal (v 3)) i64,
        CallI (OVal a) [i32c ARENA_REQ, OVal (v 4)], Bitcast (OVal (v 5)) str_t] @
       store_code (OVal (v 6)) rc (i32c 1) (v 7) @ store_code (OVal (v 6)) li (OVal (v 2)) (v 9) @
       store_code (OVal (v 6)) bi (OVal (v 1)) (v 11) @ [Store (OVal (v 6)) fp]) s"
proof -
  obtain w0 s1 w1 s2 w2 s3 str_t s3' w4 s4 w6 s5 where
    e: "emit L (Alloca i64) s = Inr (w0, s1)"
      "emit L (CallI (OVal (jf_get_str jf)) [ep, el, key, kl, OVal w0]) s1 = Inr (w1, s2)"
      "emit L (Load (OVal w0)) s2 = Inr (w2, s3)" "types_get ''str'' s3 = Inr (str_t, s3')"
    and o': "object_size L str_t i64 s3' = Inr (w4, s4)" "object_at L str_t ARENA_REQ a w4 s4 = Inr (w6, s5)"
    and fill: "fill_str L w6 w2 w1 fp s5 = Inr (u, s')"
    using assms(1) unfolding read_str_field_fill by (elim bindS_InrE) (rule that; assumption)
  have "s3' = s3" using e(4) by (auto simp: types_get_def split: option.splits)
  note o = o' [unfolded this]
  obtain t0 where t0: "w0 = InstrV (cs_next s) t0" "s1 = push_all b [Alloca i64] s"
    by (rule emit_pushD [OF e(1) assms(2)])
  obtain t1 where t1: "w1 = InstrV (cs_next s1) t1" "s2 = push_all b [CallI (OVal (jf_get_str jf)) [ep, el, key, kl, OVal w0]] s1"
    by (rule emit_pushD [OF e(2), where b = b]) (simp_all add: t0 assms(2))
  obtain t2 where t2: "w2 = InstrV (cs_next s2) t2" "s3 = push_all b [Load (OVal w0)] s2"
    by (rule emit_pushD [OF e(3), where b = b]) (simp_all add: t0 t1 assms(2))
  obtain t3 t4 where t4: "w4 = InstrV (cs_next s3 + 1) t4"
    "s4 = push_all b [Gep (OVal (NullV str_t)) [i32c 1] False, PtrToInt (OVal (InstrV (cs_next s3) t3)) i64] s3"
    by (rule object_size_pushD [OF o(1), where b = b]) (simp_all add: t0 t1 t2 assms(2))
  obtain t5 t6 where t6: "w6 = InstrV (cs_next s4 + 1) t6"
    "s5 = push_all b [CallI (OVal a) [i32c ARENA_REQ, OVal w4], Bitcast (OVal (InstrV (cs_next s4) t5)) str_t] s4"
    by (rule object_at_pushD [OF o(2), where b = b]) (simp_all add: t0 t1 t2 t4 assms(2))
  obtain t7 t9 t11 where t: "s' = push_all b
      (store_code (OVal w6) rc (i32c 1) (InstrV (cs_next s5) t7) @
       store_code (OVal w6) li (OVal w2) (InstrV (cs_next s5 + 2) t9) @
       store_code (OVal w6) bi (OVal w1) (InstrV (cs_next s5 + 4) t11) @ [Store (OVal w6) fp]) s5"
    by (rule fill_str_pushD [OF fill _ _ assms(4-6), where b = b]) (simp_all add: t0 t1 t2 t4 t6 assms(2,3))
  let ?t = "\<lambda>j. [t0, t1, t2, t3, t4, t5, t6, t7, t7, t9, t9, t11] ! j"
  show thesis
    by (rule that [of _ ?t str_t, OF refl])
      (auto simp: t t0(1) t1(1) t2(1) t4(1) t6(1) t0(2) t1(2) t2(2) t4(2) t6(2) push_all_append numeral_eq_Suc)
qed

lemma langmem_size:
  assumes "langmem X"
  obtains sz where "\<forall>E k m p t u. hvalue E m p = Some (HSize t) \<longrightarrow>
    X E k (PtrToInt p u) m = Some (set_hreg k (HInt (sz E k m p u)) m)"
proof -
  have "\<forall>E k m p u. \<exists>w. \<forall>t. hvalue E m p = Some (HSize t) \<longrightarrow> X E k (PtrToInt p u) m = Some (set_hreg k (HInt w) m)"
    using langmemD(6) [OF assms] by (metis option.inject hval.inject(5))
  then show thesis using that by metis
qed

lemma read_str_run:
  assumes "read_field L (IntT 64) a jf (OVal (ArgV f 0 p)) (OVal (ArgV f 1 q)) es (n, k, t) s = Inr (u, s')" and "ready b s"
    and "is_str_type t" and "jf_get_str jf = FuncV ''json_get_str'' ft" and "a = FuncV ''lambpie_arena_alloc'' at'"
    and "length n < 2 ^ 64" and "old (cs_next s) es"
    and "dict_get (cs_layouts s) ''str'' = Some sl" and "dict_get sl ''__ref_count__'' = Some (rc, rt)"
    and "dict_get sl ''len'' = Some (li, lt)" and "dict_get sl ''buffer'' = Some (bi, bt)"
  obtains xs where "adds b s xs s'" and
    "\<And>X E m rest e ev cap v l. \<lbrakk>langmem X; knows E s'; handle_args ev cap E; hvalue E m es = Some (HObj e);
       e < snd (h_heap m); json_get_str ev n = Some (v, l)\<rbrakk> \<Longrightarrow>
       \<exists>m'. hrun X E (numbered (cs_next s) xs @ rest) m = hrun X E rest m' \<and> keeps (cs_next s) m m' \<and>
         h_buffer m' = h_buffer m \<and> h_heap m' = str_heap e k rc li bi (drop v ev) l (h_heap m)"
proof -
  let ?call = "\<lambda>key out_len. CallI (OVal (jf_get_str jf)) [OVal (ArgV f 0 p), OVal (ArgV f 1 q), OVal key, key_length (IntT 64) n, OVal out_len]"
  have "bindS (key_constant L n) (\<lambda>key. bindS (struct_gep L es k) (\<lambda>fp.
      read_str_field L (IntT 64) a jf (OVal (ArgV f 0 p)) (OVal (ArgV f 1 q)) (OVal key) (key_length (IntT 64) n) (OVal fp))) s = Inr (u, s')"
    using assms(1,3) by (simp add: read_field_def)
  then obtain key s1 fp s2 where key: "key_constant L n s = Inr (key, s1)" and fp: "struct_gep L es k s1 = Inr (fp, s2)"
    and str: "read_str_field L (IntT 64) a jf (OVal (ArgV f 0 p)) (OVal (ArgV f 1 q)) (OVal key)
          (key_length (IntT 64) n) (OVal fp) s2 = Inr (u, s')"
    by (elim bindS_InrE) (rule that; assumption)
  note k1 = key_constant_adds [OF key assms(2)]
  have b1: "cs_builder s1 = Some b" using addsD(1) [OF k1(1)] by (simp add: ready_def)
  have n1: "cs_next s1 = cs_next s" using addsD(3) [OF k1(1)] by simp
  obtain t1 where t1: "fp = InstrV (cs_next s1) t1" "s2 = push_all b [Gep es [i32c 0, i32c k] True] s1"
    by (rule emit_pushD [OF fp [unfolded struct_gep_def] b1])
  have n2: "cs_next s2 = Suc (cs_next s)" by (simp add: t1 n1)
  obtain str_t ts v where v: "v = (\<lambda>j. InstrV (cs_next s2 + j) (ts j))" and s': "s' = push_all b
      ([Alloca (IntT 64), ?call key (v 0), Load (OVal (v 0)),
        Gep (OVal (NullV str_t)) [i32c 1] False, PtrToInt (OVal (v 3)) (IntT 64),
        CallI (OVal a) [i32c ARENA_REQ, OVal (v 4)], Bitcast (OVal (v 5)) str_t] @
       store_code (OVal (v 6)) rc (i32c 1) (v 7) @ store_code (OVal (v 6)) li (OVal (v 2)) (v 9) @
       store_code (OVal (v 6)) bi (OVal (v 1)) (v 11) @ [Store (OVal (v 6)) (OVal fp)]) s2"
    by (rule read_str_pushD [OF str _ _ assms(9-11), where b = b])
      (use addsD(5) [OF k1(1)] assms(8) in \<open>simp_all add: t1 b1\<close>)
  let ?n = "cs_next s"
  let ?ys = "[Alloca (IntT 64), ?call key (v 0), Load (OVal (v 0)),
        Gep (OVal (NullV str_t)) [i32c 1] False, PtrToInt (OVal (v 3)) (IntT 64),
        CallI (OVal a) [i32c ARENA_REQ, OVal (v 4)], Bitcast (OVal (v 5)) str_t] @
       store_code (OVal (v 6)) rc (i32c 1) (v 7) @ store_code (OVal (v 6)) li (OVal (v 2)) (v 9) @
       store_code (OVal (v 6)) bi (OVal (v 1)) (v 11) @ [Store (OVal (v 6)) (OVal fp)]"
  let ?xs = "Gep es [i32c 0, i32c k] True # ?ys"
  have "s' = push_all b ?xs s1" by (simp add: s' t1)
  then have code: "adds b s ?xs s'" "set (cs_data s1) \<subseteq> set (cs_data s')"
    using adds_trans [OF k1(1) adds_push [OF addsD(1) [OF k1(1)], of ?xs]] by simp_all
  show thesis
  proof (rule that [OF code(1)])
    fix X E m rest e ev cap x l
    assume X: "langmem X" and E: "knows E s'" "handle_args ev cap E" and es: "hvalue E m es = Some (HObj e)"
      and e: "e < snd (h_heap m)" and x: "json_get_str ev n = Some (x, l)"
    note lm = langmemD(1-5,7) [OF X, simplified]
    obtain sz where sz: "\<forall>E k m p t u. hvalue E m p = Some (HSize t) \<longrightarrow>
        X E k (PtrToInt p u) m = Some (set_hreg k (HInt (sz E k m p u)) m)"
      by (rule langmem_size [OF X])
    have kv: "hvalue E m' (OVal key) = Some (HBytes (n @ [char_of (0 :: nat)]))" for m'
      by (rule hvalue_key [OF k1(2) knows_mono [OF E(1) code(2)]])
    have args: "e_args E = [HBytes ev, HInt (of_nat (length ev)), HBuffer, HInt cap]" "bytes ev (of_nat (length ev)) = Some ev"
      using E(2) bytes_all by (auto simp: handle_args_def)
    have "\<exists>m'. hrun X E (numbered ?n ?xs @ rest) m = hrun X E rest m' \<and> (\<forall>j < ?n. h_regs m' j = h_regs m j) \<and>
        h_buffer m' = h_buffer m \<and> h_heap m' = str_heap e k rc li bi (drop x ev) l (h_heap m)"
      using assms(4,5) x es e bytes_key [OF assms(6)]
      by (simp add: lm(4)) (simp add: lm sz kv args key_length_def call_fun_def call_get_str_def call_alloc_def store_code_def v n2 t1(1) n1
          write_heap_def new_object_def str_heap_def Let_def, rule exI, rule conjI [OF refl], simp)
    then show "\<exists>m'. hrun X E (numbered ?n ?xs @ rest) m = hrun X E rest m' \<and> keeps ?n m m' \<and>
        h_buffer m' = h_buffer m \<and> h_heap m' = str_heap e k rc li bi (drop x ev) l (h_heap m)"
      by (simp add: keeps_def)
  qed
qed

section \<open>The event object\<close>

text \<open>The object \<open>e\<close> has the value in the field; a \<open>str\<close> object behind it is another
  one.\<close>

definition held :: "layout \<Rightarrow> nat \<Rightarrow> heap \<Rightarrow> string \<times> nat \<times> ty \<Rightarrow> field_value \<Rightarrow> bool" where
  "held sl e h fld v \<longleftrightarrow>
     value_at sl h (HObj e) fld = Some v \<and>
     (case fst h e (fst (snd fld)) of Some (HObj c) \<Rightarrow> c \<noteq> e \<and> c < snd h | _ \<Rightarrow> True)"

text \<open>Only the fields \<open>K\<close> of the object \<open>e\<close> change, and new objects may appear.\<close>

definition extends :: "nat \<Rightarrow> nat set \<Rightarrow> heap \<Rightarrow> heap \<Rightarrow> bool" where
  "extends e K h h' \<longleftrightarrow>
     snd h \<le> snd h' \<and> (\<forall>a j. a < snd h \<longrightarrow> (a = e \<longrightarrow> j \<notin> K) \<longrightarrow> fst h' a j = fst h a j)"

lemma extends_refl [simp]: "extends e K h h"
  by (simp add: extends_def)

lemma extends_trans: "extends e K h h' \<Longrightarrow> extends e K' h' h'' \<Longrightarrow> extends e (K \<union> K') h h''"
  by (fastforce simp: extends_def)

lemma held_extends:
  assumes "held sl e h (n, k, t) v" and "extends e K h h'" and "k \<notin> K" and "e < snd h"
  shows "held sl e h' (n, k, t) v"
proof -
  have "fst h' e k = fst h e k" using assms(2-4) by (simp add: extends_def)
  moreover have "fst h' c j = fst h c j \<and> c < snd h'" if "fst h e k = Some (HObj c)" for c j
    using assms(1,2) that by (auto simp: extends_def held_def)
  ultimately show ?thesis
    using assms(1) by (auto simp: held_def value_at_def str_value_def split: option.splits hval.splits prod.splits if_splits)
qed

lemma extends_write: "extends e {k} h (write_heap e k v h)"
  by (simp add: extends_def write_heap_def)

lemma held_int:
  assumes "int64 i" and "\<not> is_str_type t"
  shows "held sl e (write_heap e k (HInt (word_of_int i)) h) (n, k, t) (IntField i)"
  using assms by (simp add: held_def value_at_def write_heap_def sint_word_of_int)

lemma held_str:
  assumes "is_str_type t" and "dict_get sl ''len'' = Some (li, lt)" and "dict_get sl ''buffer'' = Some (bi, bt)"
    and "li \<noteq> bi" and "e < snd h" and "bytes s (of_nat l) = Some x"
  shows "held sl e (str_heap e k rc li bi s l h) (n, k, t) (StrField x)"
  using assms by (simp add: held_def value_at_def str_value_def str_heap_def Let_def write_heap_def new_object_def)

lemma extends_str: "e < snd h \<Longrightarrow> extends e {k} h (str_heap e k rc li bi s l h)"
  by (auto simp: extends_def str_heap_def Let_def write_heap_def new_object_def)

lemma event_str_bytes:
  assumes "json_get_str ev n = Some (p, l)" and "length ev < 2 ^ 64"
  shows "bytes (drop p ev) (of_nat l) = Some (take l (drop p ev))"
proof -
  have "p + l < length ev" by (rule json_get_str_bounds [OF assms(1)])
  then have "l < 2 ^ 64" "l \<le> length (drop p ev)" using assms(2) by simp_all
  then show ?thesis by (simp add: bytes_def unat_of_nat take_bit_nat_eq_self)
qed

text \<open>The functions the code calls, and the layout of \<open>str\<close>.\<close>

definition c_function :: "string \<Rightarrow> val \<Rightarrow> bool" where
  "c_function n v \<longleftrightarrow> (\<exists>t. v = FuncV n t)"

definition json_runtime :: "json_funcs \<Rightarrow> bool" where
  "json_runtime jf \<longleftrightarrow>
     c_function ''json_get_str'' (jf_get_str jf) \<and> c_function ''json_get_int'' (jf_get_int jf) \<and>
     c_function ''json_open'' (jf_open jf) \<and> c_function ''json_write_str'' (jf_write_str jf) \<and>
     c_function ''json_write_int'' (jf_write_int jf) \<and> c_function ''json_close'' (jf_close jf)"

definition str_layout :: "layout \<Rightarrow> bool" where
  "str_layout sl \<longleftrightarrow>
     (\<exists>rc li bi. dict_get sl ''__ref_count__'' = Some rc \<and> dict_get sl ''len'' = Some li \<and>
        dict_get sl ''buffer'' = Some bi \<and> fst li \<noteq> fst bi)"

text \<open>Whether the first field of the event that cannot be read is an integer whose key is missing
  or malformed.\<close>

fun event_exits :: "string \<Rightarrow> (string \<times> nat \<times> ty) list \<Rightarrow> bool" where
  "event_exits ev [] \<longleftrightarrow> False"
| "event_exits ev (fld # flds) \<longleftrightarrow>
     (if event_value ev fld = None then \<not> is_str_type (snd (snd fld)) \<and> json_get_int ev (fst fld) = Exit1
      else event_exits ev flds)"

text \<open>The code \<open>xs\<close>, with registers from \<open>n\<close> on, reads the fields \<open>flds\<close> of
  the event into the object \<open>es\<close>.\<close>

definition event_code :: "layout \<Rightarrow> obj \<Rightarrow> nat \<Rightarrow> cstate \<Rightarrow> instr list \<Rightarrow> (string \<times> nat \<times> ty) list \<Rightarrow> bool" where
  "event_code sl es n s xs flds \<longleftrightarrow>
     (\<forall>X E m rest e ev cap. langmem X \<longrightarrow> knows E s \<longrightarrow> handle_args ev cap E \<longrightarrow> hvalue E m es = Some (HObj e) \<longrightarrow>
       e < snd (h_heap m) \<longrightarrow>
       (event_exits ev flds \<longrightarrow> hrun X E (numbered n xs @ rest) m = Exits) \<and>
       ((\<forall>fld \<in> set flds. event_value ev fld \<noteq> None) \<longrightarrow>
         (\<exists>m'. hrun X E (numbered n xs @ rest) m = hrun X E rest m' \<and> keeps n m m' \<and>
           h_buffer m' = h_buffer m \<and> extends e ((fst \<circ> snd) ` set flds) (h_heap m) (h_heap m') \<and>
           (\<forall>fld \<in> set flds. \<exists>v. event_value ev fld = Some v \<and> held sl e (h_heap m') fld v))))"

lemma event_codeD:
  assumes "event_code sl es n s xs flds" and "langmem X" and "knows E s" and "handle_args ev cap E"
    and "hvalue E m es = Some (HObj e)" and "e < snd (h_heap m)"
  shows "event_exits ev flds \<Longrightarrow> hrun X E (numbered n xs @ rest) m = Exits"
    and "\<forall>fld \<in> set flds. event_value ev fld \<noteq> None \<Longrightarrow>
      \<exists>m'. hrun X E (numbered n xs @ rest) m = hrun X E rest m' \<and> keeps n m m' \<and>
        h_buffer m' = h_buffer m \<and> extends e ((fst \<circ> snd) ` set flds) (h_heap m) (h_heap m') \<and>
        (\<forall>fld \<in> set flds. \<exists>v. event_value ev fld = Some v \<and> held sl e (h_heap m') fld v)"
  using assms unfolding event_code_def by blast+

lemma event_code_one:
  assumes "\<And>X E m rest e ev cap. \<lbrakk>langmem X; knows E s; handle_args ev cap E; hvalue E m es = Some (HObj e); e < snd (h_heap m);
      event_exits ev [fld]\<rbrakk> \<Longrightarrow> hrun X E (numbered n xs @ rest) m = Exits"
    and "\<And>X E m rest e ev cap v. \<lbrakk>langmem X; knows E s; handle_args ev cap E; hvalue E m es = Some (HObj e); e < snd (h_heap m);
      event_value ev fld = Some v\<rbrakk> \<Longrightarrow>
      \<exists>m'. hrun X E (numbered n xs @ rest) m = hrun X E rest m' \<and> keeps n m m' \<and>
        h_buffer m' = h_buffer m \<and> extends e {fst (snd fld)} (h_heap m) (h_heap m') \<and> held sl e (h_heap m') fld v"
  shows "event_code sl es n s xs [fld]"
  unfolding event_code_def using assms by (simp del: event_exits.simps) blast

lemma read_str_field_code:
  assumes "read_field L (IntT 64) a jf (OVal (ArgV f 0 p)) (OVal (ArgV f 1 q)) es (n, k, t) s = Inr (u, s')" and "ready b s"
    and t: "is_str_type t" and c: "c_function ''lambpie_arena_alloc'' a" "json_runtime jf"
    and "length n < 2 ^ 64" and "old (cs_next s) es"
    and "dict_get (cs_layouts s) ''str'' = Some sl" and "str_layout sl"
  shows "\<exists>xs. adds b s xs s' \<and> event_code sl es (cs_next s) s' xs [(n, k, t)]"
proof -
  obtain at' ft where c: "a = FuncV ''lambpie_arena_alloc'' at'" "jf_get_str jf = FuncV ''json_get_str'' ft"
    using c by (auto simp: json_runtime_def c_function_def)
  obtain rc rt li lt bi bt where sl: "dict_get sl ''__ref_count__'' = Some (rc, rt)" "dict_get sl ''len'' = Some (li, lt)"
    "dict_get sl ''buffer'' = Some (bi, bt)" "li \<noteq> bi"
    using assms(9) by (auto simp: str_layout_def)
  obtain xs where xs: "adds b s xs s'"
    "\<And>X E m rest e ev cap v l. \<lbrakk>langmem X; knows E s'; handle_args ev cap E; hvalue E m es = Some (HObj e);
       e < snd (h_heap m); json_get_str ev n = Some (v, l)\<rbrakk> \<Longrightarrow>
       \<exists>m'. hrun X E (numbered (cs_next s) xs @ rest) m = hrun X E rest m' \<and> keeps (cs_next s) m m' \<and>
         h_buffer m' = h_buffer m \<and> h_heap m' = str_heap e k rc li bi (drop v ev) l (h_heap m)"
    using read_str_run [OF assms(1,2) t c(2,1) assms(6-8) sl(1-3)] by blast
  have "event_code sl es (cs_next s) s' xs [(n, k, t)]"
  proof (rule event_code_one)
    fix X E m rest e ev cap v
    assume *: "langmem X" "knows E s'" "handle_args ev cap E" "hvalue E m es = Some (HObj e)" "e < snd (h_heap m)"
      and v: "event_value ev (n, k, t) = Some v"
    obtain p l where pl: "json_get_str ev n = Some (p, l)" "v = StrField (take l (drop p ev))"
      using v t by (auto simp: event_value_def split: option.splits)
    obtain m' where m': "hrun X E (numbered (cs_next s) xs @ rest) m = hrun X E rest m'" "keeps (cs_next s) m m'"
      "h_buffer m' = h_buffer m" "h_heap m' = str_heap e k rc li bi (drop p ev) l (h_heap m)"
      using xs(2) [OF * pl(1)] by blast
    have "bytes (drop p ev) (of_nat l) = Some (take l (drop p ev))"
      by (rule event_str_bytes [OF pl(1)]) (use *(3) in \<open>simp add: handle_args_def\<close>)
    then have "held sl e (h_heap m') (n, k, t) v"
      unfolding m'(4) pl(2) by (rule held_str [OF t sl(2-4) *(5)])
    then show "\<exists>m'. hrun X E (numbered (cs_next s) xs @ rest) m = hrun X E rest m' \<and> keeps (cs_next s) m m' \<and>
         h_buffer m' = h_buffer m \<and> extends e {fst (snd (n, k, t))} (h_heap m) (h_heap m') \<and> held sl e (h_heap m') (n, k, t) v"
      using m' extends_str [OF *(5)] by (intro exI [of _ m']) simp
  qed (use t in \<open>auto split: if_splits\<close>)
  then show ?thesis using xs(1) by blast
qed

lemma read_int_field_code:
  assumes "read_field L (IntT 64) a jf (OVal (ArgV f 0 p)) (OVal (ArgV f 1 q)) es (n, k, t) s = Inr (u, s')" and "ready b s"
    and t: "\<not> is_str_type t" and c: "json_runtime jf" and "length n < 2 ^ 64" and "old (cs_next s) es"
  shows "\<exists>xs. adds b s xs s' \<and> event_code sl es (cs_next s) s' xs [(n, k, t)]"
proof -
  obtain gt where c: "jf_get_int jf = FuncV ''json_get_int'' gt"
    using c by (auto simp: json_runtime_def c_function_def)
  have i64: "t = IntT 64"
    using assms(1) t by (auto simp: read_field_def split: if_splits)
  obtain xs where xs: "adds b s xs s'"
    "\<And>X E m rest e ev cap i. \<lbrakk>langmem X; knows E s'; handle_args ev cap E; hvalue E m es = Some (HObj e)\<rbrakk> \<Longrightarrow>
     (json_get_int ev n = Exit1 \<longrightarrow> hrun X E (numbered (cs_next s) xs @ rest) m = Exits) \<and>
     (json_get_int ev n = IntValue i \<longrightarrow>
       (\<exists>m'. hrun X E (numbered (cs_next s) xs @ rest) m = hrun X E rest m' \<and> keeps (cs_next s) m m' \<and>
         h_buffer m' = h_buffer m \<and> h_heap m' = write_heap e k (HInt (word_of_int i)) (h_heap m)))"
    using read_int_run [OF assms(1) [unfolded i64] assms(2) c assms(5,6)] by blast
  have "event_code sl es (cs_next s) s' xs [(n, k, t)]"
  proof (rule event_code_one)
    fix X E m rest e ev cap v
    assume *: "langmem X" "knows E s'" "handle_args ev cap E" "hvalue E m es = Some (HObj e)" "e < snd (h_heap m)"
      and v: "event_value ev (n, k, t) = Some v"
    obtain i where i: "json_get_int ev n = IntValue i" "v = IntField i"
      using v t by (auto simp: event_value_def split: int_result.splits)
    obtain m' where m': "hrun X E (numbered (cs_next s) xs @ rest) m = hrun X E rest m'" "keeps (cs_next s) m m'"
      "h_buffer m' = h_buffer m" "h_heap m' = write_heap e k (HInt (word_of_int i)) (h_heap m)"
      using xs(2) [OF *(1-4)] i(1) by blast
    have "held sl e (h_heap m') (n, k, t) v"
      unfolding m'(4) i(2) by (rule held_int [OF json_get_int_int64 [OF i(1)] t])
    then show "\<exists>m'. hrun X E (numbered (cs_next s) xs @ rest) m = hrun X E rest m' \<and> keeps (cs_next s) m m' \<and>
         h_buffer m' = h_buffer m \<and> extends e {fst (snd (n, k, t))} (h_heap m) (h_heap m') \<and> held sl e (h_heap m') (n, k, t) v"
      using m' extends_write by (intro exI [of _ m']) simp
  next
    fix X E m rest e ev cap
    assume *: "langmem X" "knows E s'" "handle_args ev cap E" "hvalue E m es = Some (HObj e)" "event_exits ev [(n, k, t)]"
    then show "hrun X E (numbered (cs_next s) xs @ rest) m = Exits"
      using xs(2) [OF *(1-4)] by (auto split: if_splits)
  qed
  then show ?thesis using xs(1) by blast
qed

lemma read_field_run:
  assumes "read_field L (IntT 64) a jf (OVal (ArgV f 0 p)) (OVal (ArgV f 1 q)) es fld s = Inr (u, s')" and "ready b s"
    and "json_runtime jf" and "c_function ''lambpie_arena_alloc'' a"
    and "length (fst fld) < 2 ^ 64" and "old (cs_next s) es"
    and "dict_get (cs_layouts s) ''str'' = Some sl" and "str_layout sl"
  shows "\<exists>xs. adds b s xs s' \<and> event_code sl es (cs_next s) s' xs [fld]"
proof -
  obtain n k t where fld: "fld = (n, k, t)" by (cases fld) auto
  have n: "length n < 2 ^ 64" using assms(5) by (simp add: fld)
  show ?thesis
    using read_str_field_code [OF assms(1) [unfolded fld] assms(2) _ assms(4,3) n assms(6-8)]
      read_int_field_code [OF assms(1) [unfolded fld] assms(2) _ assms(3) n assms(6), of sl]
    unfolding fld by (cases "is_str_type t") simp_all
qed

text \<open>All fields of the event, into different fields of the object.\<close>

lemma event_code_Cons:
  assumes "event_code sl es n s xs [fld]" and "event_code sl es (n + length xs) s' ys flds"
    and "set (cs_data s) \<subseteq> set (cs_data s')" and "old n es" and "fst (snd fld) \<notin> (fst \<circ> snd) ` set flds"
  shows "event_code sl es n s' (xs @ ys) (fld # flds)"
  unfolding event_code_def
proof (intro allI impI)
  fix X E m rest e ev cap
  assume *: "langmem X" "knows E s'" "handle_args ev cap E" "hvalue E m es = Some (HObj e)" "e < snd (h_heap m)"
  let ?K = "(fst \<circ> snd) ` set flds" and ?ys = "numbered (n + length xs) ys @ rest"
  note one = event_codeD [OF assms(1) *(1) knows_mono [OF *(2) assms(3)] *(3-5), of ?ys]
  have split: "numbered n (xs @ ys) @ rest = numbered n xs @ ?ys" by (simp add: numbered_append)
  show "(event_exits ev (fld # flds) \<longrightarrow> hrun X E (numbered n (xs @ ys) @ rest) m = Exits) \<and>
       ((\<forall>fld \<in> set (fld # flds). event_value ev fld \<noteq> None) \<longrightarrow>
         (\<exists>m'. hrun X E (numbered n (xs @ ys) @ rest) m = hrun X E rest m' \<and> keeps n m m' \<and>
           h_buffer m' = h_buffer m \<and> extends e ((fst \<circ> snd) ` set (fld # flds)) (h_heap m) (h_heap m') \<and>
           (\<forall>fld \<in> set (fld # flds). \<exists>v. event_value ev fld = Some v \<and> held sl e (h_heap m') fld v)))"
  proof (cases "event_value ev fld")
    case None
    then show ?thesis using one(1) by (auto simp: split)
  next
    case (Some v)
    obtain m1 where m1: "hrun X E (numbered n xs @ ?ys) m = hrun X E ?ys m1" "keeps n m m1" "h_buffer m1 = h_buffer m"
      "extends e {fst (snd fld)} (h_heap m) (h_heap m1)" "held sl e (h_heap m1) fld v"
      using one(2) Some by auto
    have es1: "hvalue E m1 es = Some (HObj e)" using hvalue_keeps [OF assms(4) m1(2)] *(4) by simp
    have e1: "e < snd (h_heap m1)" using m1(4) *(5) by (auto simp: extends_def)
    note rest = event_codeD [OF assms(2) *(1-3) es1 e1, of rest]
    show ?thesis
    proof (intro conjI impI)
      assume "event_exits ev (fld # flds)"
      then show "hrun X E (numbered n (xs @ ys) @ rest) m = Exits" using Some rest(1) m1(1) by (simp add: split)
    next
      assume "\<forall>fld \<in> set (fld # flds). event_value ev fld \<noteq> None"
      then obtain m2 where m2: "hrun X E ?ys m1 = hrun X E rest m2" "keeps (n + length xs) m1 m2"
        "h_buffer m2 = h_buffer m1" "extends e ?K (h_heap m1) (h_heap m2)"
        "\<forall>fld \<in> set flds. \<exists>v. event_value ev fld = Some v \<and> held sl e (h_heap m2) fld v"
        using rest(2) by auto
      have "held sl e (h_heap m2) fld v"
        using held_extends [OF _ m2(4) _ e1, of sl "fst fld" "fst (snd fld)" "snd (snd fld)"] m1(5) assms(5) by simp
      moreover have "extends e ((fst \<circ> snd) ` set (fld # flds)) (h_heap m) (h_heap m2)"
        using extends_trans [OF m1(4) m2(4)] by simp
      moreover have "keeps n m m2" using keeps_trans [OF m1(2) m2(2)] by simp
      ultimately show "\<exists>m'. hrun X E (numbered n (xs @ ys) @ rest) m = hrun X E rest m' \<and> keeps n m m' \<and>
           h_buffer m' = h_buffer m \<and> extends e ((fst \<circ> snd) ` set (fld # flds)) (h_heap m) (h_heap m') \<and>
           (\<forall>fld \<in> set (fld # flds). \<exists>v. event_value ev fld = Some v \<and> held sl e (h_heap m') fld v)"
        using m1(1,3) m2 Some by (intro exI [of _ m2]) (simp add: split)
    qed
  qed
qed

lemma read_fields_run:
  assumes "iterS (read_field L (IntT 64) a jf (OVal (ArgV f 0 p)) (OVal (ArgV f 1 q)) es) flds s = Inr (u, s')" and "ready b s"
    and "json_runtime jf" and "c_function ''lambpie_arena_alloc'' a"
    and "\<forall>fld \<in> set flds. length (fst fld) < 2 ^ 64" and "old (cs_next s) es"
    and "dict_get (cs_layouts s) ''str'' = Some sl" and "str_layout sl"
    and "distinct (map (fst \<circ> snd) flds)"
  shows "\<exists>xs. adds b s xs s' \<and> event_code sl es (cs_next s) s' xs flds"
  using assms(1,2,5-7,9)
proof (induction flds arbitrary: s)
  case Nil
  have "adds b s [] s" "event_code sl es (cs_next s) s [] []"
    using Nil(2) keeps_refl extends_refl by (auto simp: adds_def event_code_def)
  then show ?case using Nil by (intro exI [of _ "[]"]) simp
next
  case (Cons fld flds)
  obtain u1 s1 where fld: "read_field L (IntT 64) a jf (OVal (ArgV f 0 p)) (OVal (ArgV f 1 q)) es fld s = Inr (u1, s1)"
    and flds: "iterS (read_field L (IntT 64) a jf (OVal (ArgV f 0 p)) (OVal (ArgV f 1 q)) es) flds s1 = Inr (u, s')"
    using Cons.prems(1) by auto
  have "length (fst fld) < 2 ^ 64" using Cons.prems(3) by simp
  then obtain xs where xs: "adds b s xs s1" "event_code sl es (cs_next s) s1 xs [fld]"
    using read_field_run [OF fld Cons.prems(2) assms(3,4) _ Cons.prems(4,5) assms(8)] by blast
  note a1 = addsD [OF xs(1)]
  have old1: "old (cs_next s1) es" by (rule old_mono [OF Cons.prems(4)]) (simp add: a1(3))
  have lay1: "dict_get (cs_layouts s1) ''str'' = Some sl" using Cons.prems(5) a1(5) by simp
  obtain ys where ys: "adds b s1 ys s'" "event_code sl es (cs_next s1) s' ys flds"
    using Cons.IH [OF flds a1(1) _ old1 lay1] Cons.prems(3,6) by auto
  have "event_code sl es (cs_next s) s' (xs @ ys) (fld # flds)"
    by (rule event_code_Cons [OF xs(2) _ addsD(7) [OF ys(1)] Cons.prems(4)]) (use ys(2) a1(3) Cons.prems(6) in simp_all)
  then show ?case using adds_trans [OF xs(1) ys(1)] by blast
qed

end
