(* ===== verification/HandleCorrect.thy ===== *)
theory HandleCorrect
  imports HandleRead
begin

text \<open>
  The second half of \<open>lambpie_handle\<close>, which writes the response, and the whole function.
\<close>

section \<open>Writing a field\<close>

text \<open>The fields of a response object.\<close>

fun response_values :: "layout \<Rightarrow> heap \<Rightarrow> hval \<Rightarrow> (string \<times> nat \<times> ty) list \<Rightarrow> (string \<times> field_value) list option" where
  "response_values sl h r [] = Some []"
| "response_values sl h r (fld # flds) =
     (case value_at sl h r fld of
        None \<Rightarrow> None
      | Some v \<Rightarrow> map_option ((#) (fst fld, v)) (response_values sl h r flds))"

lemma write_value_bounds:
  assumes "write_value (n, v) (buf, p) = Some (buf', p')" and "p \<le> length buf"
    and "case v of StrField x \<Rightarrow> True | IntField i \<Rightarrow> int64 i"
  shows "length buf' = length buf" "p' \<le> length buf"
  using appends_value [of "(n, v)" p] assms by (auto simp: appends_def split: if_splits)

lemma value_at_int64: "value_at sl h r fld = Some v \<Longrightarrow> case v of StrField x \<Rightarrow> True | IntField i \<Rightarrow> int64 i"
proof -
  have "int64 (sint w)" for w :: "64 word"
    using sint_greater_eq [of w] sint_less [of w] by (simp add: int64_def)
  then show "value_at sl h r fld = Some v \<Longrightarrow> case v of StrField x \<Rightarrow> True | IntField i \<Rightarrow> int64 i"
    by (auto simp: value_at_def split: hval.splits option.splits prod.splits if_splits)
qed

lemma unat_position: "p \<le> length buf \<Longrightarrow> length buf < 2 ^ 64 \<Longrightarrow> unat (of_nat p :: 64 word) = p"
  by (simp add: unat_of_nat take_bit_nat_eq_self)

text \<open>The code \<open>xs\<close>, with registers from \<open>n\<close> on, writes the fields of the object \<open>rs\<close>
  from the position \<open>pos\<close> on; \<open>pos'\<close> is the position behind them.\<close>

definition response_code ::
  "layout \<Rightarrow> obj \<Rightarrow> nat \<Rightarrow> cstate \<Rightarrow> instr list \<Rightarrow> (string \<times> nat \<times> ty) list \<Rightarrow> obj \<Rightarrow> obj \<Rightarrow> bool" where
  "response_code sl rs n s xs flds pos pos' \<longleftrightarrow>
     (\<forall>X E m rest ev cap r p buf' p' vs. langmem X \<longrightarrow> knows E s \<longrightarrow> handle_args ev cap E \<longrightarrow> hvalue E m rs = Some r \<longrightarrow>
       hvalue E m pos = Some (HInt (of_nat p)) \<longrightarrow> p \<le> length (h_buffer m) \<longrightarrow> length (h_buffer m) < 2 ^ 64 \<longrightarrow>
       response_values sl (h_heap m) r flds = Some vs \<longrightarrow> write_values vs (h_buffer m, p) = Some (buf', p') \<longrightarrow>
       (\<exists>m'. hrun X E (numbered n xs @ rest) m = hrun X E rest m' \<and> keeps n m m' \<and> h_heap m' = h_heap m \<and>
         h_buffer m' = buf' \<and> hvalue E m' pos' = Some (HInt (of_nat p'))))"

lemma response_codeD:
  assumes "response_code sl rs n s xs flds pos pos'" and "langmem X" and "knows E s" and "handle_args ev cap E"
    and "hvalue E m rs = Some r" and "hvalue E m pos = Some (HInt (of_nat p))" and "p \<le> length (h_buffer m)"
    and "length (h_buffer m) < 2 ^ 64" and "response_values sl (h_heap m) r flds = Some vs"
    and "write_values vs (h_buffer m, p) = Some (buf', p')"
  shows "\<exists>m'. hrun X E (numbered n xs @ rest) m = hrun X E rest m' \<and> keeps n m m' \<and> h_heap m' = h_heap m \<and>
      h_buffer m' = buf' \<and> hvalue E m' pos' = Some (HInt (of_nat p'))"
  using assms unfolding response_code_def by blast

lemma response_code_one:
  assumes "\<And>X E m rest ev cap r p buf' p' v. \<lbrakk>langmem X; knows E s; handle_args ev cap E; hvalue E m rs = Some r;
      hvalue E m pos = Some (HInt (of_nat p)); p \<le> length (h_buffer m); length (h_buffer m) < 2 ^ 64;
      value_at sl (h_heap m) r fld = Some v; write_value (fst fld, v) (h_buffer m, p) = Some (buf', p')\<rbrakk> \<Longrightarrow>
      \<exists>m'. hrun X E (numbered n xs @ rest) m = hrun X E rest m' \<and> keeps n m m' \<and> h_heap m' = h_heap m \<and>
        h_buffer m' = buf' \<and> hvalue E m' pos' = Some (HInt (of_nat p'))"
  shows "response_code sl rs n s xs [fld] pos pos'"
  unfolding response_code_def
proof (intro allI impI)
  fix X E m rest ev cap r p buf' p' vs
  assume *: "langmem X" "knows E s" "handle_args ev cap E" "hvalue E m rs = Some r"
    "hvalue E m pos = Some (HInt (of_nat p))" "p \<le> length (h_buffer m)" "length (h_buffer m) < 2 ^ 64"
    and vs: "response_values sl (h_heap m) r [fld] = Some vs" and w: "write_values vs (h_buffer m, p) = Some (buf', p')"
  obtain v where v: "value_at sl (h_heap m) r fld = Some v" "vs = [(fst fld, v)]"
    using vs by (auto split: option.splits)
  have "write_value (fst fld, v) (h_buffer m, p) = Some (buf', p')"
    using w by (simp add: v(2) write_values_Nil bind_rzero split: option.splits)
  from assms [OF * v(1) this] show "\<exists>m'. hrun X E (numbered n xs @ rest) m = hrun X E rest m' \<and> keeps n m m' \<and> h_heap m' = h_heap m \<and>
        h_buffer m' = buf' \<and> hvalue E m' pos' = Some (HInt (of_nat p'))" .
qed

lemma write_int_run:
  assumes "write_field L (IntT 64) jf (OVal (ArgV f 2 q)) rs (n, k, IntT 64) pos s = Inr (pos', s')" and "ready b s"
    and "jf_write_int jf = FuncV ''json_write_int'' ft" and "length n < 2 ^ 64"
    and "old (cs_next s) rs" and "old (cs_next s) pos"
  shows "\<exists>xs. adds b s xs s' \<and> response_code sl rs (cs_next s) s' xs [(n, k, IntT 64)] pos pos' \<and> old (cs_next s') pos'"
proof -
  let ?call = "\<lambda>key v. CallI (OVal (jf_write_int jf)) [OVal (ArgV f 2 q), pos, OVal key, key_length (IntT 64) n, OVal v]"
  have "bindS (key_constant L n) (\<lambda>key. bindS (struct_gep L rs k) (\<lambda>fp. bindS (emit L (Load (OVal fp))) (\<lambda>v.
      emit_obj L (?call key v)))) s = Inr (pos', s')"
    using assms(1) by (simp add: write_field_def is_str_type_def)
  then obtain key s1 fp s2 v s3 where key: "key_constant L n s = Inr (key, s1)" and e: "struct_gep L rs k s1 = Inr (fp, s2)"
    "emit L (Load (OVal fp)) s2 = Inr (v, s3)" "emit_obj L (?call key v) s3 = Inr (pos', s')"
    by (elim bindS_InrE) (rule that; assumption)
  note k1 = key_constant_adds [OF key assms(2)]
  have b1: "cs_builder s1 = Some b" using addsD(1) [OF k1(1)] by (simp add: ready_def)
  have n1: "cs_next s1 = cs_next s" using addsD(3) [OF k1(1)] by simp
  obtain t1 where t1: "fp = InstrV (cs_next s1) t1" "s2 = push_all b [Gep rs [i32c 0, i32c k] True] s1"
    by (rule emit_pushD [OF e(1) [unfolded struct_gep_def] b1])
  obtain t2 where t2: "v = InstrV (cs_next s2) t2" "s3 = push_all b [Load (OVal fp)] s2"
    by (rule emit_pushD [OF e(2), where b = b]) (simp_all add: t1 b1)
  obtain w where w: "emit L (?call key v) s3 = Inr (w, s')" "pos' = OVal w"
    using e(3) by (auto simp: emit_obj_def)
  obtain t3 where t3: "w = InstrV (cs_next s3) t3" "s' = push_all b [?call key v] s3"
    by (rule emit_pushD [OF w(1), where b = b]) (simp_all add: t1 t2 b1)
  have n2: "cs_next s2 = Suc (cs_next s)" "cs_next s3 = Suc (Suc (cs_next s))" by (simp_all add: t2 t1 n1)
  let ?n = "cs_next s"
  let ?xs = "[Gep rs [i32c 0, i32c k] True, Load (OVal fp), ?call key v]"
  have "s' = push_all b ?xs s1" by (simp add: t3 t2 t1)
  then have code: "adds b s ?xs s'" "set (cs_data s1) \<subseteq> set (cs_data s')"
    using adds_trans [OF k1(1) adds_push [OF addsD(1) [OF k1(1)], of ?xs]] by simp_all
  have "response_code sl rs ?n s' ?xs [(n, k, IntT 64)] pos pos'"
  proof (rule response_code_one)
    fix X E m rest ev cap r p buf' p' x
    assume X: "langmem X" and E: "knows E s'" "handle_args ev cap E" and rs: "hvalue E m rs = Some r"
      and pos: "hvalue E m pos = Some (HInt (of_nat p))" "p \<le> length (h_buffer m)" "length (h_buffer m) < 2 ^ 64"
      and x: "value_at sl (h_heap m) r (n, k, IntT 64) = Some x"
      and wr: "write_value (fst (n, k, IntT 64), x) (h_buffer m, p) = Some (buf', p')"
    note l = langmemD(1-5,7) [OF X, simplified]
    have kv: "hvalue E m' (OVal key) = Some (HBytes (n @ [char_of (0 :: nat)]))" for m'
      by (rule hvalue_key [OF k1(2) knows_mono [OF E(1) code(2)]])
    have args: "e_args E = [HBytes ev, HInt (of_nat (length ev)), HBuffer, HInt cap]"
      using E(2) by (auto simp: handle_args_def)
    obtain a y where a: "r = HObj a" "fst (h_heap m) a k = Some (HInt y)" "x = IntField (sint y)"
      using x by (auto simp: value_at_def is_str_type_def split: hval.splits option.splits)
    have pos': "hvalue E (set_hreg (Suc ?n) u (set_hreg ?n u' m)) pos = Some (HInt (of_nat p))" for u u'
      using pos(1) assms(6) by (simp add: hvalue_set old_mono)
    have "json_write_int n (sint y) (h_buffer m, p) = Some (buf', p')" using wr by (simp add: a(3))
    then show "\<exists>m'. hrun X E (numbered ?n ?xs @ rest) m = hrun X E rest m' \<and> keeps ?n m m' \<and> h_heap m' = h_heap m \<and>
        h_buffer m' = buf' \<and> hvalue E m' pos' = Some (HInt (of_nat p'))"
      using assms(3) rs a bytes_key [OF assms(4)] unat_position [OF pos(2,3)]
      by (simp add: l(4) t1(1) n1 t2(1) n2 w(2) t3(1))
        (simp add: l pos' kv args key_length_def call_fun_def call_write_int_def write_result_def, rule exI, rule conjI [OF refl], simp)
  qed
  moreover have "old (cs_next s') pos'" by (simp add: w(2) t3 t2 t1)
  ultimately show ?thesis using code(1) by blast
qed

lemma layout_getD: "layout_get n s = Inr (l, s') \<Longrightarrow> dict_get (cs_layouts s) n = Some l \<and> s' = s"
  by (auto simp: layout_get_def split: option.splits)

lemma field_getD: "liftS (field_get l n) s = Inr (v, s') \<Longrightarrow> dict_get l n = Some v \<and> s' = s"
  by (auto simp: field_get_def liftS_def split: option.splits)

text \<open>The code that writes a string field: the \<open>str\<close> object, its bytes, its length, and the
  call.\<close>

lemma write_str_pushD:
  assumes "write_field L (IntT 64) jf resp rs (n, k, t) pos s = Inr (pos', s')" and "ready b s"
    and "is_str_type t" and "dict_get (cs_layouts s) ''str'' = Some sl"
    and "dict_get sl ''len'' = Some (li, lt)" and "dict_get sl ''buffer'' = Some (bi, bt)"
  obtains key ts v s1 where "adds b s [] s1" and "key_value s1 n key"
    and "v = (\<lambda>j. InstrV (cs_next s + j) (ts j))" and "pos' = OVal (v 6)"
    and "s' = push_all b
      [Gep rs [i32c 0, i32c k] True, Load (OVal (v 0)), Gep (OVal (v 1)) [i32c 0, i32c bi] True, Load (OVal (v 2)),
       Gep (OVal (v 1)) [i32c 0, i32c li] True, Load (OVal (v 4)),
       CallI (OVal (jf_write_str jf)) [resp, pos, OVal key, key_length (IntT 64) n, OVal (v 3), OVal (v 5)]] s1"
proof -
  let ?call = "\<lambda>key v l. CallI (OVal (jf_write_str jf)) [resp, pos, OVal key, key_length (IntT 64) n, OVal v, OVal l]"
  have "bindS (key_constant L n) (\<lambda>key. bindS (struct_gep L rs k) (\<lambda>p. bindS (emit L (Load (OVal p))) (\<lambda>c.
      bindS (layout_get ''str'') (\<lambda>layout. bindS (liftS (field_get layout ''buffer'')) (\<lambda>buf_f.
      bindS (struct_gep L (OVal c) (fst buf_f)) (\<lambda>bp. bindS (emit L (Load (OVal bp))) (\<lambda>bv.
      bindS (liftS (field_get layout ''len'')) (\<lambda>len_f. bindS (struct_gep L (OVal c) (fst len_f)) (\<lambda>lp.
      bindS (emit L (Load (OVal lp))) (\<lambda>lv. emit_obj L (?call key bv lv))))))))))) s = Inr (pos', s')"
    using assms(1,3) by (simp add: write_field_def)
  then obtain key s1 w0 s2 w1 s3 layout s3' buf_f s3'' w2 s4 w3 s5 len_f s5' w4 s6 w5 s7
    where key: "key_constant L n s = Inr (key, s1)"
      and e: "struct_gep L rs k s1 = Inr (w0, s2)" "emit L (Load (OVal w0)) s2 = Inr (w1, s3)"
      and lay: "layout_get ''str'' s3 = Inr (layout, s3')" "liftS (field_get layout ''buffer'') s3' = Inr (buf_f, s3'')"
      and f: "struct_gep L (OVal w1) (fst buf_f) s3'' = Inr (w2, s4)" "emit L (Load (OVal w2)) s4 = Inr (w3, s5)"
      and len: "liftS (field_get layout ''len'') s5 = Inr (len_f, s5')"
      and g: "struct_gep L (OVal w1) (fst len_f) s5' = Inr (w4, s6)" "emit L (Load (OVal w4)) s6 = Inr (w5, s7)"
        "emit_obj L (?call key w3 w5) s7 = Inr (pos', s')"
    by (elim bindS_InrE) (rule that; assumption)
  note k1 = key_constant_adds [OF key assms(2)]
  have b1: "cs_builder s1 = Some b" using addsD(1) [OF k1(1)] by (simp add: ready_def)
  have n1: "cs_next s1 = cs_next s" using addsD(3) [OF k1(1)] by simp
  obtain t0 where t0: "w0 = InstrV (cs_next s1) t0" "s2 = push_all b [Gep rs [i32c 0, i32c k] True] s1"
    by (rule emit_pushD [OF e(1) [unfolded struct_gep_def] b1])
  obtain t1 where t1: "w1 = InstrV (cs_next s2) t1" "s3 = push_all b [Load (OVal w0)] s2"
    by (rule emit_pushD [OF e(2), where b = b]) (simp_all add: t0 b1)
  have "cs_layouts s3 = cs_layouts s" using addsD(5) [OF k1(1)] by (simp add: t1 t0)
  then have "layout = sl" "s3' = s3" using layout_getD [OF lay(1)] assms(4) by simp_all
  then have buf: "buf_f = (bi, bt)" "s3'' = s3" and len': "len_f = (li, lt)" "s5' = s5"
    using field_getD [OF lay(2)] field_getD [OF len] assms(5,6) by simp_all
  obtain t2 where t2: "w2 = InstrV (cs_next s3) t2" "s4 = push_all b [Gep (OVal w1) [i32c 0, i32c bi] True] s3"
    by (rule emit_pushD [OF f(1) [unfolded struct_gep_def buf fst_conv], where b = b]) (simp_all add: t1 t0 b1)
  obtain t3 where t3: "w3 = InstrV (cs_next s4) t3" "s5 = push_all b [Load (OVal w2)] s4"
    by (rule emit_pushD [OF f(2), where b = b]) (simp_all add: t2 t1 t0 b1)
  obtain t4 where t4: "w4 = InstrV (cs_next s5) t4" "s6 = push_all b [Gep (OVal w1) [i32c 0, i32c li] True] s5"
    by (rule emit_pushD [OF g(1) [unfolded struct_gep_def len' fst_conv], where b = b]) (simp_all add: t3 t2 t1 t0 b1)
  obtain t5 where t5: "w5 = InstrV (cs_next s6) t5" "s7 = push_all b [Load (OVal w4)] s6"
    by (rule emit_pushD [OF g(2), where b = b]) (simp_all add: t4 t3 t2 t1 t0 b1)
  obtain w6 where w6: "emit L (?call key w3 w5) s7 = Inr (w6, s')" "pos' = OVal w6"
    using g(3) by (auto simp: emit_obj_def)
  obtain t6 where t6: "w6 = InstrV (cs_next s7) t6" "s' = push_all b [?call key w3 w5] s7"
    by (rule emit_pushD [OF w6(1), where b = b]) (simp_all add: t5 t4 t3 t2 t1 t0 b1)
  show thesis
    by (rule that [OF k1, of _ "\<lambda>j. [t0, t1, t2, t3, t4, t5, t6] ! j", OF refl])
      (auto simp: n1 w6(2) t0(1) t1(1) t2(1) t3(1) t4(1) t5(1) t6(1) t0(2) t1(2) t2(2) t3(2) t4(2) t5(2) t6(2) numeral_eq_Suc)
qed

lemma write_str_run:
  assumes "write_field L (IntT 64) jf (OVal (ArgV f 2 q)) rs (n, k, t) pos s = Inr (pos', s')" and "ready b s"
    and "is_str_type t" and "jf_write_str jf = FuncV ''json_write_str'' ft" and "length n < 2 ^ 64"
    and "old (cs_next s) rs" and "old (cs_next s) pos"
    and "dict_get (cs_layouts s) ''str'' = Some sl" and "str_layout sl"
  shows "\<exists>xs. adds b s xs s' \<and> response_code sl rs (cs_next s) s' xs [(n, k, t)] pos pos' \<and> old (cs_next s') pos'"
proof -
  obtain li lt bi bt where sl: "dict_get sl ''len'' = Some (li, lt)" "dict_get sl ''buffer'' = Some (bi, bt)"
    using assms(9) by (auto simp: str_layout_def)
  obtain key ts v s1 where k1: "adds b s [] s1" "key_value s1 n key"
    and v: "v = (\<lambda>j. InstrV (cs_next s + j) (ts j))" "pos' = OVal (v 6)"
    and s': "s' = push_all b
      [Gep rs [i32c 0, i32c k] True, Load (OVal (v 0)), Gep (OVal (v 1)) [i32c 0, i32c bi] True, Load (OVal (v 2)),
       Gep (OVal (v 1)) [i32c 0, i32c li] True, Load (OVal (v 4)),
       CallI (OVal (jf_write_str jf)) [OVal (ArgV f 2 q), pos, OVal key, key_length (IntT 64) n, OVal (v 3), OVal (v 5)]] s1"
    by (rule write_str_pushD [OF assms(1-3,8) sl])
  let ?n = "cs_next s"
  let ?xs = "[Gep rs [i32c 0, i32c k] True, Load (OVal (v 0)), Gep (OVal (v 1)) [i32c 0, i32c bi] True, Load (OVal (v 2)),
       Gep (OVal (v 1)) [i32c 0, i32c li] True, Load (OVal (v 4)),
       CallI (OVal (jf_write_str jf)) [OVal (ArgV f 2 q), pos, OVal key, key_length (IntT 64) n, OVal (v 3), OVal (v 5)]]"
  have code: "adds b s ?xs s'" "set (cs_data s1) \<subseteq> set (cs_data s')"
    using adds_trans [OF k1(1) adds_push [OF addsD(1) [OF k1(1)], of ?xs]] by (simp_all add: s')
  have "response_code sl rs ?n s' ?xs [(n, k, t)] pos pos'"
  proof (rule response_code_one)
    fix X E m rest ev cap r p buf' p' x
    assume X: "langmem X" and E: "knows E s'" "handle_args ev cap E" and rs: "hvalue E m rs = Some r"
      and pos: "hvalue E m pos = Some (HInt (of_nat p))" "p \<le> length (h_buffer m)" "length (h_buffer m) < 2 ^ 64"
      and x: "value_at sl (h_heap m) r (n, k, t) = Some x"
      and wr: "write_value (fst (n, k, t), x) (h_buffer m, p) = Some (buf', p')"
    note l = langmemD(1-5,7) [OF X, simplified]
    have kv: "hvalue E m' (OVal key) = Some (HBytes (n @ [char_of (0 :: nat)]))" for m'
      by (rule hvalue_key [OF k1(2) knows_mono [OF E(1) code(2)]])
    have args: "e_args E = [HBytes ev, HInt (of_nat (length ev)), HBuffer, HInt cap]"
      using E(2) by (auto simp: handle_args_def)
    obtain a c w y z where a: "r = HObj a" "fst (h_heap m) a k = Some (HObj c)"
      "fst (h_heap m) c li = Some (HInt w)" "fst (h_heap m) c bi = Some (HBytes y)" "bytes y w = Some z" "x = StrField z"
      using x assms(3) sl by (auto simp: value_at_def str_value_def split: hval.splits option.splits)
    have old: "old (?n + j) pos" for j by (rule old_mono [OF assms(7)]) simp
    have pos': "hvalue E (set_hreg ?n u m') pos = hvalue E m' pos" "hvalue E (set_hreg (Suc ?n) u m') pos = hvalue E m' pos"
      "hvalue E (set_hreg (Suc (Suc ?n)) u m') pos = hvalue E m' pos"
      "hvalue E (set_hreg (Suc (Suc (Suc ?n))) u m') pos = hvalue E m' pos"
      "hvalue E (set_hreg (Suc (Suc (Suc (Suc ?n)))) u m') pos = hvalue E m' pos"
      "hvalue E (set_hreg (Suc (Suc (Suc (Suc (Suc ?n))))) u m') pos = hvalue E m' pos" for u m'
      using hvalue_set [OF old, of E] by (metis add.right_neutral add_Suc_right)+
    have "json_write_str n z (h_buffer m, p) = Some (buf', p')" using wr by (simp add: a(6))
    then show "\<exists>m'. hrun X E (numbered ?n ?xs @ rest) m = hrun X E rest m' \<and> keeps ?n m m' \<and> h_heap m' = h_heap m \<and>
        h_buffer m' = buf' \<and> hvalue E m' pos' = Some (HInt (of_nat p'))"
      using assms(4) rs a bytes_key [OF assms(5)] unat_position [OF pos(2,3)] pos(1)
      by (simp add: l(4) v)
        (simp add: l pos' kv args key_length_def call_fun_def call_write_str_def write_result_def, rule exI, rule conjI [OF refl], simp)
  qed
  moreover have "old (cs_next s') pos'" using addsD(3) [OF k1(1)] by (simp add: v s')
  ultimately show ?thesis using code(1) by blast
qed

lemma write_field_run:
  assumes "write_field L (IntT 64) jf (OVal (ArgV f 2 q)) rs fld pos s = Inr (pos', s')" and "ready b s"
    and "json_runtime jf" and "length (fst fld) < 2 ^ 64" and "old (cs_next s) rs" and "old (cs_next s) pos"
    and "dict_get (cs_layouts s) ''str'' = Some sl" and "str_layout sl"
  shows "\<exists>xs. adds b s xs s' \<and> response_code sl rs (cs_next s) s' xs [fld] pos pos' \<and> old (cs_next s') pos'"
proof -
  obtain n k t where fld: "fld = (n, k, t)" by (cases fld) auto
  have n: "length n < 2 ^ 64" using assms(4) by (simp add: fld)
  show ?thesis
  proof (cases "is_str_type t")
    case True
    obtain ft where "jf_write_str jf = FuncV ''json_write_str'' ft"
      using assms(3) by (auto simp: json_runtime_def c_function_def)
    from write_str_run [OF assms(1) [unfolded fld] assms(2) True this n assms(5-8)] show ?thesis unfolding fld .
  next
    case False
    then have t: "t = IntT 64"
      using assms(1) by (auto simp: write_field_def fld split: if_splits)
    obtain ft where "jf_write_int jf = FuncV ''json_write_int'' ft"
      using assms(3) by (auto simp: json_runtime_def c_function_def)
    from write_int_run [OF assms(1) [unfolded fld t] assms(2) this n assms(5,6)] show ?thesis unfolding fld t .
  qed
qed

section \<open>All fields of the response\<close>

lemma response_code_Cons:
  assumes "response_code sl rs n s xs [fld] pos pos1" and "response_code sl rs (n + length xs) s' ys flds pos1 pos2"
    and "set (cs_data s) \<subseteq> set (cs_data s')" and "old n rs"
  shows "response_code sl rs n s' (xs @ ys) (fld # flds) pos pos2"
  unfolding response_code_def
proof (intro allI impI)
  fix X E m rest ev cap r p buf2 p2 vs
  assume *: "langmem X" "knows E s'" "handle_args ev cap E" "hvalue E m rs = Some r"
    "hvalue E m pos = Some (HInt (of_nat p))" "p \<le> length (h_buffer m)" "length (h_buffer m) < 2 ^ 64"
    and vs: "response_values sl (h_heap m) r (fld # flds) = Some vs"
    and w: "write_values vs (h_buffer m, p) = Some (buf2, p2)"
  let ?ys = "numbered (n + length xs) ys @ rest"
  obtain v us where v: "value_at sl (h_heap m) r fld = Some v" "response_values sl (h_heap m) r flds = Some us"
    "vs = (fst fld, v) # us"
    using vs by (auto split: option.splits)
  obtain buf1 p1 where w1: "write_value (fst fld, v) (h_buffer m, p) = Some (buf1, p1)" "write_values us (buf1, p1) = Some (buf2, p2)"
    using w by (auto simp: v(3) bind_eq_Some_conv)
  note bounds = write_value_bounds [OF w1(1) *(6) value_at_int64 [OF v(1)]]
  have one: "response_values sl (h_heap m) r [fld] = Some [(fst fld, v)]"
    "write_values [(fst fld, v)] (h_buffer m, p) = Some (buf1, p1)"
    by (simp_all add: v(1) w1(1))
  obtain m1 where m1: "hrun X E (numbered n xs @ ?ys) m = hrun X E ?ys m1" "keeps n m m1" "h_heap m1 = h_heap m"
    "h_buffer m1 = buf1" "hvalue E m1 pos1 = Some (HInt (of_nat p1))"
    using response_codeD [OF assms(1) *(1) knows_mono [OF *(2) assms(3)] *(3-7) one] by blast
  have rs1: "hvalue E m1 rs = Some r" using hvalue_keeps [OF assms(4) m1(2)] *(4) by simp
  obtain m2 where m2: "hrun X E ?ys m1 = hrun X E rest m2" "keeps (n + length xs) m1 m2" "h_heap m2 = h_heap m1"
    "h_buffer m2 = buf2" "hvalue E m2 pos2 = Some (HInt (of_nat p2))"
    using response_codeD [OF assms(2) *(1-3) rs1 m1(5), of us buf2 p2 rest] v(2) w1(2) m1(3,4) bounds *(7) by auto
  show "\<exists>m'. hrun X E (numbered n (xs @ ys) @ rest) m = hrun X E rest m' \<and> keeps n m m' \<and> h_heap m' = h_heap m \<and>
      h_buffer m' = buf2 \<and> hvalue E m' pos2 = Some (HInt (of_nat p2))"
    using m1 m2 keeps_trans [OF m1(2) m2(2)] by (intro exI [of _ m2]) (simp add: numbered_append)
qed

lemma write_fields_run:
  assumes "write_fields L (IntT 64) jf (OVal (ArgV f 2 q)) rs flds pos s = Inr (pos', s')" and "ready b s"
    and "json_runtime jf" and "\<forall>fld \<in> set flds. length (fst fld) < 2 ^ 64" and "old (cs_next s) rs" and "old (cs_next s) pos"
    and "dict_get (cs_layouts s) ''str'' = Some sl" and "str_layout sl"
  shows "\<exists>xs. adds b s xs s' \<and> response_code sl rs (cs_next s) s' xs flds pos pos' \<and> old (cs_next s') pos'"
  using assms(1,2,4-7)
proof (induction flds arbitrary: s pos)
  case Nil
  have "adds b s [] s" "response_code sl rs (cs_next s) s [] [] pos pos"
    using Nil(2) keeps_refl by (auto simp: adds_def response_code_def)
  then show ?case using Nil by (intro exI [of _ "[]"]) simp
next
  case (Cons fld flds)
  obtain pos1 s1 where fld: "write_field L (IntT 64) jf (OVal (ArgV f 2 q)) rs fld pos s = Inr (pos1, s1)"
    and flds: "write_fields L (IntT 64) jf (OVal (ArgV f 2 q)) rs flds pos1 s1 = Inr (pos', s')"
    using Cons.prems(1) by auto
  have "length (fst fld) < 2 ^ 64" using Cons.prems(3) by simp
  then obtain xs where xs: "adds b s xs s1" "response_code sl rs (cs_next s) s1 xs [fld] pos pos1" "old (cs_next s1) pos1"
    using write_field_run [OF fld Cons.prems(2) assms(3) _ Cons.prems(4-6) assms(8)] by blast
  note a1 = addsD [OF xs(1)]
  have old1: "old (cs_next s1) rs" by (rule old_mono [OF Cons.prems(4)]) (simp add: a1(3))
  have lay1: "dict_get (cs_layouts s1) ''str'' = Some sl" using Cons.prems(6) a1(5) by simp
  obtain ys where ys: "adds b s1 ys s'" "response_code sl rs (cs_next s1) s' ys flds pos1 pos'" "old (cs_next s') pos'"
    using Cons.IH [OF flds a1(1) _ old1 xs(3) lay1] Cons.prems(3) by auto
  have "response_code sl rs (cs_next s) s' (xs @ ys) (fld # flds) pos pos'"
    by (rule response_code_Cons [OF xs(2) _ addsD(7) [OF ys(1)] Cons.prems(4)]) (use ys(2) a1(3) in simp)
  then show ?case using adds_trans [OF xs(1) ys(1)] ys(3) by blast
qed

lemma write_values_bounds:
  assumes "write_values vs (buf, p) = Some (buf', p')" and "p \<le> length buf" and "response_values sl h r flds = Some vs"
  shows "length buf' = length buf \<and> p' \<le> length buf"
  using assms
proof (induction flds arbitrary: vs buf p)
  case (Cons fld flds)
  obtain v us where v: "value_at sl h r fld = Some v" "response_values sl h r flds = Some us" "vs = (fst fld, v) # us"
    using Cons.prems(3) by (auto split: option.splits)
  obtain buf1 p1 where w1: "write_value (fst fld, v) (buf, p) = Some (buf1, p1)" "write_values us (buf1, p1) = Some (buf', p')"
    using Cons.prems(1) by (auto simp: v(3) bind_eq_Some_conv)
  note b = write_value_bounds [OF w1(1) Cons.prems(2) value_at_int64 [OF v(1)]]
  show ?case using Cons.IH [OF w1(2) _ v(2)] b by simp
qed simp

section \<open>The whole function\<close>

text \<open>The object for the event and its reference count.\<close>

lemma event_object_run:
  assumes "bindS (object_size L t (IntT 64)) (\<lambda>sz. bindS (global_get ''lambpie_arena_alloc'') (\<lambda>a.
      bindS (object_at L t ARENA_REQ a sz) (\<lambda>e. bindS (store_field L (OVal e) 0 (i32c 1)) (\<lambda>_. g e a)))) s = Inr (u, s')"
    and "ready b s" and "dict_get (cs_globals s) ''lambpie_arena_alloc'' = Some a" and "c_function ''lambpie_arena_alloc'' a"
  obtains q tq s1 xs where "g (InstrV q tq) a s1 = Inr (u, s')" and "adds b s xs s1" and "q < cs_next s1"
    and "\<And>X E m rest. langmem X \<Longrightarrow> \<exists>m' e. hrun X E (numbered (cs_next s) xs @ rest) m = hrun X E rest m' \<and>
        h_regs m' q = Some (HObj e) \<and> e < snd (h_heap m') \<and> h_buffer m' = h_buffer m"
proof -
  obtain sz s1 a' s1' e s2 u1 s3 where o: "object_size L t (IntT 64) s = Inr (sz, s1)"
    "global_get ''lambpie_arena_alloc'' s1 = Inr (a', s1')" "object_at L t ARENA_REQ a' sz s1' = Inr (e, s2)"
    "store_field L (OVal e) 0 (i32c 1) s2 = Inr (u1, s3)" and g: "g e a' s3 = Inr (u, s')"
    using assms(1) by (elim bindS_InrE) (rule that; assumption)
  have b: "cs_builder s = Some b" using assms(2) by (simp add: ready_def)
  obtain t1 t2 where sz: "sz = InstrV (cs_next s + 1) t2"
    "s1 = push_all b [Gep (OVal (NullV t)) [i32c 1] False, PtrToInt (OVal (InstrV (cs_next s) t1)) (IntT 64)] s"
    by (rule object_size_pushD [OF o(1) b])
  have a': "a' = a" "s1' = s1" using o(2) assms(3) by (simp_all add: global_get_def sz)
  obtain t3 t4 where e: "e = InstrV (cs_next s1 + 1) t4"
    "s2 = push_all b [CallI (OVal a) [i32c ARENA_REQ, OVal sz], Bitcast (OVal (InstrV (cs_next s1) t3)) t] s1"
    by (rule object_at_pushD [OF o(3) [unfolded a'], where b = b]) (simp_all add: sz b)
  obtain t5 where t5: "s3 = push_all b (store_code (OVal e) 0 (i32c 1) (InstrV (cs_next s2) t5)) s2"
    by (rule store_field_pushD [OF o(4)]) (simp add: e sz b)
  let ?n = "cs_next s"
  let ?xs = "[Gep (OVal (NullV t)) [i32c 1] False, PtrToInt (OVal (InstrV ?n t1)) (IntT 64),
      CallI (OVal a) [i32c ARENA_REQ, OVal (InstrV (?n + 1) t2)], Bitcast (OVal (InstrV (?n + 2) t3)) t] @
      store_code (OVal (InstrV (?n + 3) t4)) 0 (i32c 1) (InstrV (?n + 4) t5)"
  have s3: "s3 = push_all b ?xs s" by (simp add: t5 e sz push_all_append numeral_eq_Suc)
  have adds: "adds b s ?xs s3" unfolding s3 by (rule adds_push [OF assms(2)])
  have "g (InstrV (?n + 3) t4) a s3 = Inr (u, s')" using g by (simp add: a'(1) e(1) sz(2) numeral_eq_Suc)
  then show thesis
  proof (rule that [OF _ adds])
    show "?n + 3 < cs_next s3" using addsD(3) [OF adds] by simp
    fix X E m rest assume X: "langmem X"
    note lm = langmemD(1-5,7) [OF X, simplified] langmemD(4) [OF X, where j = 0, simplified]
    obtain w where w: "\<forall>E k m p t u. hvalue E m p = Some (HSize t) \<longrightarrow>
        X E k (PtrToInt p u) m = Some (set_hreg k (HInt (w E k m p u)) m)"
      by (rule langmem_size [OF X])
    obtain ft where a: "a = FuncV ''lambpie_arena_alloc'' ft" using assms(4) by (auto simp: c_function_def)
    show "\<exists>m' e. hrun X E (numbered ?n ?xs @ rest) m = hrun X E rest m' \<and>
        h_regs m' (?n + 3) = Some (HObj e) \<and> e < snd (h_heap m') \<and> h_buffer m' = h_buffer m"
      by (simp add: lm w a store_code_def call_fun_def call_alloc_def write_heap_def new_object_def,
          rule exI, rule conjI [OF refl], simp)
  qed
qed

text \<open>What the function does with the event object, after the fields were read.\<close>

lemma handle_tail_adds:
  assumes "bindS (global_get ''handle'') (\<lambda>user_handle.
     bindS (emit L (CallI (OVal user_handle) [OVal (InstrV q tq)])) (\<lambda>response_struct.
     bindS (emit_obj L (CallI (OVal (jf_open jf)) [OVal (ArgV f 2 p), OVal (ConstV (IntT 64) (CInt 0))])) (\<lambda>pos0.
     bindS (write_fields L (IntT 64) jf (OVal (ArgV f 2 p)) (OVal response_struct) flds pos0) (\<lambda>pos.
     bindS (emit_obj L (CallI (OVal (jf_close jf)) [OVal (ArgV f 2 p), pos])) (\<lambda>pos_final.
       emit_unit L (Ret pos_final)))))) s = Inr (u, s')"
    and "ready b s" and "q < cs_next s" and "dict_get (cs_globals s) ''handle'' = Some h"
    and "json_runtime jf" and "\<forall>fld \<in> set flds. length (fst fld) < 2 ^ 64"
    and "dict_get (cs_layouts s) ''str'' = Some sl" and "str_layout sl"
  obtains t1 t2 t3 ys s3 pos where
    "adds b s (([CallI (OVal h) [OVal (InstrV q tq)],
       CallI (OVal (jf_open jf)) [OVal (ArgV f 2 p), OVal (ConstV (IntT 64) (CInt 0))]] @ ys) @
       [CallI (OVal (jf_close jf)) [OVal (ArgV f 2 p), pos], Ret (OVal (InstrV (cs_next s3) t3))]) s'"
    "response_code sl (OVal (InstrV (cs_next s) t1)) (cs_next s + 2) s3 ys flds (OVal (InstrV (Suc (cs_next s)) t2)) pos"
    "cs_next s3 = cs_next s + 2 + length ys" "\<And>E. knows E s' \<Longrightarrow> knows E s3"
proof -
  obtain h0 s0 r s1 pos0 s2 pos s3 pos_final s4 where g: "global_get ''handle'' s = Inr (h0, s0)"
    and c: "emit L (CallI (OVal h0) [OVal (InstrV q tq)]) s0 = Inr (r, s1)"
    and o: "emit_obj L (CallI (OVal (jf_open jf)) [OVal (ArgV f 2 p), OVal (ConstV (IntT 64) (CInt 0))]) s1 = Inr (pos0, s2)"
    and w: "write_fields L (IntT 64) jf (OVal (ArgV f 2 p)) (OVal r) flds pos0 s2 = Inr (pos, s3)"
    and cl: "emit_obj L (CallI (OVal (jf_close jf)) [OVal (ArgV f 2 p), pos]) s3 = Inr (pos_final, s4)"
    and ret: "emit_unit L (Ret pos_final) s4 = Inr (u, s')"
    using assms(1) by (elim bindS_InrE) (rule that; assumption)
  have b: "cs_builder s = Some b" using assms(2) by (simp add: ready_def)
  have h0: "h0 = h" "s0 = s" using g assms(4) by (auto simp: global_get_def)
  obtain t1 where t1: "r = InstrV (cs_next s) t1" "s1 = push_all b [CallI (OVal h) [OVal (InstrV q tq)]] s"
    by (rule emit_pushD [OF c [unfolded h0] b])
  obtain v where v: "emit L (CallI (OVal (jf_open jf)) [OVal (ArgV f 2 p), OVal (ConstV (IntT 64) (CInt 0))]) s1 = Inr (v, s2)" "pos0 = OVal v"
    using o by (auto simp: emit_obj_def)
  obtain t2 where t2: "v = InstrV (cs_next s1) t2"
    "s2 = push_all b [CallI (OVal (jf_open jf)) [OVal (ArgV f 2 p), OVal (ConstV (IntT 64) (CInt 0))]] s1"
    by (rule emit_pushD [OF v(1), where b = b]) (simp_all add: t1 b)
  let ?n = "cs_next s"
  let ?xs = "[CallI (OVal h) [OVal (InstrV q tq)], CallI (OVal (jf_open jf)) [OVal (ArgV f 2 p), OVal (ConstV (IntT 64) (CInt 0))]]"
  have a2: "adds b s ?xs s2" using adds_push [OF assms(2), of ?xs] by (simp add: t1 t2)
  have n2: "cs_next s2 = ?n + 2" using addsD(3) [OF a2] by simp
  have pos0: "pos0 = OVal (InstrV (Suc ?n) t2)" by (simp add: v(2) t2(1) t1(2))
  have lay2: "dict_get (cs_layouts s2) ''str'' = Some sl" using addsD(5) [OF a2] assms(7) by simp
  have olds: "old (cs_next s2) (OVal r)" "old (cs_next s2) pos0" by (simp_all add: t1(1) pos0 n2)
  obtain ys where ys: "adds b s2 ys s3" "response_code sl (OVal r) (cs_next s2) s3 ys flds pos0 pos"
    using write_fields_run [OF w addsD(1) [OF a2] assms(5,6) olds lay2 assms(8)] by blast
  obtain x where x: "emit L (CallI (OVal (jf_close jf)) [OVal (ArgV f 2 p), pos]) s3 = Inr (x, s4)" "pos_final = OVal x"
    using cl by (auto simp: emit_obj_def)
  have b3: "cs_builder s3 = Some b" using addsD(1) [OF ys(1)] by (simp add: ready_def)
  obtain t3 where t3: "x = InstrV (cs_next s3) t3" "s4 = push_all b [CallI (OVal (jf_close jf)) [OVal (ArgV f 2 p), pos]] s3"
    by (rule emit_pushD [OF x(1) b3])
  have s': "s' = push_all b [Ret pos_final] s4" by (rule emit_unit_pushD [OF ret]) (simp add: t3 b3)
  let ?zs = "[CallI (OVal (jf_close jf)) [OVal (ArgV f 2 p), pos], Ret (OVal (InstrV (cs_next s3) t3))]"
  have a3: "adds b s3 ?zs s'" using adds_push [OF addsD(1) [OF ys(1)], of ?zs] by (simp add: s' t3 x(2))
  show thesis
    by (rule that [OF adds_trans [OF adds_trans [OF a2 ys(1)] a3] _ _ knows_mono [OF _ addsD(7) [OF a3]]])
      (use ys addsD(3) [OF ys(1)] in \<open>simp_all add: t1(1) pos0 n2\<close>)
qed

text \<open>Running it.\<close>

lemma handle_tail_run:
  assumes "bindS (global_get ''handle'') (\<lambda>user_handle.
     bindS (emit L (CallI (OVal user_handle) [OVal (InstrV q tq)])) (\<lambda>response_struct.
     bindS (emit_obj L (CallI (OVal (jf_open jf)) [OVal (ArgV f 2 p), OVal (ConstV (IntT 64) (CInt 0))])) (\<lambda>pos0.
     bindS (write_fields L (IntT 64) jf (OVal (ArgV f 2 p)) (OVal response_struct) flds pos0) (\<lambda>pos.
     bindS (emit_obj L (CallI (OVal (jf_close jf)) [OVal (ArgV f 2 p), pos])) (\<lambda>pos_final.
       emit_unit L (Ret pos_final)))))) s = Inr (u, s')"
    and "ready b s" and "q < cs_next s" and "dict_get (cs_globals s) ''handle'' = Some h" and "c_function ''handle'' h"
    and "json_runtime jf" and "\<forall>fld \<in> set flds. length (fst fld) < 2 ^ 64"
    and "dict_get (cs_layouts s) ''str'' = Some sl" and "str_layout sl"
  obtains xs where "adds b s xs s'" and
    "\<And>X E m ev cap e r h' vs buf' n. \<lbrakk>langmem X; knows E s'; handle_args ev cap E; h_regs m q = Some e;
       length (h_buffer m) < 2 ^ 64; e_user E e (h_heap m) = Some (r, h');
       response_values sl h' r flds = Some vs; write_response vs (h_buffer m) = Some (buf', n)\<rbrakk> \<Longrightarrow>
       \<exists>m'. hrun X E (numbered (cs_next s) xs) m = Returns (HInt (of_nat n)) m' \<and> h_buffer m' = buf'"
proof -
  let ?n = "cs_next s"
  let ?xs = "[CallI (OVal h) [OVal (InstrV q tq)], CallI (OVal (jf_open jf)) [OVal (ArgV f 2 p), OVal (ConstV (IntT 64) (CInt 0))]]"
  let ?zs = "\<lambda>s3 t3 pos. [CallI (OVal (jf_close jf)) [OVal (ArgV f 2 p), pos], Ret (OVal (InstrV (cs_next s3) t3))]"
  obtain t1 t2 t3 ys s3 pos where all: "adds b s ((?xs @ ys) @ ?zs s3 t3 pos) s'"
    and ys: "response_code sl (OVal (InstrV ?n t1)) (?n + 2) s3 ys flds (OVal (InstrV (Suc ?n) t2)) pos"
    and n3: "cs_next s3 = ?n + 2 + length ys" and knows: "\<And>E. knows E s' \<Longrightarrow> knows E s3"
    by (rule handle_tail_adds [OF assms(1-4,6-9)]) (rule that)
  let ?zs = "?zs s3 t3 pos"
  show thesis
  proof (rule that [OF all])
    fix X E and m :: hstate and ev cap e r' h' vs buf' n
    assume *: "langmem X" "knows E s'" "handle_args ev cap E" and q: "h_regs m q = Some e" and len: "length (h_buffer m) < 2 ^ 64"
      and user: "e_user E e (h_heap m) = Some (r', h')" and vs: "response_values sl h' r' flds = Some vs"
      and wr: "write_response vs (h_buffer m) = Some (buf', n)"
    have args: "e_args E = [HBytes ev, HInt (of_nat (length ev)), HBuffer, HInt cap]" using *(3) by (simp add: handle_args_def)
    obtain buf1 p1 buf2 p2 where b1: "json_open (h_buffer m, 0) = Some (buf1, p1)" and b2: "write_values vs (buf1, p1) = Some (buf2, p2)"
      and b3: "json_close (buf2, p2) = Some (buf', n)"
      using wr by (auto simp: write_response_def bind_eq_Some_conv)
    have l1: "p1 = 1" "length buf1 = length (h_buffer m)" "1 \<le> length (h_buffer m)"
      using b1 by (auto simp: json_open_def put_def Suc_le_eq split: if_splits)
    have l2: "length buf2 = length (h_buffer m)" "p2 \<le> length (h_buffer m)"
      using write_values_bounds [OF b2 _ vs] l1 by simp_all
    obtain ft ot ct where fs: "h = FuncV ''handle'' ft" "jf_open jf = FuncV ''json_open'' ot" "jf_close jf = FuncV ''json_close'' ct"
      using assms(5,6) by (auto simp: c_function_def json_runtime_def)
    let ?m1 = "set_hreg (Suc ?n) (HInt (of_nat p1)) (set_hreg ?n r' (m\<lparr>h_heap := h'\<rparr>)\<lparr>h_buffer := buf1\<rparr>)"
    have run1: "hrun X E (numbered ?n ?xs @ rest) m = hrun X E rest ?m1" for rest
      by (simp add: fs call_fun_def call_user_def call_bracket_def write_result_def q user args b1)
    obtain m2 where m2: "hrun X E (numbered (?n + 2) ys @ numbered (cs_next s3) ?zs) ?m1 = hrun X E (numbered (cs_next s3) ?zs) m2"
      "h_buffer m2 = buf2" "hvalue E m2 pos = Some (HInt (of_nat p2))"
      using response_codeD [OF ys *(1) knows [OF *(2)] *(3), where m = ?m1 and r = r' and p = p1 and vs = vs and rest = "numbered (cs_next s3) ?zs"]
        l1 len vs b2 by auto
    have "unat (of_nat p2 :: 64 word) = p2" by (rule unat_position [OF l2(2) len])
    then have run3: "hrun X E (numbered (cs_next s3) ?zs) m2 =
        Returns (HInt (of_nat n)) (set_hreg (cs_next s3) (HInt (of_nat n)) (m2\<lparr>h_buffer := buf'\<rparr>))"
      by (simp add: fs call_fun_def call_bracket_def write_result_def args m2(2,3) b3)
    show "\<exists>m'. hrun X E (numbered ?n ((?xs @ ys) @ ?zs)) m = Returns (HInt (of_nat n)) m' \<and> h_buffer m' = buf'"
      using run1 [of "numbered (?n + 2) ys @ numbered (cs_next s3) ?zs"] m2(1) run3 n3
      by (simp add: numbered_append)
  qed
qed

lemma adds_from_empty: "adds b s xs s' \<Longrightarrow> code s b = [] \<Longrightarrow> code s' b = numbered (cs_next s) xs"
  by (simp add: adds_def)

text \<open>The whole function, with the block \<open>b\<close> it starts in.\<close>

lemma handle_pieces:
  assumes "synthesize_handle L p (IntT 64) jf t el rl s = Inr (u, s')" and "b = length (cs_blocks s)"
    and "dict_get (cs_globals s) ''lambpie_arena_alloc'' = Some a" and "c_function ''lambpie_arena_alloc'' a"
    and "dict_get (cs_globals s) ''handle'' = Some h" and "c_function ''handle'' h" and "json_runtime jf"
    and "dict_get (cs_layouts s) ''str'' = Some sl" and "str_layout sl"
    and "distinct (map (fst \<circ> snd) (layout_fields el))"
    and "\<forall>fld \<in> set (layout_fields el) \<union> set (layout_fields rl). length (fst fld) < 2 ^ 64"
  obtains q tq n0 n1 n2 xs ys zs s4 where
    "code s' b = numbered n0 xs @ numbered n1 ys @ numbered n2 zs" and "q < n1"
    and "\<And>X E m rest. langmem X \<Longrightarrow> \<exists>m' e. hrun X E (numbered n0 xs @ rest) m = hrun X E rest m' \<and>
        h_regs m' q = Some (HObj e) \<and> e < snd (h_heap m') \<and> h_buffer m' = h_buffer m"
    and "event_code sl (OVal (InstrV q tq)) n1 s4 ys (layout_fields el)" and "\<And>E. knows E s' \<Longrightarrow> knows E s4"
    and "\<And>X E m ev cap e r h' vs buf' n. \<lbrakk>langmem X; knows E s'; handle_args ev cap E; h_regs m q = Some e;
       length (h_buffer m) < 2 ^ 64; e_user E e (h_heap m) = Some (r, h');
       response_values sl h' r (layout_fields rl) = Some vs; write_response vs (h_buffer m) = Some (buf', n)\<rbrakk> \<Longrightarrow>
       \<exists>m'. hrun X E (numbered n2 zs) m = Returns (HInt (of_nat n)) m' \<and> h_buffer m' = buf'"
proof -
  obtain f fv s1 b' s2 where run: "new_function L ''lambpie_handle'' (FunT (IntT 64) [p, IntT 64, p, IntT 64] False) s = Inr ((f, fv), s1)"
    "append_block f ''entry'' s1 = Inr (b', s2)"
    "handle_code L p (IntT 64) jf t el rl f (s2\<lparr>cs_builder := Some b', cs_locals := [], cs_arena := ARENA_REQ\<rparr>) = Inr (u, s')"
    using assms(1) by (auto simp: synthesize_handle_code position_at_end_def)
  let ?s0 = "s2\<lparr>cs_builder := Some b', cs_locals := [], cs_arena := ARENA_REQ\<rparr>"
  have b': "b' = b" and s0: "ready b ?s0" "code ?s0 b = []" "cs_layouts ?s0 = cs_layouts s" "cs_globals ?s0 = cs_globals s"
    using new_function_InrD [OF run(1)] run(2) assms(2) by (auto simp: append_block_def ready_def code_def)
  have ga: "dict_get (cs_globals ?s0) ''lambpie_arena_alloc'' = Some a" using s0(4) assms(3) by simp
  note object = event_object_run [OF run(3) [unfolded handle_code_def Let_def] s0(1) ga assms(4)]
  obtain q tq s3 xs where o: "bindS (iterS (read_field L (IntT 64) a jf (OVal (ArgV f 0 p)) (OVal (ArgV f 1 (IntT 64))) (OVal (InstrV q tq)))
       (layout_fields el)) (\<lambda>_.
     bindS (global_get ''handle'') (\<lambda>user_handle.
     bindS (emit L (CallI (OVal user_handle) [OVal (InstrV q tq)])) (\<lambda>response_struct.
     bindS (emit_obj L (CallI (OVal (jf_open jf)) [OVal (ArgV f 2 p), OVal (ConstV (IntT 64) (CInt 0))])) (\<lambda>pos0.
     bindS (write_fields L (IntT 64) jf (OVal (ArgV f 2 p)) (OVal response_struct) (layout_fields rl) pos0) (\<lambda>pos.
     bindS (emit_obj L (CallI (OVal (jf_close jf)) [OVal (ArgV f 2 p), pos])) (\<lambda>pos_final.
       emit_unit L (Ret pos_final))))))) s3 = Inr (u, s')"
    and xs: "adds b ?s0 xs s3" and q: "q < cs_next s3"
    and obj: "\<And>X E m rest. langmem X \<Longrightarrow> \<exists>m' e. hrun X E (numbered (cs_next ?s0) xs @ rest) m = hrun X E rest m' \<and>
        h_regs m' q = Some (HObj e) \<and> e < snd (h_heap m') \<and> h_buffer m' = h_buffer m"
    by (rule object) (rule that)
  from o obtain u1 s4 where reads: "iterS (read_field L (IntT 64) a jf (OVal (ArgV f 0 p)) (OVal (ArgV f 1 (IntT 64)))
      (OVal (InstrV q tq))) (layout_fields el) s3 = Inr (u1, s4)"
    and tail: "bindS (global_get ''handle'') (\<lambda>user_handle.
     bindS (emit L (CallI (OVal user_handle) [OVal (InstrV q tq)])) (\<lambda>response_struct.
     bindS (emit_obj L (CallI (OVal (jf_open jf)) [OVal (ArgV f 2 p), OVal (ConstV (IntT 64) (CInt 0))])) (\<lambda>pos0.
     bindS (write_fields L (IntT 64) jf (OVal (ArgV f 2 p)) (OVal response_struct) (layout_fields rl) pos0) (\<lambda>pos.
     bindS (emit_obj L (CallI (OVal (jf_close jf)) [OVal (ArgV f 2 p), pos])) (\<lambda>pos_final.
       emit_unit L (Ret pos_final)))))) s4 = Inr (u, s')"
    by (rule bindS_InrE) (rule that)
  note a3 = addsD [OF xs]
  have lay3: "dict_get (cs_layouts s3) ''str'' = Some sl" using a3(5) s0(3) assms(8) by simp
  have names: "\<forall>fld \<in> set (layout_fields el). length (fst fld) < 2 ^ 64" "\<forall>fld \<in> set (layout_fields rl). length (fst fld) < 2 ^ 64"
    using assms(11) by blast+
  have oldq: "old (cs_next s3) (OVal (InstrV q tq))" using q by simp
  obtain ys where ys: "adds b s3 ys s4" "event_code sl (OVal (InstrV q tq)) (cs_next s3) s4 ys (layout_fields el)"
    using read_fields_run [OF reads a3(1) assms(7,4) names(1) oldq lay3 assms(9,10)] by blast
  note a4 = addsD [OF ys(1)]
  have q4: "q < cs_next s4" using q a4(3) by simp
  have g4: "dict_get (cs_globals s4) ''handle'' = Some h" using a4(6) a3(6) s0(4) assms(5) by simp
  have lay4: "dict_get (cs_layouts s4) ''str'' = Some sl" using a4(5) lay3 by simp
  obtain zs where zs: "adds b s4 zs s'"
    and run_zs: "\<And>X E m ev cap e r h' vs buf' n. \<lbrakk>langmem X; knows E s'; handle_args ev cap E; h_regs m q = Some e;
       length (h_buffer m) < 2 ^ 64; e_user E e (h_heap m) = Some (r, h');
       response_values sl h' r (layout_fields rl) = Some vs; write_response vs (h_buffer m) = Some (buf', n)\<rbrakk> \<Longrightarrow>
       \<exists>m'. hrun X E (numbered (cs_next s4) zs) m = Returns (HInt (of_nat n)) m' \<and> h_buffer m' = buf'"
    by (rule handle_tail_run [OF tail a4(1) q4 g4 assms(6,7) names(2) lay4 assms(9)]) (rule that)
  have "code s' b = numbered (cs_next ?s0) xs @ numbered (cs_next s3) ys @ numbered (cs_next s4) zs"
    using adds_from_empty [OF adds_trans [OF adds_trans [OF xs ys(1)] zs] s0(2)] a3(3) a4(3) by (simp add: numbered_append)
  then show thesis by (rule that [OF _ q obj ys(2) knows_mono [OF _ addsD(7) [OF zs]] run_zs])
qed

text \<open>The whole function, run.\<close>

lemma handle_runs:
  assumes "synthesize_handle L p (IntT 64) jf t el rl s = Inr (u, s')" and "b = length (cs_blocks s)"
    and "dict_get (cs_globals s) ''lambpie_arena_alloc'' = Some a" and "c_function ''lambpie_arena_alloc'' a"
    and "dict_get (cs_globals s) ''handle'' = Some h" and "c_function ''handle'' h" and "json_runtime jf"
    and "dict_get (cs_layouts s) ''str'' = Some sl" and "str_layout sl"
    and "distinct (map (fst \<circ> snd) (layout_fields el))"
    and "\<forall>fld \<in> set (layout_fields el) \<union> set (layout_fields rl). length (fst fld) < 2 ^ 64"
    and "langmem X" and "knows E s'" and "handle_args ev cap E" and "length (h_buffer m) < 2 ^ 64"
  shows "event_exits ev (layout_fields el) \<Longrightarrow> hrun X E (code s' b) m = Exits"
    and "\<forall>fld \<in> set (layout_fields el). event_value ev fld \<noteq> None \<Longrightarrow>
      \<exists>e o1. (\<forall>fld \<in> set (layout_fields el). value_at sl o1 (HObj e) fld = event_value ev fld) \<and>
        (\<forall>r o2 vs buf' n. e_user E (HObj e) o1 = Some (r, o2) \<longrightarrow> response_values sl o2 r (layout_fields rl) = Some vs \<longrightarrow>
           write_response vs (h_buffer m) = Some (buf', n) \<longrightarrow>
           (\<exists>m'. hrun X E (code s' b) m = Returns (HInt (of_nat n)) m' \<and> h_buffer m' = buf'))"
proof -
  obtain q tq n0 n1 n2 xs ys zs s4 where code: "code s' b = numbered n0 xs @ numbered n1 ys @ numbered n2 zs" and q: "q < n1"
    and obj: "\<And>X E m rest. langmem X \<Longrightarrow> \<exists>m' e. hrun X E (numbered n0 xs @ rest) m = hrun X E rest m' \<and>
        h_regs m' q = Some (HObj e) \<and> e < snd (h_heap m') \<and> h_buffer m' = h_buffer m"
    and ys: "event_code sl (OVal (InstrV q tq)) n1 s4 ys (layout_fields el)" and knows: "\<And>E. knows E s' \<Longrightarrow> knows E s4"
    and zs: "\<And>X E m ev cap e r h' vs buf' n. \<lbrakk>langmem X; knows E s'; handle_args ev cap E; h_regs m q = Some e;
       length (h_buffer m) < 2 ^ 64; e_user E e (h_heap m) = Some (r, h');
       response_values sl h' r (layout_fields rl) = Some vs; write_response vs (h_buffer m) = Some (buf', n)\<rbrakk> \<Longrightarrow>
       \<exists>m'. hrun X E (numbered n2 zs) m = Returns (HInt (of_nat n)) m' \<and> h_buffer m' = buf'"
    by (rule handle_pieces [OF assms(1-11)]) (rule that)
  obtain m1 e where m1: "hrun X E (code s' b) m = hrun X E (numbered n1 ys @ numbered n2 zs) m1"
    "h_regs m1 q = Some (HObj e)" "e < snd (h_heap m1)" "h_buffer m1 = h_buffer m"
    using obj [OF assms(12), of E "numbered n1 ys @ numbered n2 zs" m] unfolding code by blast
  have "hvalue E m1 (OVal (InstrV q tq)) = Some (HObj e)" using m1(2) by simp
  note ev = event_codeD [OF ys assms(12) knows [OF assms(13)] assms(14) this m1(3), of "numbered n2 zs"]
  show "hrun X E (code s' b) m = Exits" if "event_exits ev (layout_fields el)"
    using ev(1) [OF that] m1(1) by simp
  assume "\<forall>fld \<in> set (layout_fields el). event_value ev fld \<noteq> None"
  from ev(2) [OF this] obtain m2 where m2:
    "hrun X E (numbered n1 ys @ numbered n2 zs) m1 = hrun X E (numbered n2 zs) m2"
    "keeps n1 m1 m2" "h_buffer m2 = h_buffer m1"
    "\<forall>fld \<in> set (layout_fields el). \<exists>v. event_value ev fld = Some v \<and> held sl e (h_heap m2) fld v"
    by blast
  have q2: "h_regs m2 q = Some (HObj e)" using m2(2) m1(2) q by (simp add: keeps_def)
  have "\<forall>fld \<in> set (layout_fields el). value_at sl (h_heap m2) (HObj e) fld = event_value ev fld"
    using m2(4) by (fastforce simp: held_def)
  moreover have "\<exists>m'. hrun X E (code s' b) m = Returns (HInt (of_nat n)) m' \<and> h_buffer m' = buf'"
    if "e_user E (HObj e) (h_heap m2) = Some (r, o2)" "response_values sl o2 r (layout_fields rl) = Some vs"
      "write_response vs (h_buffer m) = Some (buf', n)" for r o2 vs buf' n
    using zs [OF assms(12-14) q2 _ that(1,2)] that(3) m1(1,4) m2(1,3) assms(15) by simp
  ultimately show "\<exists>e o1. (\<forall>fld \<in> set (layout_fields el). value_at sl o1 (HObj e) fld = event_value ev fld) \<and>
        (\<forall>r o2 vs buf' n. e_user E (HObj e) o1 = Some (r, o2) \<longrightarrow> response_values sl o2 r (layout_fields rl) = Some vs \<longrightarrow>
           write_response vs (h_buffer m) = Some (buf', n) \<longrightarrow>
           (\<exists>m'. hrun X E (code s' b) m = Returns (HInt (of_nat n)) m' \<and> h_buffer m' = buf'))"
    by (intro exI [of _ e] exI [of _ "h_heap m2"]) blast
qed

end
