(* ===== verification/HandleProgram.thy ===== *)
theory HandleProgram
  imports HandleCorrect CompilerMeta CompilerCorrect
begin

text \<open>
  The entry function of a compiled program. The layouts the compiler worked with are those of the
  finished module, so the statement about \<open>lambpie_handle\<close> speaks of the module alone.
\<close>

section \<open>Layouts are final\<close>

lemma cstep_layouts:
  assumes "cstep L s t" and "bodies_final L" and "layouts_inv L s" and "dict_get (cs_layouts s) C = Some l"
  shows "dict_get (cs_layouts t) C = Some l"
  using assms(1)
proof cases
  case (step_class D ts l')
  have "D \<noteq> C"
  proof
    assume "D = C"
    moreover obtain ts' where "dict_get (cs_structs s) C = Some ts'"
      using assms(2-4) by (auto simp: layouts_inv_def layout_inv_def)
    ultimately show False using step_class(2) assms(2) by (simp add: bodies_final_def)
  qed
  then show ?thesis using assms(4) by (simp add: step_class(1))
qed (use assms(4) in \<open>simp_all add: push_instr_def\<close>)

lemma csteps_layouts:
  assumes "csteps L s t" and "bodies_final L" and "csteps L empty_cstate s" and "dict_get (cs_layouts s) C = Some l"
  shows "dict_get (cs_layouts t) C = Some l"
  using assms(1)
proof (induction rule: rtranclp_induct)
  case base
  show ?case by (rule assms(4))
next
  case (step t u)
  have "layouts_inv L t"
    by (rule layouts.I_steps [OF rtranclp_trans [OF assms(3) step.hyps(1)] layouts.I_start])
  from cstep_layouts [OF step.hyps(2) assms(2) this step.IH] show ?case .
qed

section \<open>Programs with a JSON interface\<close>

text \<open>The class layouts of the event, the response and \<open>str\<close> in a module, and the functions the
  entry function calls.\<close>

definition json_program :: "cstate \<Rightarrow> layout \<Rightarrow> layout \<Rightarrow> layout \<Rightarrow> bool" where
  "json_program s el rl sl \<longleftrightarrow>
     int_env s \<and> dict_get (cs_layouts s) ''str'' = Some sl \<and> str_layout sl \<and>
     (\<exists>h ev resp. cs_handle s = Some h \<and> handle_types h = Inr (ev, resp) \<and>
        dict_get (cs_layouts s) ev = Some el \<and> dict_get (cs_layouts s) resp = Some rl) \<and>
     (\<exists>a. dict_get (cs_globals s) ''lambpie_arena_alloc'' = Some a \<and> c_function ''lambpie_arena_alloc'' a) \<and>
     (\<exists>h. dict_get (cs_globals s) ''handle'' = Some h \<and> c_function ''handle'' h) \<and>
     (\<forall>fld \<in> set (layout_fields el) \<union> set (layout_fields rl). length (fst fld) < 2 ^ 64)"

text \<open>A call of the entry function: the event text and its length, the response buffer and its
  capacity, the module's data, and what the user's function does.\<close>

definition handle_call :: "cstate \<Rightarrow> string \<Rightarrow> 64 word \<Rightarrow> (hval \<Rightarrow> heap \<Rightarrow> (hval \<times> heap) option) \<Rightarrow> henv" where
  "handle_call s ev cap user =
     \<lparr>e_args = [HBytes ev, HInt (of_nat (length ev)), HBuffer, HInt cap],
      e_data = map (\<lambda>d. (d_name d, map char_of (d_init d))) (cs_data s), e_user = user\<rparr>"

definition entry_block :: "cstate \<Rightarrow> string \<Rightarrow> nat \<Rightarrow> bool" where
  "entry_block s n b \<longleftrightarrow>
     b < length (cs_blocks s) \<and> blk_name (cs_blocks s ! b) = ''entry'' \<and>
     fn_name (cs_funcs s ! blk_fn (cs_blocks s ! b)) = n"

lemma handle_call_knows:
  assumes "compile_program L triple builtin source = Inr s" and "unique_names L"
  shows "knows (handle_call s ev cap user) s"
proof -
  have "distinct (map d_name (cs_data s))"
    using names.I_program [OF assms(1)] assms(2) by (simp add: names_inv_def symbols_def)
  then have "distinct (map fst (map (\<lambda>d. (d_name d, map char_of (d_init d) :: string)) (cs_data s)))" by (simp add: comp_def)
  then show ?thesis
    unfolding knows_def handle_call_def by (auto intro!: map_of_is_SomeI)
qed

text \<open>The last step of a compilation.\<close>

lemma synthesized_last:
  assumes "synthesize_lambda_entry L s0 = Inr ((), s')" and "csteps L empty_cstate s0" and "bodies_final L"
    and "json_program s' el rl sl"
  obtains p jf t s1 where "synthesize_handle L p (IntT 64) jf t el rl s1 = Inr ((), s')" and "json_runtime jf"
    and "csteps L empty_cstate s1"
proof -
  obtain params body returns where node: "cs_handle s0 = Some (params, body, returns)"
    using assms(1) by (cases "cs_handle s0") (auto simp: synthesize_lambda_entry_def)
  let ?rest = "\<lambda>ev resp. bindS (require_class ''Event'' ev) (\<lambda>_. bindS (require_class ''Response'' resp) (\<lambda>_.
      bindS (layout_get ev) (\<lambda>el0. bindS (layout_get resp) (\<lambda>rl0. bindS (types_get ev) (\<lambda>et. bindS (types_get resp) (\<lambda>rt.
      bindS (types_get ''__ptr__'') (\<lambda>p. bindS (types_get ''int'') (\<lambda>i64.
      bindS (visit_FunctionDef L None ''handle'' params returns (iterS (visit_stmt L) body)) (\<lambda>_.
      bindS (declare_json L p i64) (\<lambda>jf. bindS (synthesize_init L) (\<lambda>_.
        synthesize_handle L p i64 jf et el0 rl0)))))))))))"
  have "bindS (liftS (handle_types (params, body, returns))) (\<lambda>(ev, resp). ?rest ev resp) s0 = Inr ((), s')"
    using assms(1) by (simp add: synthesize_lambda_entry_def node bindS_def [of "getS cs_handle"] getS_def cong: if_cong)
  then obtain evr s2 where r0: "liftS (handle_types (params, body, returns)) s0 = Inr (evr, s2)"
    and rest: "(case evr of (ev, resp) \<Rightarrow> ?rest ev resp) s2 = Inr ((), s')"
    by (rule bindS_InrE) (rule that)
  obtain ev resp where evr: "evr = (ev, resp)" by (cases evr)
  obtain u3 s3 u4 s4 el0 s5 rl0 s6 et s7 rt s8 p s9 i64 s10 u1 s11 jf s12 u2 s13 where
    r: "require_class ''Event'' ev s2 = Inr (u3, s3)" "require_class ''Response'' resp s3 = Inr (u4, s4)"
      "layout_get ev s4 = Inr (el0, s5)" "layout_get resp s5 = Inr (rl0, s6)"
      "types_get ev s6 = Inr (et, s7)" "types_get resp s7 = Inr (rt, s8)" "types_get ''__ptr__'' s8 = Inr (p, s9)"
      "types_get ''int'' s9 = Inr (i64, s10)"
      "visit_FunctionDef L None ''handle'' params returns (iterS (visit_stmt L) body) s10 = Inr (u1, s11)"
      "declare_json L p i64 s11 = Inr (jf, s12)" "synthesize_init L s12 = Inr (u2, s13)"
      "synthesize_handle L p i64 jf et el0 rl0 s13 = Inr ((), s')"
    using rest unfolding evr prod.case by (elim bindS_InrE) (rule that; assumption)
  have types: "handle_types (params, body, returns) = Inr (ev, resp)" "s2 = s0"
    using r0 by (auto simp: evr liftS_def split: sum.splits)
  have same: "s3 = s2" "s4 = s2" "s5 = s2" "s6 = s2" "s7 = s2" "s8 = s2" "s9 = s2" "s10 = s2"
    using r(1-8) by (auto simp: require_class_def layout_get_def types_get_def split: if_splits option.splits)
  have "csteps L s0 s11"
    using steps.withinD [OF steps.within_FunctionDef [OF steps.within_block] r(9)] by (simp add: same types)
  moreover have "csteps L s11 s12" by (rule steps.withinD [OF steps.within_declare_json r(10)])
  moreover have "csteps L s12 s13" by (rule steps.withinD [OF steps.within_synthesize_init r(11)])
  moreover have last: "csteps L s13 s'" by (rule steps.withinD [OF steps.within_synthesize_handle r(12)])
  ultimately have c: "csteps L s0 s13" "csteps L s0 s'" by (meson rtranclp_trans)+
  have "cs_handle s' = cs_handle s0"
    using defers.withinD [OF defers.within_synthesize_lambda_entry assms(1)] by (simp add: defers_def)
  then have fin: "dict_get (cs_layouts s') ev = Some el" "dict_get (cs_layouts s') resp = Some rl" "int_env s'"
    using assms(4) node types(1) by (auto simp: json_program_def)
  have "dict_get (cs_layouts s0) ev = Some el0" "dict_get (cs_layouts s0) resp = Some rl0"
    using r(3,4) by (auto simp: layout_get_def same types split: option.splits)
  then have "dict_get (cs_layouts s') ev = Some el0" "dict_get (cs_layouts s') resp = Some rl0"
    using csteps_layouts [OF c(2) assms(3,2)] by blast+
  then have layouts: "el0 = el" "rl0 = rl" using fin by simp_all
  have int: "dict_get (cs_types s0) ''int'' = Some i64"
    using r(8) by (auto simp: types_get_def same types split: option.splits)
  then have i64: "i64 = IntT 64" using csteps_int_env [OF c(2) fin(3)] by (simp add: int_env_def)
  have "json_runtime jf"
    using r(10) by (auto simp: declare_json_def declare_c_def json_runtime_def c_function_def dest!: new_function_InrD)
  then show thesis
    using that r(12) rtranclp_trans [OF assms(2) c(1)] unfolding layouts i64 by blast
qed

text \<open>Building the entry function changes no global name and no layout.\<close>

definition same_names :: "cstate \<Rightarrow> cstate \<Rightarrow> bool" where
  "same_names s t \<longleftrightarrow> cs_globals t = cs_globals s \<and> cs_layouts t = cs_layouts s"

interpretation names_kept: leave_frame L same_names for L
proof unfold_locales
  fix i s v s'
  show "emit L i s = Inr (v, s') \<Longrightarrow> same_names s s'"
    by (auto simp: same_names_def dest!: emit_InrD)
  then show "emit L i s = Inr (v, s') \<Longrightarrow> same_names s s'" .
next
  fix p n t bytes c s v s'
  assume "bindS (next_name p) (\<lambda>n. new_data L n t bytes c) s = Inr (v, s')"
  then show "same_names s s'" by (auto simp: same_names_def dest!: next_name_InrD new_data_InrD)
qed (auto simp: same_names_def set_type_def)

lemma handle_same_names:
  assumes "synthesize_handle L p i64 jf t el rl s = Inr (u, s')"
  shows "cs_globals s' = cs_globals s" "cs_layouts s' = cs_layouts s"
proof -
  obtain f fv s1 b s2 where run: "new_function L ''lambpie_handle'' (FunT i64 [p, i64, p, i64] False) s = Inr ((f, fv), s1)"
    "append_block f ''entry'' s1 = Inr (b, s2)"
    "handle_code L p i64 jf t el rl f (s2\<lparr>cs_builder := Some b, cs_locals := [], cs_arena := ARENA_REQ\<rparr>) = Inr (u, s')"
    using assms by (auto simp: synthesize_handle_code position_at_end_def)
  then show "cs_globals s' = cs_globals s" "cs_layouts s' = cs_layouts s"
    using names_kept.withinD [OF names_kept.within_handle_code run(3)] new_function_InrD [OF run(1)] run(2)
    by (auto simp: same_names_def append_block_def)
qed

text \<open>The block the entry function starts in.\<close>

lemma handle_entry_block:
  assumes "synthesize_handle L p i64 jf t el rl s = Inr (u, s')"
  shows "entry_block s' ''lambpie_handle'' (length (cs_blocks s))"
proof -
  let ?b = "length (cs_blocks s)"
  obtain f fv s1 b s2 where run: "new_function L ''lambpie_handle'' (FunT i64 [p, i64, p, i64] False) s = Inr ((f, fv), s1)"
    "append_block f ''entry'' s1 = Inr (b, s2)"
    "handle_code L p i64 jf t el rl f (s2\<lparr>cs_builder := Some b, cs_locals := [], cs_arena := ARENA_REQ\<rparr>) = Inr (u, s')"
    using assms by (auto simp: synthesize_handle_code position_at_end_def)
  let ?s3 = "s2\<lparr>cs_builder := Some b, cs_locals := [], cs_arena := ARENA_REQ\<rparr>"
  have s3: "length (cs_blocks ?s3) = Suc ?b" "blk_name (cs_blocks ?s3 ! ?b) = ''entry''"
    "blk_fn (cs_blocks ?s3 ! ?b) = length (cs_funcs s)" "cs_funcs ?s3 = cs_funcs s @ [\<lparr>fn_name = ''lambpie_handle'', fn_type = FunT i64 [p, i64, p, i64] False\<rparr>]"
    using new_function_InrD [OF run(1)] run(2) by (auto simp: append_block_def)
  have c: "csteps L ?s3 s'" by (rule steps.withinD [OF steps.within_handle_code run(3)])
  have "?b < length (cs_blocks s')" "blk_name (cs_blocks s' ! ?b) = ''entry''" "blk_fn (cs_blocks s' ! ?b) = length (cs_funcs s)"
    using csteps_code [OF c] s3(1-3) by auto
  moreover have "fn_name (cs_funcs s' ! length (cs_funcs s)) = ''lambpie_handle''"
    using csteps_funcs [OF c] unfolding s3(4) by (auto simp: prefix_def nth_append)
  ultimately show ?thesis by (simp add: entry_block_def)
qed

text \<open>A layout of a module has an index of its own for every field.\<close>

lemma layout_fields_distinct:
  assumes "layout_ok el ts"
  shows "distinct (map (fst \<circ> snd) (layout_fields el))"
proof -
  have "distinct (map (fst \<circ> snd) (filter P el))" for P
    using assms by (simp add: layout_ok_def distinct_map_filter)
  then show ?thesis
    unfolding layout_fields_def distinct_map set_sort distinct_sort by blast
qed

text \<open>The entry function of a compiled module, for one call.\<close>

lemma program_handle_runs:
  assumes compiled: "compile_program L triple builtin source = Inr s" and laws: "bodies_final L" "unique_names L" "langmem X"
    and prog: "json_program s el rl sl" and sizes: "length ev < 2 ^ 64" "length (h_buffer m) < 2 ^ 64"
  shows "\<exists>b. entry_block s ''lambpie_handle'' b \<and>
    (event_exits ev (layout_fields el) \<longrightarrow> hrun X (handle_call s ev cap user) (code s b) m = Exits) \<and>
    ((\<forall>fld \<in> set (layout_fields el). event_value ev fld \<noteq> None) \<longrightarrow>
      (\<exists>e o1. (\<forall>fld \<in> set (layout_fields el). value_at sl o1 (HObj e) fld = event_value ev fld) \<and>
        (\<forall>r o2 vs buf' n. user (HObj e) o1 = Some (r, o2) \<longrightarrow> response_values sl o2 r (layout_fields rl) = Some vs \<longrightarrow>
           write_response vs (h_buffer m) = Some (buf', n) \<longrightarrow>
           (\<exists>m'. hrun X (handle_call s ev cap user) (code s b) m = Returns (HInt (of_nat n)) m' \<and> h_buffer m' = buf'))))"
proof -
  obtain u0 s00 u1 s0 where run: "compiler_init L triple empty_cstate = Inr (u0, s00)"
    "visit_Module L (builtin @ source) s00 = Inr (u1, s0)" and entry: "synthesize_lambda_entry L s0 = Inr ((), s)"
    using compiled by (auto simp: compile_program_def compile_def bindR_Inr_iff bindS_Inr_iff)
  have "csteps L empty_cstate s00" by (rule steps.withinD [OF steps_compiler_init run(1)])
  moreover have "csteps L s00 s0"
    using run(2) unfolding visit_Module_def by (rule steps.withinD [OF steps.within_iter, rotated]) (rule steps_visit_top)
  ultimately have c0: "csteps L empty_cstate s0" by (rule rtranclp_trans)
  obtain p jf t s1 where h: "synthesize_handle L p (IntT 64) jf t el rl s1 = Inr ((), s)" and jf: "json_runtime jf"
    by (rule synthesized_last [OF entry c0 laws(1) prog])
  note same = handle_same_names [OF h]
  let ?E = "handle_call s ev cap user" and ?b = "length (cs_blocks s1)"
  obtain a g C where names: "dict_get (cs_globals s1) ''lambpie_arena_alloc'' = Some a" "c_function ''lambpie_arena_alloc'' a"
    "dict_get (cs_globals s1) ''handle'' = Some g" "c_function ''handle'' g"
    and sl: "dict_get (cs_layouts s1) ''str'' = Some sl" "str_layout sl" and el: "dict_get (cs_layouts s) C = Some el"
    and short: "\<forall>fld \<in> set (layout_fields el) \<union> set (layout_fields rl). length (fst fld) < 2 ^ 64"
    using prog unfolding json_program_def same by blast
  obtain ts where "layout_ok el ts"
    using layouts.I_program [OF compiled] laws(1) el by (auto simp: layouts_inv_def layout_inv_def)
  then have distinct: "distinct (map (fst \<circ> snd) (layout_fields el))" by (rule layout_fields_distinct)
  have args: "handle_args ev cap ?E" using sizes(1) by (simp add: handle_args_def handle_call_def)
  note r = handle_runs [OF h refl names jf sl distinct short laws(3) handle_call_knows [OF compiled laws(2)] args sizes(2)]
  have "e_user ?E = user" by (simp add: handle_call_def)
  with r handle_entry_block [OF h] show ?thesis
    by (intro exI [of _ ?b]) simp
qed

text \<open>C1: the compiled entry function does what the runtime expects of it. For every accepted
  program with a JSON interface and every event text in which all fields of the event class can be
  read, \<open>lambpie_handle\<close> calls the user's \<open>handle\<close> on an object whose fields have exactly
  the values of the event, each under its own name; and whenever that call returns an object whose
  fields have the values \<open>vs\<close> and the document of \<open>vs\<close> fits into the response buffer, it
  leaves that document in the buffer and returns its length. What \<open>handle\<close> does to the heap in
  between is arbitrary.\<close>

theorem lambpie_handle_correct:
  assumes "compile_program L triple builtin source = Inr s" and "bodies_final L" and "unique_names L" and "langmem X"
    and "json_program s el rl sl" and "length ev < 2 ^ 64" and "length (h_buffer m) < 2 ^ 64"
    and "\<forall>fld \<in> set (layout_fields el). event_value ev fld \<noteq> None"
  shows "\<exists>b e o1. entry_block s ''lambpie_handle'' b \<and>
    (\<forall>fld \<in> set (layout_fields el). value_at sl o1 (HObj e) fld = event_value ev fld) \<and>
    (\<forall>r o2 vs buf' n. user (HObj e) o1 = Some (r, o2) \<longrightarrow> response_values sl o2 r (layout_fields rl) = Some vs \<longrightarrow>
       write_response vs (h_buffer m) = Some (buf', n) \<longrightarrow>
       (\<exists>m'. hrun X (handle_call s ev cap user) (code s b) m = Returns (HInt (of_nat n)) m' \<and> h_buffer m' = buf'))"
  using program_handle_runs [OF assms(1-7), of cap user] assms(8) by blast

text \<open>C27: an event without an integer field ends the process. When the first field of the event
  class that cannot be read from the event text is an integer whose key is missing or malformed,
  \<open>lambpie_handle\<close> exits with code 1 before the user's function is called, whatever that
  function is.\<close>

theorem lambpie_handle_missing_key:
  assumes "compile_program L triple builtin source = Inr s" and "bodies_final L" and "unique_names L" and "langmem X"
    and "json_program s el rl sl" and "length ev < 2 ^ 64" and "length (h_buffer m) < 2 ^ 64"
    and "event_exits ev (layout_fields el)"
  shows "\<exists>b. entry_block s ''lambpie_handle'' b \<and> hrun X (handle_call s ev cap user) (code s b) m = Exits"
  using program_handle_runs [OF assms(1-7), of cap user] assms(8) by blast

section \<open>An instance\<close>

text \<open>A program with string and integer fields on both sides.\<close>

definition parrot_pie :: "stmt list" where
  "parrot_pie =
     [ClassDef ''str''
        [AnnAssign (Name ''len'') (Name ''int'') None, AnnAssign (Name ''buffer'') (Name ''__ptr__'') None],
      ClassDef ''Request''
        [AnnAssign (Name ''message'') (Name ''str'') None, AnnAssign (Name ''number'') (Name ''int'') None],
      ClassDef ''Response''
        [AnnAssign (Name ''echo'') (Name ''str'') None, AnnAssign (Name ''doubled'') (Name ''int'') None],
      FunctionDef ''handle'' [(''event'', Some (Name ''Request''))]
        [Return (Some (Call (Name ''Response'')
           [Attribute (Name ''event'') ''message'',
            BinOp (Attribute (Name ''event'') ''number'') Add (Attribute (Name ''event'') ''number'')] []))]
        (Some (Name ''Response''))]"

lemma parrot_compiles:
  "case compile_program std_llapi None [] parrot_pie of
     Inl e \<Rightarrow> False
   | Inr s \<Rightarrow>
       dict_get (cs_types s) ''int'' = Some (IntT 64) \<and>
       dict_get (cs_layouts s) ''str'' = Some [(''__ref_count__'', 0, IntT 32), (''len'', 1, IntT 64), (''buffer'', 2, i8_ptr)] \<and>
       dict_get (cs_layouts s) ''Request'' = Some [(''__ref_count__'', 0, IntT 32), (''message'', 1, PtrT (StructT ''str'')), (''number'', 2, IntT 64)] \<and>
       dict_get (cs_layouts s) ''Response'' = Some [(''__ref_count__'', 0, IntT 32),
         (''echo'', 1, PtrT (StructT ''str'')), (''doubled'', 2, IntT 64)] \<and>
       map_option handle_types (cs_handle s) = Some (Inr (''Request'', ''Response'')) \<and>
       dict_get (cs_globals s) ''lambpie_arena_alloc'' = Some (FuncV ''lambpie_arena_alloc'' (PtrT (FunT i8_ptr [IntT 32, IntT 64] False))) \<and>
       dict_get (cs_globals s) ''handle'' = Some (FuncV ''handle'' (PtrT (FunT (PtrT (StructT ''Response'')) [PtrT (StructT ''Request'')] False)))"
  by code_simp

definition request_layout :: layout where
  "request_layout = [(''__ref_count__'', 0, IntT 32), (''message'', 1, PtrT (StructT ''str'')), (''number'', 2, IntT 64)]"

definition response_layout :: layout where
  "response_layout = [(''__ref_count__'', 0, IntT 32), (''echo'', 1, PtrT (StructT ''str'')), (''doubled'', 2, IntT 64)]"

definition string_layout :: layout where
  "string_layout = [(''__ref_count__'', 0, IntT 32), (''len'', 1, IntT 64), (''buffer'', 2, i8_ptr)]"

lemma parrot_fields:
  "layout_fields request_layout = [(''message'', 1, PtrT (StructT ''str'')), (''number'', 2, IntT 64)]"
  "layout_fields response_layout = [(''echo'', 1, PtrT (StructT ''str'')), (''doubled'', 2, IntT 64)]"
  by code_simp+

lemma parrot_result:
  obtains s where "compile_program std_llapi None [] parrot_pie = Inr s"
    and "json_program s request_layout response_layout string_layout"
proof -
  obtain s where s: "compile_program std_llapi None [] parrot_pie = Inr s"
    using parrot_compiles by (auto split: sum.splits)
  note facts = parrot_compiles [unfolded s sum.case, folded request_layout_def response_layout_def string_layout_def]
  obtain h where h: "cs_handle s = Some h" "handle_types h = Inr (''Request'', ''Response'')"
    using facts by auto
  have short: "\<forall>fld \<in> set (layout_fields request_layout) \<union> set (layout_fields response_layout). length (fst fld) < 2 ^ 64"
    by (simp add: parrot_fields)
  have "str_layout string_layout" by (simp add: str_layout_def string_layout_def)
  then have "json_program s request_layout response_layout string_layout"
    using facts h short unfolding json_program_def int_env_def c_function_def by blast
  then show thesis using that s by blast
qed

text \<open>An event, with the fields in another order and a space, and one without the number.\<close>

definition parrot_event :: string where
  "parrot_event = ''{'' @ [quote] @ ''number'' @ [quote] @ '': 21,'' @ [quote] @ ''message'' @ [quote] @ '':'' @ [quote] @ ''hi'' @ [quote] @ ''}''"

definition short_event :: string where
  "short_event = ''{'' @ [quote] @ ''message'' @ [quote] @ '':'' @ [quote] @ ''hi'' @ [quote] @ ''}''"

definition parrot_reply :: string where
  "parrot_reply = ''{'' @ [quote] @ ''echo'' @ [quote] @ '':'' @ [quote] @ ''hi'' @ [quote] @ '','' @ [quote] @ ''doubled'' @ [quote] @ '':21}''"

text \<open>A \<open>handle\<close> that returns its argument: the two classes have the same shape.\<close>

lemma lambpie_handle_correct_witness:
  "\<exists>s b m'. compile_program std_llapi None [] parrot_pie = Inr s \<and> entry_block s ''lambpie_handle'' b \<and>
    hrun std_hsem (handle_call s parrot_event 64 (\<lambda>x h. Some (x, h))) (code s b)
      \<lparr>h_regs = (\<lambda>_. None), h_heap = (\<lambda>_ _. None, 0), h_buffer = replicate 30 CHR ''x''\<rparr> = Returns (HInt 26) m' \<and>
    h_buffer m' = parrot_reply @ ''xxxx''"
proof -
  let ?m = "\<lparr>h_regs = (\<lambda>_. None), h_heap = (\<lambda>_ _. None, 0), h_buffer = replicate 30 CHR ''x''\<rparr>"
  let ?vs = "[(''echo'', StrField ''hi''), (''doubled'', IntField 21)]"
  obtain s where s: "compile_program std_llapi None [] parrot_pie = Inr s"
    and prog: "json_program s request_layout response_layout string_layout"
    by (rule parrot_result)
  have vals: "event_value parrot_event (''message'', 1, PtrT (StructT ''str'')) = Some (StrField ''hi'')"
    "event_value parrot_event (''number'', 2, IntT 64) = Some (IntField 21)" by code_simp+
  have len: "length parrot_event < 2 ^ 64" "length (h_buffer ?m) < 2 ^ 64" by (simp_all add: parrot_event_def)
  have readable: "\<forall>fld \<in> set (layout_fields request_layout). event_value parrot_event fld \<noteq> None"
    by (simp add: parrot_fields vals del: One_nat_def)
  obtain b e o1 where b: "entry_block s ''lambpie_handle'' b"
    and event: "\<forall>fld \<in> set (layout_fields request_layout). value_at string_layout o1 (HObj e) fld = event_value parrot_event fld"
    and run: "\<forall>r o2 vs buf' n. Some (HObj e, o1) = Some (r, o2) \<longrightarrow> response_values string_layout o2 r (layout_fields response_layout) = Some vs \<longrightarrow>
       write_response vs (h_buffer ?m) = Some (buf', n) \<longrightarrow>
       (\<exists>m'. hrun std_hsem (handle_call s parrot_event 64 (\<lambda>x h. Some (x, h))) (code s b) ?m = Returns (HInt (of_nat n)) m' \<and> h_buffer m' = buf')"
    using lambpie_handle_correct [OF s std_bodies_final std_unique_names std_langmem prog len readable, of "\<lambda>x h. Some (x, h)" 64]
    by blast
  have other: "value_at string_layout o1 (HObj e) (n, k, t) = value_at string_layout o1 (HObj e) (n', k, t)" for n n' k t
    by (simp add: value_at_def)
  have "value_at string_layout o1 (HObj e) (''echo'', 1, PtrT (StructT ''str'')) = Some (StrField ''hi'')"
    "value_at string_layout o1 (HObj e) (''doubled'', 2, IntT 64) = Some (IntField 21)"
    using event vals other [of "''echo''" _ _ "''message''"] other [of "''doubled''" _ _ "''number''"]
    by (simp_all add: parrot_fields del: One_nat_def)
  then have vs: "response_values string_layout o1 (HObj e) (layout_fields response_layout) = Some ?vs"
    by (simp add: parrot_fields del: One_nat_def)
  have "write_response ?vs (replicate 30 CHR ''x'') = Some (parrot_reply @ ''xxxx'', 26)" by code_simp
  then have reply: "write_response ?vs (h_buffer ?m) = Some (parrot_reply @ ''xxxx'', 26)" by (simp only: hstate.select_convs)
  obtain m' where "hrun std_hsem (handle_call s parrot_event 64 (\<lambda>x h. Some (x, h))) (code s b) ?m = Returns (HInt (of_nat 26)) m'"
    "h_buffer m' = parrot_reply @ ''xxxx''"
    using run [rule_format, OF refl vs reply] by blast
  then show ?thesis using s b by auto
qed

lemma lambpie_handle_missing_key_witness:
  "\<exists>s b. compile_program std_llapi None [] parrot_pie = Inr s \<and> entry_block s ''lambpie_handle'' b \<and>
    hrun std_hsem (handle_call s short_event 0 (\<lambda>x h. None)) (code s b)
      \<lparr>h_regs = (\<lambda>_. None), h_heap = (\<lambda>_ _. None, 0), h_buffer = []\<rparr> = Exits"
proof -
  let ?m = "\<lparr>h_regs = (\<lambda>_. None), h_heap = (\<lambda>_ _. None, 0), h_buffer = []\<rparr>"
  obtain s where s: "compile_program std_llapi None [] parrot_pie = Inr s"
    and prog: "json_program s request_layout response_layout string_layout"
    by (rule parrot_result)
  have exits: "event_exits short_event (layout_fields request_layout)" by code_simp
  have len: "length short_event < 2 ^ 64" "length (h_buffer ?m) < 2 ^ 64" by (simp_all add: short_event_def)
  from lambpie_handle_missing_key [OF s std_bodies_final std_unique_names std_langmem prog len exits] s show ?thesis by blast
qed

end
