(* ===== verification/ArenaRuntime.thy ===== *)
theory ArenaRuntime
  imports CompilerState "HOL-Library.Word"
begin

text \<open>
  The two arenas of the C runtime (\<open>runtime/src/arena.c\<close>), from which all generated code allocates, and the
  order in which the Rust shim uses them: allocations before and after the static arena is frozen, and
  a reset of the request arena after each request. Addresses are 64-bit words in a flat address space;
  \<open>mmap\<close> and \<open>mprotect\<close> belong to the system: what a mapping promises is a hypothesis
  (\<open>mappings_ok\<close>), and running out of memory, which ends the process, is the result \<open>None\<close>.
\<close>

unbundle bit_operations_syntax

text \<open>The C struct and, in \<open>a_writable\<close>, the protection of the pages it points to.\<close>

record arena =
  a_base :: "64 word"
  a_cursor :: "64 word"
  a_limit :: "64 word"
  a_writable :: bool

text \<open>\<open>mmap\<close> belongs to the system: the address it returns is an argument; \<open>None\<close> is
  \<open>MAP_FAILED\<close>, after which the process exits.\<close>

definition arena_init :: "64 word option \<Rightarrow> 64 word \<Rightarrow> arena option" where
  "arena_init mapping capacity =
     (case mapping of
        None \<Rightarrow> None
      | Some base \<Rightarrow> Some \<lparr>a_base = base, a_cursor = base, a_limit = base + capacity, a_writable = True\<rparr>)"

definition align8 :: "64 word \<Rightarrow> 64 word" where
  "align8 sz = (sz + 7) AND NOT 7"

definition arena_alloc :: "64 word \<Rightarrow> arena \<Rightarrow> (64 word \<times> arena) option" where
  "arena_alloc sz a =
     (let sz = align8 sz in
      if a_limit a < a_cursor a + sz then None
      else Some (a_cursor a, a\<lparr>a_cursor := a_cursor a + sz\<rparr>))"

definition arena_reset :: "arena \<Rightarrow> arena" where
  "arena_reset a = a\<lparr>a_cursor := a_base a\<rparr>"

definition arena_freeze :: "arena \<Rightarrow> arena" where
  "arena_freeze a = (if 0 < a_limit a - a_base a then a\<lparr>a_writable := False\<rparr> else a)"

text \<open>The two arenas, and the function the generated code calls.\<close>

record arenas =
  static_arena :: arena
  req_arena :: arena

definition lambpie_arena_alloc :: "int \<Rightarrow> 64 word \<Rightarrow> arenas \<Rightarrow> (64 word \<times> arenas) option" where
  "lambpie_arena_alloc tag sz A =
     (if tag = int ARENA_STATIC
      then map_option (\<lambda>(p, a). (p, A\<lparr>static_arena := a\<rparr>)) (arena_alloc sz (static_arena A))
      else map_option (\<lambda>(p, a). (p, A\<lparr>req_arena := a\<rparr>)) (arena_alloc sz (req_arena A)))"

text \<open>The life of the process as the shim drives it: allocations with their tags, the freeze of the
  static arena after \<open>lambpie_init\<close>, the reset of the request arena after each request. Beside the
  arenas the run keeps the allocations that are still in use (tag, pointer, size), newest first; a
  reset gives up those of the request arena.\<close>

datatype arena_op = Alloc int "64 word" | Freeze | Reset

type_synonym allocation = "int \<times> 64 word \<times> 64 word"

fun arena_op_step :: "arena_op \<Rightarrow> arenas \<times> allocation list \<Rightarrow> (arenas \<times> allocation list) option" where
  "arena_op_step (Alloc tag sz) (A, live) =
     map_option (\<lambda>(p, A'). (A', (tag, p, sz) # live)) (lambpie_arena_alloc tag sz A)"
| "arena_op_step Freeze (A, live) = Some (A\<lparr>static_arena := arena_freeze (static_arena A)\<rparr>, live)"
| "arena_op_step Reset (A, live) =
     Some (A\<lparr>req_arena := arena_reset (req_arena A)\<rparr>, filter (\<lambda>(tag, p, sz). tag = int ARENA_STATIC) live)"

fun arena_ops_run :: "arena_op list \<Rightarrow> arenas \<times> allocation list \<Rightarrow> (arenas \<times> allocation list) option" where
  "arena_ops_run [] s = Some s"
| "arena_ops_run (x # xs) s = Option.bind (arena_op_step x s) (arena_ops_run xs)"

section \<open>One allocation\<close>

lemma and_not_mask_word: "x AND NOT (mask n) = push_bit n (drop_bit n (x :: 'a :: len word))"
  by (rule bit_word_eqI) (auto simp: bit_simps)

lemma and_not_7: "unat (x AND NOT 7 :: 64 word) = unat x div 8 * 8"
proof -
  have "(7 :: 64 word) = mask 3" by (simp add: mask_eq_exp_minus_1)
  then have "x AND NOT 7 = push_bit 3 (drop_bit 3 x)" using and_not_mask_word [of x 3] by simp
  moreover have "unat x div 8 * 8 < 2 ^ 64"
    using unsigned_less [of x, where ?'a = nat] div_times_less_eq_dividend [of "unat x" 8] by simp
  moreover have "unat (push_bit 3 (drop_bit 3 x)) = take_bit 64 (push_bit 3 (take_bit 61 (drop_bit 3 (unat x))) )"
    unfolding unsigned_push_bit_eq unsigned_drop_bit_eq by (simp add: drop_bit_take_bit)
  moreover have "take_bit 61 (drop_bit 3 (unat x)) = drop_bit 3 (unat x)"
    using unsigned_less [of x, where ?'a = nat] by (intro take_bit_nat_eq_self) (simp add: drop_bit_eq_div)
  ultimately show ?thesis
    by (simp add: push_bit_eq_mult drop_bit_eq_div take_bit_nat_eq_self)
qed

lemma unat_plus_small: "unat x + unat y < 2 ^ 64 \<Longrightarrow> unat (x + y :: 64 word) = unat x + unat y"
  by (simp add: unat_word_ariths)

definition round8 :: "nat \<Rightarrow> nat" where
  "round8 n = (n + 7) div 8 * 8"

lemma round8: "n \<le> round8 n" "8 dvd round8 n" "n < 2 ^ 62 \<Longrightarrow> round8 n \<le> 2 ^ 62"
  by (simp_all add: round8_def)

lemma unat_align8: "unat sz < 2 ^ 62 \<Longrightarrow> unat (align8 sz) = round8 (unat sz)"
  unfolding align8_def and_not_7 round8_def by (simp add: unat_plus_small)

definition arena_ok :: "arena \<Rightarrow> bool" where
  "arena_ok a \<longleftrightarrow>
     unat (a_base a) \<le> unat (a_cursor a) \<and> unat (a_cursor a) \<le> unat (a_limit a) \<and> unat (a_limit a) < 2 ^ 63 \<and>
     8 dvd unat (a_cursor a) \<and> 8 dvd unat (a_base a)"

lemma arena_alloc_exact:
  assumes "arena_ok a" and "unat sz < 2 ^ 62"
  shows "unat (a_cursor a + align8 sz) = unat (a_cursor a) + round8 (unat sz)"
    and "arena_alloc sz a =
      (if unat (a_cursor a) + round8 (unat sz) \<le> unat (a_limit a)
       then Some (a_cursor a, a\<lparr>a_cursor := a_cursor a + align8 sz\<rparr>) else None)"
proof -
  have "unat (a_cursor a) + round8 (unat sz) < 2 ^ 64"
    using assms round8(3) [OF assms(2)] by (simp add: arena_ok_def)
  then show eq: "unat (a_cursor a + align8 sz) = unat (a_cursor a) + round8 (unat sz)"
    using unat_align8 [OF assms(2)] by (simp add: unat_plus_small)
  show "arena_alloc sz a =
      (if unat (a_cursor a) + round8 (unat sz) \<le> unat (a_limit a)
       then Some (a_cursor a, a\<lparr>a_cursor := a_cursor a + align8 sz\<rparr>) else None)"
    using eq by (auto simp: arena_alloc_def Let_def word_less_nat_alt)
qed

text \<open>Without the bound on the size the rounding wraps: the largest size is rounded to 0, so the
  request succeeds and the next allocation gets the same pointer.\<close>

lemma arena_alloc_wraps: "arena_ok a \<Longrightarrow> arena_alloc (- 1) a = Some (a_cursor a, a)"
  by (simp add: arena_alloc_def align8_def arena_ok_def word_less_nat_alt)

section \<open>All allocations\<close>

text \<open>The arena of a tag, and two well-formed arenas in disjoint mappings.\<close>

definition arena_of :: "arenas \<Rightarrow> int \<Rightarrow> arena" where
  "arena_of A tag = (if tag = int ARENA_STATIC then static_arena A else req_arena A)"

definition arenas_ok :: "arenas \<Rightarrow> bool" where
  "arenas_ok A \<longleftrightarrow>
     arena_ok (static_arena A) \<and> arena_ok (req_arena A) \<and>
     (unat (a_limit (static_arena A)) \<le> unat (a_base (req_arena A)) \<or>
      unat (a_limit (req_arena A)) \<le> unat (a_base (static_arena A)))"

text \<open>The bytes of an allocation, the bytes an arena has handed out and the bytes it has left.\<close>

fun region :: "allocation \<Rightarrow> nat set" where
  "region (tag, p, sz) = {unat p ..< unat p + unat sz}"

definition used :: "arena \<Rightarrow> nat set" where
  "used a = {unat (a_base a) ..< unat (a_cursor a)}"

definition unused :: "arena \<Rightarrow> nat set" where
  "unused a = {unat (a_cursor a) ..< unat (a_limit a)}"

lemma used_unused: "used a \<inter> unused a = {}"
  by (auto simp: used_def unused_def)

lemma arenas_apart:
  assumes "arenas_ok A" and "(tag = int ARENA_STATIC) \<noteq> (tag' = int ARENA_STATIC)"
  shows "used (arena_of A tag) \<inter> unused (arena_of A tag') = {}"
  using assms unfolding arena_of_def by (auto simp: used_def unused_def arenas_ok_def arena_ok_def)

lemma alloc_step:
  assumes ok: "arenas_ok A" and sz: "unat sz < 2 ^ 62" and run: "lambpie_arena_alloc tag sz A = Some (p, A')"
  shows "arenas_ok A'" "8 dvd unat p" "region (tag, p, sz) \<subseteq> unused (arena_of A tag)"
    "region (tag, p, sz) \<subseteq> used (arena_of A' tag)" "used (arena_of A tag') \<subseteq> used (arena_of A' tag')"
proof -
  let ?a = "arena_of A tag"
  let ?a' = "?a\<lparr>a_cursor := a_cursor ?a + align8 sz\<rparr>"
  have a: "arena_ok ?a" using ok by (simp add: arenas_ok_def arena_of_def)
  note exact = arena_alloc_exact [OF a sz]
  have p: "p = a_cursor ?a" "unat (a_cursor ?a) + round8 (unat sz) \<le> unat (a_limit ?a)"
    and A': "A' = (if tag = int ARENA_STATIC then A\<lparr>static_arena := ?a'\<rparr> else A\<lparr>req_arena := ?a'\<rparr>)"
    using run exact(2) by (auto simp: lambpie_arena_alloc_def arena_of_def split: if_splits)
  show "8 dvd unat p" using a by (simp add: p(1) arena_ok_def)
  show "region (tag, p, sz) \<subseteq> unused ?a"
    using p round8(1) [of "unat sz"] by (auto simp: unused_def)
  have a': "arena_ok ?a'"
    using a p(2) exact(1) round8(2) [of "unat sz"] by (simp add: arena_ok_def)
  then show "arenas_ok A'" using ok by (simp add: A' arenas_ok_def arena_of_def split: if_splits)
  have moved: "arena_of A' tag = ?a'" by (simp add: A' arena_of_def)
  show "region (tag, p, sz) \<subseteq> used (arena_of A' tag)"
    using a exact(1) round8(1) [of "unat sz"] unfolding moved by (auto simp: used_def p(1) arena_ok_def)
  have "used ?a \<subseteq> used ?a'" using exact(1) by (auto simp: used_def)
  then show "used (arena_of A tag') \<subseteq> used (arena_of A' tag')"
    by (cases "tag = int ARENA_STATIC"; cases "tag' = int ARENA_STATIC") (simp_all add: A' arena_of_def)
qed

text \<open>What holds at every moment: each allocation in use lies in the handed-out part of its arena,
  aligned, and any two are disjoint.\<close>

definition placed :: "arenas \<Rightarrow> allocation \<Rightarrow> bool" where
  "placed A x \<longleftrightarrow> 8 dvd unat (fst (snd x)) \<and> region x \<subseteq> used (arena_of A (fst x))"

definition live_ok :: "arenas \<times> allocation list \<Rightarrow> bool" where
  "live_ok s \<longleftrightarrow> arenas_ok (fst s) \<and> (\<forall>x \<in> set (snd s). placed (fst s) x) \<and>
     sorted_wrt (\<lambda>x y. region x \<inter> region y = {}) (snd s)"

lemma live_ok_alloc:
  assumes live: "live_ok (A, live)" and sz: "unat sz < 2 ^ 62" and run: "lambpie_arena_alloc tag sz A = Some (p, A')"
  shows "live_ok (A', (tag, p, sz) # live)"
proof -
  have ok: "arenas_ok A" and placed: "\<And>x. x \<in> set live \<Longrightarrow> placed A x"
    and apart: "sorted_wrt (\<lambda>x y. region x \<inter> region y = {}) live"
    using live by (auto simp: live_ok_def)
  note step = alloc_step [OF ok sz run]
  have "used (arena_of A t) \<inter> unused (arena_of A tag) = {}" for t
    using arenas_apart [OF ok, of t tag] used_unused by (cases "(t = int ARENA_STATIC) = (tag = int ARENA_STATIC)") (auto simp: arena_of_def)
  then have "region (tag, p, sz) \<inter> region x = {}" if "x \<in> set live" for x
    using placed [OF that] step(3) unfolding placed_def by blast
  moreover have "placed A' x" if "x \<in> set live" for x
    using placed [OF that] step(5) unfolding placed_def by blast
  moreover have "placed A' (tag, p, sz)" using step(2,4) by (simp add: placed_def del: region.simps)
  ultimately show ?thesis using step(1) apart by (simp add: live_ok_def del: region.simps)
qed

lemma live_ok_freeze:
  assumes "live_ok (A, live)"
  shows "live_ok (A\<lparr>static_arena := arena_freeze (static_arena A)\<rparr>, live)"
proof -
  let ?A = "A\<lparr>static_arena := arena_freeze (static_arena A)\<rparr>"
  have "used (arena_of ?A t) = used (arena_of A t)" for t
    by (cases "t = int ARENA_STATIC") (simp_all add: arena_of_def arena_freeze_def used_def)
  then have "placed ?A x = placed A x" for x by (simp add: placed_def)
  moreover have "arenas_ok ?A = arenas_ok A" by (simp add: arenas_ok_def arena_ok_def arena_freeze_def)
  ultimately show ?thesis using assms by (simp add: live_ok_def)
qed

lemma live_ok_reset:
  assumes "live_ok (A, live)"
  shows "live_ok (A\<lparr>req_arena := arena_reset (req_arena A)\<rparr>, filter (\<lambda>(tag, p, sz). tag = int ARENA_STATIC) live)"
proof -
  have "arenas_ok (A\<lparr>req_arena := arena_reset (req_arena A)\<rparr>)"
    using assms by (auto simp: live_ok_def arenas_ok_def arena_ok_def arena_reset_def)
  moreover have "placed (A\<lparr>req_arena := r\<rparr>) x" if "placed A x" "fst x = int ARENA_STATIC" for x r
    using that by (simp add: placed_def arena_of_def)
  ultimately show ?thesis using assms by (auto simp: live_ok_def sorted_wrt_filter simp del: region.simps)
qed

lemma live_ok_step:
  assumes "live_ok s" and "\<And>tag sz. x = Alloc tag sz \<Longrightarrow> unat sz < 2 ^ 62" and "arena_op_step x s = Some s'"
  shows "live_ok s'"
  using assms by (cases x; cases s) (auto simp del: region.simps intro: live_ok_alloc live_ok_freeze live_ok_reset)

lemma live_ok_run:
  "live_ok s \<Longrightarrow> \<forall>tag sz. Alloc tag sz \<in> set xs \<longrightarrow> unat sz < 2 ^ 62 \<Longrightarrow> arena_ops_run xs s = Some s' \<Longrightarrow> live_ok s'"
proof (induction xs arbitrary: s)
  case (Cons x xs)
  then obtain s1 where s1: "arena_op_step x s = Some s1" "arena_ops_run xs s1 = Some s'" by (auto simp: bind_eq_Some_conv)
  have "unat sz < 2 ^ 62" if "x = Alloc tag sz" for tag sz using Cons.prems(2) that by simp
  then have "live_ok s1" by (rule live_ok_step [OF Cons.prems(1) _ s1(1)])
  then show ?case using Cons.prems(2) s1(2) by (intro Cons.IH [of s1]) simp_all
qed simp

text \<open>What \<open>mmap\<close> promises of the two mappings: page-aligned user addresses that do not overlap.\<close>

definition mappings_ok :: "64 word \<Rightarrow> 64 word \<Rightarrow> 64 word \<Rightarrow> 64 word \<Rightarrow> bool" where
  "mappings_ok b c b' c' \<longleftrightarrow>
     4096 dvd unat b \<and> 4096 dvd unat b' \<and> unat b + unat c < 2 ^ 63 \<and> unat b' + unat c' < 2 ^ 63 \<and>
     (unat b + unat c \<le> unat b' \<or> unat b' + unat c' \<le> unat b)"

definition boot_arenas :: "64 word \<Rightarrow> 64 word \<Rightarrow> 64 word \<Rightarrow> 64 word \<Rightarrow> arenas option" where
  "boot_arenas b c b' c' =
     Option.bind (arena_init (Some b) c) (\<lambda>st. map_option (\<lambda>rq. \<lparr>static_arena = st, req_arena = rq\<rparr>) (arena_init (Some b') c'))"

lemma boot_live_ok: "mappings_ok b c b' c' \<Longrightarrow> boot_arenas b c b' c' = Some A \<Longrightarrow> live_ok (A, [])"
  by (auto simp: mappings_ok_def boot_arenas_def arena_init_def live_ok_def arenas_ok_def arena_ok_def unat_plus_small
      elim: dvd_trans [rotated])

text \<open>C12: memory of the C runtime is never handed out twice. From two fresh mappings, through any
  order of allocations in the two arenas, freezing the static arena and resetting the request arena,
  as long as no allocation ends the process: every allocation that is still in use is aligned to 8
  bytes, lies in the handed-out part of the arena its tag selects, and shares no byte with another one.
  (The sizes are below 2 to the 62, so that rounding up cannot wrap.)\<close>

theorem live_allocations_disjoint:
  assumes "mappings_ok b c b' c'" and "boot_arenas b c b' c' = Some A"
    and "\<forall>tag sz. Alloc tag sz \<in> set ops \<longrightarrow> unat sz < 2 ^ 62"
    and "arena_ops_run ops (A, []) = Some (A', live)"
  shows "(\<forall>x \<in> set live. placed A' x) \<and>
    (\<forall>j < length live. \<forall>i < j. region (live ! i) \<inter> region (live ! j) = {})"
  using live_ok_run [OF boot_live_ok [OF assms(1,2)] assms(3,4)]
  by (auto simp: live_ok_def sorted_wrt_iff_nth_less simp del: region.simps)

text \<open>A static object, an object of a first request, the end of that request, and an object of the
  next one, which gets the first one's memory again.\<close>

lemma live_allocations_disjoint_witness:
  "\<exists>A A'. boot_arenas 4096 8192 16384 8192 = Some A \<and>
     arena_ops_run [Alloc 0 12, Freeze, Alloc 1 24, Reset, Alloc 1 9] (A, []) = Some (A', [(1, 16384, 9), (0, 4096, 12)]) \<and>
     region (1, 16384, 9) \<inter> region (0, 4096, 12) = {}"
proof -
  let ?ops = "[Alloc 0 12, Freeze, Alloc 1 24, Reset, Alloc 1 9]"
  let ?live = "[(1, 16384, 9), (0, 4096, 12)] :: allocation list"
  have maps: "mappings_ok 4096 8192 16384 8192" by (simp add: mappings_ok_def)
  obtain A where boot: "boot_arenas 4096 8192 16384 8192 = Some A" by (simp add: boot_arenas_def arena_init_def)
  then obtain A' where run: "arena_ops_run ?ops (A, []) = Some (A', ?live)"
    by (auto simp: boot_arenas_def arena_init_def lambpie_arena_alloc_def arena_alloc_def align8_def arena_reset_def arena_freeze_def ARENA_STATIC_def)
  have sizes: "\<forall>tag sz. Alloc tag sz \<in> set ?ops \<longrightarrow> unat sz < 2 ^ 62" by auto
  have "region (?live ! 0) \<inter> region (?live ! 1) = {}"
    using live_allocations_disjoint [OF maps boot sizes run, THEN conjunct2, rule_format, of 1 0] by (simp del: region.simps)
  with boot run show ?thesis by auto
qed

end
