(* ===== verification/Spec2Isabelle.thy ===== *)
theory Spec2Isabelle
  imports PieRead CompilerClasses CompilerTidy CompilerLiterals CompilerErase CompilerArena CompilerSource PieSem VerifyProps CommandLines PiePython HandleProgram ArenaRuntime
begin

text \<open>
  A verification library for lambpie, a compiler from a small Python-like language (\<open>.pie\<close>) to LLVM
  IR for AWS Lambda handlers, with its generator of SDK stubs, its build and deployment scripts, and
  the C functions its generated code runs on.

  \<^bold>\<open>The program and how its parts interact.\<close>
  \<open>scripts/parse_models.py\<close> turns a botocore service model into \<open>.pie\<close> stubs.
  \<open>compiler.py\<close> parses \<open>builtins.pie\<close> and a source file with Python's \<open>ast\<close>, visits the
  tree, fills an \<open>ir.Module\<close> of llvmlite, adds the entry points \<open>lambpie_init\<close> and
  \<open>lambpie_handle\<close>, and writes the module and the metadata of the handler.
  \<open>scripts/build.py\<close> runs the compiler, \<open>llc\<close> and cargo, which link the module with the C
  runtime (\<open>runtime/src\<close>) and the Rust shim to the binary \<open>bootstrap\<close>.
  \<open>scripts/package.py\<close>, \<open>deploy.py\<close>, \<open>verify.py\<close> and \<open>invoke.py\<close> pack it, deploy it, try
  it on localstack and invoke it. At run time the shim calls \<open>lambpie_init\<close> once, freezes the
  static arena, and calls \<open>lambpie_handle\<close> for each event, which reads the event with the functions
  of \<open>json.c\<close>, calls the user's \<open>handle\<close>, and writes the response with them; all objects come
  from the two arenas of \<open>arena.c\<close>.

  \<^bold>\<open>What every component shares.\<close> \<open>Prelude\<close>: Python exceptions as values
  (\<open>pyexc\<close>, \<open>'a res\<close>), the state and exception monad of the compiler, the locale \<open>frame\<close>
  for what a stateful computation may change, insertion-ordered dictionaries (locale
  \<open>ordered_dict\<close>), decimal numbers. \<open>Json\<close>: the values \<open>json.load\<close> returns and Python's
  operations on them. \<open>OsPath\<close>: \<open>os.path\<close>. \<open>ScriptIO\<close>: computations that talk to
  the outside world and leave a trace of calls and replies, with a weakest-precondition calculus and the
  locale \<open>protocol\<close>.

  \<^bold>\<open>The stub generator (\<open>scripts/parse_models.py\<close>).\<close>
  \<^item> \<open>ModelParser\<close>: \<open>_collect_reachable_shapes\<close>, \<open>_resolve_pie_type\<close>,
    \<open>BotocoreModelParser\<close>, on an arbitrary JSON value, each raise a branch. \<open>PieGen\<close>:
    \<open>generate_pie\<close>.
  \<^item> \<open>ModelReach\<close>, \<open>ModelProps\<close>: the walk collects exactly the shapes the chosen operations
    depend on, and fails exactly when one of them is missing or malformed; the parsed document has no
    dangling references; what \<open>--skip-unsupported\<close> skips and what it misses. \<open>PieGen\<close>:
    rendering never fails and every type a stub mentions is defined. \<open>PieRead\<close>: a reader of lines and
    indentation gets the classes back from the generated text.

  \<^bold>\<open>The compiler (\<open>compiler.py\<close>).\<close>
  \<^item> \<open>PieAst\<close>: the trees of \<open>ast\<close>; \<open>Llvm\<close>: the data the compiler exchanges with llvmlite
    (types, values, instructions, and the record \<open>llapi\<close> of what the library decides).
  \<^item> \<open>CompilerState\<close>: the record \<open>cstate\<close> is the \<open>Compiler\<close> object together with the module
    it fills, and the operations on it. \<open>CompilerExpr\<close>, \<open>CompilerStmt\<close>,
    \<open>CompilerEntry\<close>: one definition for each \<open>visit_\<close> method, the generated \<open>__init__\<close>,
    \<open>_synthesize_lambda_entry\<close>, \<open>compile\<close> (\<open>compile_program\<close>, with the builtins in front),
    \<open>get_metadata\<close>. The statements follow the tree, so no fuel is needed.
  \<^item> \<open>CompilerFrames\<close>, \<open>CompilerModule\<close>: the locales. A relation between states that the primitive
    operations respect is respected by every visitor (\<open>expr_frame\<close>, \<open>leave_frame\<close>,
    \<open>line_frame\<close>, \<open>stmt_frame\<close>, \<open>visitor_frame\<close>, \<open>function_frame\<close>, \<open>module_frame\<close>);
    each later theory interprets them with its own relation instead of repeating the induction over the syntax.
    \<open>CompilerBodies\<close>: the locale \<open>body_contract\<close> carries a property of states from inside
    function bodies to whole compilations.
  \<^item> \<open>CompilerSteps\<close>, \<open>CompilerInvariants\<close>: the compiler as an inductive step relation
    \<open>cstep\<close>, the refinement of every visitor to it, and invariants by rule induction (unique
    symbols of a library that refuses a taken name, sound class layouts). \<open>CompilerLiterals\<close>: the names of
    literals never collide, whatever the library does. \<open>CompilerMeta\<close>: the metadata are complete.
  \<^item> \<open>CompilerCode\<close>, \<open>CompilerClasses\<close>: the instructions an operation appends; the layout of
    a class, the generated \<open>__init__\<close>, the code of a field access.
  \<^item> \<open>CompilerFlow\<close>, \<open>CompilerModuleFlow\<close>, \<open>CompilerTidy\<close>: every block of a compiled
    module has exactly one terminator and branches stay in their function; the terminator is the last
    instruction of its block when nothing stands behind a \<open>return\<close>, and need not be otherwise.
    \<open>CompilerArena\<close>: which arena each piece of generated code allocates from.
    \<open>CompilerErase\<close>: what the compiler ignores, as an erasure of programs that leaves every compilation
    as it is. \<open>CompilerSource\<close>: programs without a handler, string literals.
  \<^item> \<open>PieSem\<close>, \<open>LlvmSem\<close>, \<open>CompilerGrow\<close>, \<open>CompilerSim\<close>, \<open>CompilerSimStmt\<close>,
    \<open>CompilerCorrect\<close>: the meaning of integer programs, the machine, and the simulation between them.
    \<open>int_functions_correct\<close>: the code of a compiled integer function returns what the function returns.
    \<open>PiePython\<close>: the same against Python's unbounded integers, and the exact operands on which an
    operator differs. \<open>CompilerSample\<close> holds the concrete program of several witnesses.

  \<^bold>\<open>The C runtime (\<open>runtime/src\<close>).\<close>
  \<^item> \<open>JsonRuntime\<close>: every function of \<open>json.c\<close> on byte lists; \<open>NULL\<close>, \<open>exit(1)\<close> and
    undefined behaviour (signed overflow, a store outside the buffer) are results of their own.
    \<open>JsonRuntimeProps\<close>: the reader gets back what the writer wrote, what the writer writes and when it
    fits, and how a value can shadow a key.
  \<^item> \<open>ArenaRuntime\<close>: \<open>arena.c\<close> on 64-bit addresses; memory in use is never handed out twice.
  \<^item> \<open>HandleSem\<close>, \<open>HandleRead\<close>, \<open>HandleCorrect\<close>, \<open>HandleProgram\<close>: the code
    of \<open>lambpie_handle\<close> run together with \<open>JsonRuntime\<close>. \<open>lambpie_handle_correct\<close> joins the
    compiler and the runtime: the user's \<open>handle\<close> gets an object with the values of the event, and
    the document of the object it returns is left in the response buffer.

  \<^bold>\<open>The scripts.\<close>
  \<^item> \<open>CommandLines\<close>: \<open>main\<close> of \<open>compiler.py\<close> and \<open>parse_models.py\<close> after argparse: nothing
    is written for a rejected program, and what \<open>build.py\<close> reads is what the compiler wrote.
  \<^item> \<open>Build\<close>, \<open>BuildProps\<close>: \<open>build.py\<close>, \<open>package.py\<close>, \<open>test.py\<close>,
    \<open>test_arena.py\<close> as sequences of commands. \<open>Deploy\<close>, \<open>DeployProps\<close>, \<open>Verify\<close>,
    \<open>VerifyProps\<close>: \<open>deploy.py\<close>, \<open>verify.py\<close>, \<open>invoke.py\<close>. Each run is a path of a
    protocol automaton; the automata are instances of \<open>protocol\<close>.

  \<^bold>\<open>Parameters, and what is assumed of them.\<close> Code outside the repository is an argument:
  \<^item> \<open>llapi\<close> (llvmlite), with the laws \<open>unique_names\<close> (a registered global name is refused the
    next time), \<open>bodies_final\<close> (a struct body is set once), \<open>terminator_law\<close> and
    \<open>single_terminator\<close> (a block counts as terminated exactly after a terminator, and a terminated
    block takes no second one), \<open>typing_law\<close> (the types of integer operations).
    \<open>std_llapi\<close> is a concrete instance that has them all, and the witnesses use it.
  \<^item> The effect of an instruction: \<open>langref\<close> says what LLVM documents for the 64-bit integer
    instructions and branches, \<open>langmem\<close> for the instructions of \<open>lambpie_handle\<close>; both have
    concrete instances. Objects are abstract cells there, without addresses, and allocation always finds
    room: an exhausted arena ends the process instead, which is the case of \<open>ArenaRuntime\<close>.
    The user's \<open>handle\<close> is an arbitrary function on the heap, or does not return.
  \<^item> \<open>machine\<close> (files, subprocesses, the clock, boto3) and \<open>frontend\<close> (\<open>ast.parse\<close>, the printed
    module, \<open>json.dump\<close>); \<open>clock_law\<close> says that the clock advances by at least the time slept.
  \<^item> \<open>mmap\<close>: two disjoint page-aligned mappings (\<open>mappings_ok\<close>).

  \<^bold>\<open>Bounds and fuel.\<close> Recursion follows the data or has a termination proof (the walk over a
  service model by the number of shapes not yet visited). The exceptions are loops over an outside clock
  and the loops of the source language. The polling loops of \<open>deploy.py\<close> and \<open>verify.py\<close> take fuel,
  and 62 rounds are proved to be enough with a working clock, whatever the services answer
  (\<open>deploy_ends\<close>): the wait for a role makes at most 13 requests, the wait for the function at most
  62; the wait for localstack ends after 30 probes without any assumption. Runs of integer
  programs take fuel because \<open>while\<close> need not end; the correctness theorems hold for every amount of
  fuel with which the source run has a result, and conclude that the machine returns. Integers of
  generated code, of \<open>json.c\<close> and of \<open>arena.c\<close> are 64-bit words with wrap-around; Python's
  are unbounded.

  \<^bold>\<open>Not modelled.\<close> Argument parsing by argparse and progress messages, which do not influence a
  result; names llvmlite chooses for registers; the code of functions with strings, objects or arrays beyond the form
  of the generated instructions (only integer functions and \<open>lambpie_handle\<close> are run); the event loop,
  HTTP and TLS parts of the C runtime and the Rust shim, which are system calls and glue around the
  modelled functions; the tests, Docker and Make files.
\<close>

end
